(* ===== verification/Prelude.thy ===== *)
theory Prelude
  imports Complex_Main "HOL-Library.Word" "HOL-Library.Signed_Division"
begin

text \<open>
  Shared vocabulary of the development: the exceptions the TypeScript code throws, the result
  type that carries them, the integers and numbers of JavaScript, byte buffers, and the generic
  lemmas and theorem collections the component theories use.

  A function that may throw has the result type \<open>'a res\<close>: \<open>Inl e\<close> is the thrown error
  and \<open>Inr x\<close> the returned value.  \<open>rbind\<close> is the sequencing of two statements of
  which the first may throw.  A BigInt is an \<open>int\<close>; BigInt division and remainder truncate
  towards zero, so they are \<open>sdiv\<close> and \<open>smod\<close>.  A value of type \<open>number\<close> that
  the code inspects only through \<open>Number.isSafeInteger\<close> or \<open>Number.isInteger\<close> is a
  \<open>jsnum\<close>: \<open>JInt i\<close> is an integer and \<open>JNonInt\<close> stands for the rest (a
  fraction, NaN, an infinity), which both predicates reject.
\<close>

section \<open>Errors and results\<close>

datatype error =
    Error string
  | Ineligible_Private_Batch string
  | Syntax_Error
  | Range_Error
  | Type_Error

type_synonym 'a res = "error + 'a"

definition rbind :: "'a res \<Rightarrow> ('a \<Rightarrow> 'b res) \<Rightarrow> 'b res" where
  "rbind m f = (case m of Inl e \<Rightarrow> Inl e | Inr x \<Rightarrow> f x)"

primrec rmap_list :: "('a \<Rightarrow> 'b res) \<Rightarrow> 'a list \<Rightarrow> 'b list res" where
  "rmap_list f [] = Inr []"
| "rmap_list f (x # xs) = rbind (f x) (\<lambda>y. rbind (rmap_list f xs) (\<lambda>ys. Inr (y # ys)))"

primrec rfold :: "('s \<Rightarrow> 'a \<Rightarrow> 's res) \<Rightarrow> 's \<Rightarrow> 'a list \<Rightarrow> 's res" where
  "rfold f s [] = Inr s"
| "rfold f s (x # xs) = rbind (f s x) (\<lambda>s'. rfold f s' xs)"

definition returns :: "'a res \<Rightarrow> bool" where
  "returns m \<longleftrightarrow> (case m of Inl _ \<Rightarrow> False | Inr _ \<Rightarrow> True)"

definition try_catch :: "'a res \<Rightarrow> (error \<Rightarrow> 'a) \<Rightarrow> 'a" where
  "try_catch m h = (case m of Inl e \<Rightarrow> h e | Inr x \<Rightarrow> x)"

section \<open>Numbers\<close>

datatype jsnum = JInt int | JNonInt

definition MAX_SAFE_INTEGER :: int where
  "MAX_SAFE_INTEGER = 9007199254740991"

definition safe_int :: "int \<Rightarrow> bool" where
  "safe_int i \<longleftrightarrow> - MAX_SAFE_INTEGER \<le> i \<and> i \<le> MAX_SAFE_INTEGER"

fun is_safe_integer :: "jsnum \<Rightarrow> bool" where
  "is_safe_integer (JInt i) = safe_int i"
| "is_safe_integer JNonInt = False"

fun num_int :: "jsnum \<Rightarrow> int" where
  "num_int (JInt i) = i"
| "num_int JNonInt = 0"

text \<open>\<open>value >> n\<close> on a BigInt: an arithmetic shift, to the left when \<open>n\<close> is negative.\<close>

definition bigint_shr :: "int \<Rightarrow> int \<Rightarrow> int" where
  "bigint_shr a n = (if 0 \<le> n then a div 2 ^ nat n else a * 2 ^ nat (- n))"

section \<open>Byte buffers\<close>

text \<open>
  A \<open>Buffer\<close> or \<open>Uint8Array\<close> is a list of 8-bit words.  \<open>Buffer.from(number[])\<close> reduces
  each number modulo 256.
\<close>

type_synonym byte = "8 word"

definition buffer_from :: "int list \<Rightarrow> byte list" where
  "buffer_from xs = map word_of_int xs"

definition bytes_to_numbers :: "byte list \<Rightarrow> int list" where
  "bytes_to_numbers bs = map uint bs"

primrec le_bytes_int :: "byte list \<Rightarrow> int" where
  "le_bytes_int [] = 0"
| "le_bytes_int (b # bs) = uint b + 256 * le_bytes_int bs"

primrec int_le_bytes :: "nat \<Rightarrow> int \<Rightarrow> byte list" where
  "int_le_bytes 0 v = []"
| "int_le_bytes (Suc n) v = word_of_int v # int_le_bytes n (v div 256)"

section \<open>Array access\<close>

text \<open>\<open>xs[i] ?? d\<close> for an index that is a natural number.\<close>

definition at_or :: "'a list \<Rightarrow> nat \<Rightarrow> 'a \<Rightarrow> 'a" where
  "at_or xs i d = (if i < length xs then xs ! i else d)"

section \<open>Lemmas\<close>

named_theorems js_defs \<open>definitions that concrete evaluations unfold\<close>

subsection \<open>Results\<close>

lemma rbind_Inl [simp]: "rbind (Inl e) f = Inl e"
  by (simp add: rbind_def)

lemma rbind_Inr [simp]: "rbind (Inr x) f = f x"
  by (simp add: rbind_def)

lemma rbind_eq_Inr: "rbind m f = Inr y \<longleftrightarrow> (\<exists>x. m = Inr x \<and> f x = Inr y)"
  by (cases m) auto

lemma rbind_InrE [elim!]:
  assumes "rbind m f = Inr y"
  obtains x where "m = Inr x" and "f x = Inr y"
  using assms by (auto simp: rbind_eq_Inr)

lemma rbind_eq_Inl: "rbind m f = Inl e \<longleftrightarrow> m = Inl e \<or> (\<exists>x. m = Inr x \<and> f x = Inl e)"
  by (cases m) auto

lemma rbind_assoc: "rbind (rbind m f) g = rbind m (\<lambda>x. rbind (f x) g)"
  by (cases m) simp_all

lemma returns_Inr [simp]: "returns (Inr x)"
  by (simp add: returns_def)

lemma returns_Inl [simp]: "\<not> returns (Inl e)"
  by (simp add: returns_def)

lemma returns_iff: "returns m \<longleftrightarrow> (\<exists>x. m = Inr x)"
  by (cases m) auto

lemma try_catch_simps [simp]: "try_catch (Inl e) h = h e" "try_catch (Inr x) h = x"
  by (simp_all add: try_catch_def)

lemma rmap_list_Inr_iff:
  "rmap_list f xs = Inr ys \<longleftrightarrow> list_all2 (\<lambda>x y. f x = Inr y) xs ys"
proof (induction xs arbitrary: ys)
  case Nil
  then show ?case by auto
next
  case (Cons x xs)
  then show ?case by (cases ys) (auto simp: rbind_eq_Inr)
qed

lemma rmap_list_total:
  assumes "\<And>x. x \<in> set xs \<Longrightarrow> f x = Inr (g x)"
  shows "rmap_list f xs = Inr (map g xs)"
  using assms by (induction xs) auto

lemma rfold_append: "rfold f s (xs @ ys) = rbind (rfold f s xs) (\<lambda>s'. rfold f s' ys)"
  by (induction xs arbitrary: s) (auto simp: rbind_assoc)

lemma rfold_upt_Suc: "rfold f s [0..<Suc n] = rbind (rfold f s [0..<n]) (\<lambda>s'. f s' n)"
  by (cases "rfold f s [0..<n]") (simp_all add: rfold_append rbind_def split: sum.split)

lemma rfold_invariant:
  assumes "rfold f s xs = Inr t" and "P s"
    and "\<And>s x s'. x \<in> set xs \<Longrightarrow> P s \<Longrightarrow> f s x = Inr s' \<Longrightarrow> P s'"
  shows "P t"
  using assms by (induction xs arbitrary: s) auto

subsection \<open>Numbers\<close>

lemma is_safe_integer_iff:
  "is_safe_integer x \<longleftrightarrow> (\<exists>i. x = JInt i \<and> safe_int i)"
  by (cases x) auto

lemma sdiv_nonneg [simp]: "0 \<le> a \<Longrightarrow> 0 < b \<Longrightarrow> a sdiv b = a div (b::int)"
  by (cases "a = 0") (auto simp: signed_divide_int_def sgn_if)

lemma smod_nonneg [simp]: "0 \<le> a \<Longrightarrow> 0 < b \<Longrightarrow> a smod b = a mod (b::int)"
  by (cases "a = 0") (auto simp: signed_modulo_int_def sgn_if)

lemma bigint_shr_nonneg: "0 \<le> a \<Longrightarrow> 0 \<le> bigint_shr a n"
  by (simp add: bigint_shr_def pos_imp_zdiv_nonneg_iff)

lemma bigint_shr_le:
  assumes "0 \<le> a" and "0 \<le> n"
  shows "bigint_shr a n \<le> a"
proof -
  have "a div 2 ^ nat n \<le> a div 1"
    using assms(1) by (intro zdiv_mono2) auto
  then show ?thesis using assms(2) by (simp add: bigint_shr_def)
qed

lemma mult_div_le_left:
  assumes "0 \<le> (a::int)" and "0 \<le> r" and "r \<le> s" and "0 < s"
  shows "a * r div s \<le> a"
proof -
  have "a * r \<le> a * s" using assms by (simp add: mult_left_mono)
  then have "a * r div s \<le> a * s div s" using assms(4) by (rule zdiv_mono1)
  then show ?thesis using assms(4) by simp
qed

lemma div_le_self: "0 \<le> (a::int) \<Longrightarrow> 0 < d \<Longrightarrow> a div d \<le> a"
  using zdiv_mono2 [of a 1 d] by simp

subsection \<open>Bytes\<close>

lemma uint_byte: "0 \<le> k \<Longrightarrow> k < 256 \<Longrightarrow> uint (word_of_int k :: byte) = k"
  by (simp add: uint_word_of_int)

lemma length_int_le_bytes [simp]: "length (int_le_bytes n v) = n"
  by (induction n arbitrary: v) auto

lemma le_bytes_int_nonneg: "0 \<le> le_bytes_int bs"
  by (induction bs) auto

lemma le_bytes_int_bound: "le_bytes_int bs < 256 ^ length bs"
proof (induction bs)
  case Nil
  then show ?case by simp
next
  case (Cons b bs)
  have "uint b < 256" using uint_lt2p [of b] by simp
  with Cons show ?case by simp
qed

lemma le_bytes_int_of_int:
  "0 \<le> v \<Longrightarrow> v < 256 ^ n \<Longrightarrow> le_bytes_int (int_le_bytes n v) = v"
proof (induction n arbitrary: v)
  case 0
  then show ?case by simp
next
  case (Suc n)
  then have "v div 256 < 256 ^ n" by (simp add: div_less_iff_less_mult mult.commute)
  with Suc have "le_bytes_int (int_le_bytes n (v div 256)) = v div 256"
    by (simp add: pos_imp_zdiv_nonneg_iff)
  moreover have "uint (word_of_int v :: byte) = v mod 256"
    by (simp add: uint_word_of_int)
  ultimately show ?case by simp
qed

lemma int_le_bytes_of_bytes: "int_le_bytes (length bs) (le_bytes_int bs) = bs"
proof (induction bs)
  case Nil
  then show ?case by simp
next
  case (Cons b bs)
  have b: "0 \<le> uint b" "uint b < 256" using uint_lt2p [of b] by auto
  have "(word_of_int 256 :: byte) = 0" by simp
  then have "(word_of_int (uint b + 256 * le_bytes_int bs) :: byte) = b"
    by (simp only: wi_hom_add [symmetric] wi_hom_mult [symmetric] word_of_int_uint mult_zero_left add_0_right)
  moreover have "(uint b + 256 * le_bytes_int bs) div 256 = le_bytes_int bs"
    using b by simp
  ultimately show ?case using Cons by simp
qed

subsection \<open>Arrays\<close>

lemma at_or_in [simp]: "i < length xs \<Longrightarrow> at_or xs i d = xs ! i"
  by (simp add: at_or_def)

lemma at_or_out [simp]: "length xs \<le> i \<Longrightarrow> at_or xs i d = d"
  by (simp add: at_or_def)

end
