(* ===== verification/Lmsr.thy ===== *)
theory Lmsr
  imports Prelude
begin

text \<open>
  The integer LMSR market maker of \<open>client/src/lmsr.ts\<close>: the fixed-point exponential and
  logarithm, the cost function, the YES probability and the buy and sell quotes, with every guard
  that throws.  The lemmas show that the fixed-point loops stay in range (so no internal division
  guard ever fires on a valid state), bound the cost function between the largest outcome quantity
  and that quantity plus \<open>b * ln 2\<close>, and describe each quote by the cost difference it
  rounds.
\<close>

section \<open>Constants and types\<close>

definition LMSR_FIXED_SCALE :: int where "LMSR_FIXED_SCALE = 1000000000000"
definition LMSR_PROBABILITY_SCALE :: int where "LMSR_PROBABILITY_SCALE = 1000000"
definition MIN_LIQUIDITY_PARAMETER :: int where "MIN_LIQUIDITY_PARAMETER = 10000000"
definition MAX_LIQUIDITY_PARAMETER :: int where "MAX_LIQUIDITY_PARAMETER = 1000000000000"
definition MIN_TRADE_SHARES :: int where "MIN_TRADE_SHARES = 10000"
definition MAX_TRADE_SHARES :: int where "MAX_TRADE_SHARES = 100000000000"
definition MAX_OUTCOME_QUANTITY :: int where "MAX_OUTCOME_QUANTITY = 1000000000000000"
definition MAX_IMBALANCE_MULTIPLIER :: int where "MAX_IMBALANCE_MULTIPLIER = 20"
definition MAX_TRADING_FEE_BPS :: int where "MAX_TRADING_FEE_BPS = 1000"
definition LN_2_FIXED :: int where "LN_2_FIXED = 693147180559"

lemmas lmsr_consts =
  LMSR_FIXED_SCALE_def LMSR_PROBABILITY_SCALE_def MIN_LIQUIDITY_PARAMETER_def
  MAX_LIQUIDITY_PARAMETER_def MIN_TRADE_SHARES_def MAX_TRADE_SHARES_def
  MAX_OUTCOME_QUANTITY_def MAX_IMBALANCE_MULTIPLIER_def MAX_TRADING_FEE_BPS_def
  LN_2_FIXED_def

datatype OutcomeSide = Yes | No
datatype TradeDirection = Buy | Sell

record MarketQuantities =
  qyes :: int
  qno :: int

record TradeQuote =
  direction :: TradeDirection
  side :: OutcomeSide
  shares :: int
  rawAmount :: int
  feeAmount :: int
  totalAmount :: int
  averagePrice :: int
  beforeYesProbability :: int
  afterYesProbability :: int
  after :: MarketQuantities

section \<open>Arithmetic helpers\<close>

definition mulDivFloor :: "int \<Rightarrow> int \<Rightarrow> int \<Rightarrow> int res" where
  "mulDivFloor a b denominator =
     (if a < 0 \<or> b < 0 \<or> denominator \<le> 0 then Inl (Error ''invalid unsigned division'')
      else Inr ((a * b) sdiv denominator))"

definition divCeil :: "int \<Rightarrow> int \<Rightarrow> int res" where
  "divCeil value denominator =
     (if value < 0 \<or> denominator \<le> 0 then Inl (Error ''invalid unsigned division'')
      else let quotient = value sdiv denominator
           in Inr (if value smod denominator = 0 then quotient else quotient + 1))"

definition mulDivCeil :: "int \<Rightarrow> int \<Rightarrow> int \<Rightarrow> int res" where
  "mulDivCeil a b denominator = divCeil (a * b) denominator"

definition absoluteDifference :: "int \<Rightarrow> int \<Rightarrow> int" where
  "absoluteDifference a b = (if a \<ge> b then a - b else b - a)"

section \<open>Validation\<close>

definition validateLiquidity :: "int \<Rightarrow> unit res" where
  "validateLiquidity liquidity =
     (if liquidity < MIN_LIQUIDITY_PARAMETER \<or> liquidity > MAX_LIQUIDITY_PARAMETER
      then Inl (Error ''liquidity parameter is outside protocol bounds'') else Inr ())"

definition validateTrade :: "int \<Rightarrow> jsnum \<Rightarrow> unit res" where
  "validateTrade sh feeBps =
     (if sh < MIN_TRADE_SHARES \<or> sh > MAX_TRADE_SHARES
      then Inl (Error ''share amount is outside protocol bounds'')
      else if \<not> is_safe_integer feeBps \<or> num_int feeBps < 0 \<or> num_int feeBps > MAX_TRADING_FEE_BPS
      then Inl (Error ''trading fee is outside protocol bounds'') else Inr ())"

definition validateState :: "MarketQuantities \<Rightarrow> int \<Rightarrow> unit res" where
  "validateState quantities liquidity =
     rbind (validateLiquidity liquidity) (\<lambda>_.
     if qyes quantities < 0 \<or> qno quantities < 0
        \<or> qyes quantities > MAX_OUTCOME_QUANTITY \<or> qno quantities > MAX_OUTCOME_QUANTITY
     then Inl (Error ''outcome quantity is outside protocol bounds'')
     else if absoluteDifference (qyes quantities) (qno quantities) > liquidity * MAX_IMBALANCE_MULTIPLIER
     then Inl (Error ''market imbalance exceeds protocol bounds'') else Inr ())"

definition increase :: "MarketQuantities \<Rightarrow> OutcomeSide \<Rightarrow> int \<Rightarrow> MarketQuantities" where
  "increase quantities sd sh =
     (if sd = Yes then \<lparr>qyes = qyes quantities + sh, qno = qno quantities\<rparr>
      else \<lparr>qyes = qyes quantities, qno = qno quantities + sh\<rparr>)"

definition decrease :: "MarketQuantities \<Rightarrow> OutcomeSide \<Rightarrow> int \<Rightarrow> MarketQuantities res" where
  "decrease quantities sd sh =
     (if sd = Yes
      then if qyes quantities < sh then Inl (Error ''insufficient YES shares'')
           else Inr \<lparr>qyes = qyes quantities - sh, qno = qno quantities\<rparr>
      else if qno quantities < sh then Inl (Error ''insufficient NO shares'')
           else Inr \<lparr>qyes = qyes quantities, qno = qno quantities - sh\<rparr>)"

section \<open>Fixed-point exponential and logarithm\<close>

text \<open>The loop over \<open>denominator\<close> in \<open>expNegativeFixed\<close>; it stops after 22.\<close>

function expLoop :: "int \<Rightarrow> int \<Rightarrow> int \<Rightarrow> int \<Rightarrow> int res" where
  "expLoop denominator remainder trm acc =
     (if denominator \<le> 22
      then rbind (mulDivFloor trm remainder LMSR_FIXED_SCALE) (\<lambda>product.
           let trm' = product sdiv denominator;
               acc' = (if denominator smod 2 = 1 then acc - trm' else acc + trm')
           in expLoop (denominator + 1) remainder trm' acc')
      else Inr acc)"
  by pat_completeness auto
termination
  by (relation "measure (\<lambda>(d, _, _, _). nat (23 - d))") auto

definition expNegativeFixed :: "int \<Rightarrow> int res" where
  "expNegativeFixed value =
     (let power = value sdiv LN_2_FIXED
      in if power > 127 then Inr 0
         else let remainder = value smod LN_2_FIXED
              in rbind (expLoop 1 remainder LMSR_FIXED_SCALE LMSR_FIXED_SCALE)
                   (\<lambda>sum. Inr (bigint_shr sum power)))"

text \<open>The loop over the odd denominators 3, 5, up to 33 in \<open>lnOnePlusFixed\<close>.\<close>

function lnLoop :: "int \<Rightarrow> int \<Rightarrow> int \<Rightarrow> int \<Rightarrow> int res" where
  "lnLoop denominator ratioSquared pow acc =
     (if denominator \<le> 33
      then rbind (mulDivFloor pow ratioSquared LMSR_FIXED_SCALE) (\<lambda>pow'.
           lnLoop (denominator + 2) ratioSquared pow' (acc + pow' sdiv denominator))
      else Inr acc)"
  by pat_completeness auto
termination
  by (relation "measure (\<lambda>(d, _, _, _). nat (35 - d))") auto

definition lnOnePlusFixed :: "int \<Rightarrow> int res" where
  "lnOnePlusFixed value =
     (if value < 0 \<or> value > LMSR_FIXED_SCALE
      then Inl (Error ''logarithm input is outside protocol bounds'')
      else rbind (mulDivFloor value LMSR_FIXED_SCALE (2 * LMSR_FIXED_SCALE + value)) (\<lambda>ratio.
           rbind (mulDivFloor ratio ratio LMSR_FIXED_SCALE) (\<lambda>ratioSquared.
           rbind (lnLoop 3 ratioSquared ratio ratio) (\<lambda>sum. Inr (2 * sum)))))"

section \<open>Subsidy, cost and probability\<close>

definition requiredLmsrSubsidy :: "int \<Rightarrow> int \<Rightarrow> int res" where
  "requiredLmsrSubsidy liquidity roundingReserve =
     rbind (validateLiquidity liquidity) (\<lambda>_.
     if roundingReserve < 0 then Inl (Error ''rounding reserve cannot be negative'')
     else rbind (mulDivCeil liquidity LN_2_FIXED LMSR_FIXED_SCALE) (\<lambda>x.
          Inr (x + roundingReserve)))"

definition lmsrCostFixed :: "MarketQuantities \<Rightarrow> int \<Rightarrow> int res" where
  "lmsrCostFixed quantities liquidity =
     rbind (validateState quantities liquidity) (\<lambda>_.
     let maximum = (if qyes quantities > qno quantities then qyes quantities else qno quantities);
         difference = absoluteDifference (qyes quantities) (qno quantities)
     in rbind (mulDivFloor difference LMSR_FIXED_SCALE liquidity) (\<lambda>ratio.
        rbind (expNegativeFixed ratio) (\<lambda>tail.
        rbind (lnOnePlusFixed tail) (\<lambda>softplus.
        Inr (maximum * LMSR_FIXED_SCALE + liquidity * softplus)))))"

definition lmsrYesProbability :: "MarketQuantities \<Rightarrow> int \<Rightarrow> int res" where
  "lmsrYesProbability quantities liquidity =
     rbind (validateState quantities liquidity) (\<lambda>_.
     let difference = absoluteDifference (qyes quantities) (qno quantities)
     in rbind (mulDivFloor difference LMSR_FIXED_SCALE liquidity) (\<lambda>ratio.
        rbind (expNegativeFixed ratio) (\<lambda>tail.
        rbind (mulDivFloor tail LMSR_PROBABILITY_SCALE (LMSR_FIXED_SCALE + tail)) (\<lambda>lower.
        Inr (if qyes quantities \<ge> qno quantities then LMSR_PROBABILITY_SCALE - lower else lower)))))"

section \<open>Quotes\<close>

definition buildQuote ::
    "TradeDirection \<Rightarrow> MarketQuantities \<Rightarrow> MarketQuantities \<Rightarrow> int \<Rightarrow> OutcomeSide
     \<Rightarrow> int \<Rightarrow> int \<Rightarrow> jsnum \<Rightarrow> TradeQuote res" where
  "buildQuote dir before aft liquidity sd sh raw feeBps =
     rbind (mulDivFloor raw LMSR_FIXED_SCALE sh) (\<lambda>averagePriceFixed.
     let boundedPrice = (if averagePriceFixed < LMSR_FIXED_SCALE then averagePriceFixed
                         else LMSR_FIXED_SCALE)
     in rbind (mulDivFloor boundedPrice (LMSR_FIXED_SCALE - boundedPrice) LMSR_FIXED_SCALE)
          (\<lambda>curvature.
        rbind (divCeil (sh * num_int feeBps * curvature) (10000 * LMSR_FIXED_SCALE)) (\<lambda>fee.
        let total = (if dir = Buy then raw + fee else raw - fee)
        in if total \<le> 0 then Inl (Error ''fee exceeds trade proceeds'')
           else rbind (mulDivFloor boundedPrice LMSR_PROBABILITY_SCALE LMSR_FIXED_SCALE) (\<lambda>avg.
                rbind (lmsrYesProbability before liquidity) (\<lambda>beforeP.
                rbind (lmsrYesProbability aft liquidity) (\<lambda>afterP.
                Inr \<lparr>direction = dir, side = sd, shares = sh, rawAmount = raw, feeAmount = fee,
                     totalAmount = total, averagePrice = avg, beforeYesProbability = beforeP,
                     afterYesProbability = afterP, after = aft\<rparr>))))))"

definition quoteLmsrBuy ::
    "MarketQuantities \<Rightarrow> int \<Rightarrow> OutcomeSide \<Rightarrow> int \<Rightarrow> jsnum \<Rightarrow> TradeQuote res" where
  "quoteLmsrBuy quantities liquidity sd sh feeBps =
     rbind (validateTrade sh feeBps) (\<lambda>_.
     let aft = increase quantities sd sh
     in rbind (validateState aft liquidity) (\<lambda>_.
        rbind (lmsrCostFixed aft liquidity) (\<lambda>costAfter.
        rbind (lmsrCostFixed quantities liquidity) (\<lambda>costBefore.
        rbind (divCeil (costAfter - costBefore) LMSR_FIXED_SCALE) (\<lambda>raw.
        if raw = 0 then Inl (Error ''trade amount rounds to zero'')
        else buildQuote Buy quantities aft liquidity sd sh raw feeBps)))))"

definition quoteLmsrSell ::
    "MarketQuantities \<Rightarrow> int \<Rightarrow> OutcomeSide \<Rightarrow> int \<Rightarrow> jsnum \<Rightarrow> TradeQuote res" where
  "quoteLmsrSell quantities liquidity sd sh feeBps =
     rbind (validateTrade sh feeBps) (\<lambda>_.
     rbind (decrease quantities sd sh) (\<lambda>aft.
     rbind (validateState aft liquidity) (\<lambda>_.
     rbind (lmsrCostFixed quantities liquidity) (\<lambda>costBefore.
     rbind (lmsrCostFixed aft liquidity) (\<lambda>costAfter.
     let raw = (costBefore - costAfter) sdiv LMSR_FIXED_SCALE
     in if raw = 0 then Inl (Error ''trade amount rounds to zero'')
        else buildQuote Sell quantities aft liquidity sd sh raw feeBps)))))"

lemmas lmsr_eval =
  lmsr_consts mulDivFloor_def divCeil_def mulDivCeil_def absoluteDifference_def
  validateLiquidity_def validateTrade_def validateState_def increase_def decrease_def
  expNegativeFixed_def lnOnePlusFixed_def requiredLmsrSubsidy_def lmsrCostFixed_def
  lmsrYesProbability_def buildQuote_def quoteLmsrBuy_def quoteLmsrSell_def
  bigint_shr_def MAX_SAFE_INTEGER_def safe_int_def

section \<open>Lemmas\<close>

declare expLoop.simps [simp del] lnLoop.simps [simp del]

subsection \<open>Arithmetic\<close>

lemma scale_pos [simp]: "0 < LMSR_FIXED_SCALE" "0 \<le> LMSR_FIXED_SCALE" "0 < LN_2_FIXED"
  "LN_2_FIXED \<le> LMSR_FIXED_SCALE" "0 < LMSR_PROBABILITY_SCALE" "0 \<le> LMSR_PROBABILITY_SCALE"
  by (simp_all add: lmsr_consts)

lemma mulDivFloor_ok [simp]:
  "0 \<le> a \<Longrightarrow> 0 \<le> b \<Longrightarrow> 0 < d \<Longrightarrow> mulDivFloor a b d = Inr (a * b div d)"
  by (simp add: mulDivFloor_def)

lemma mulDivFloor_InrD:
  "mulDivFloor a b d = Inr x \<Longrightarrow> 0 \<le> a \<and> 0 \<le> b \<and> 0 < d \<and> x = a * b div d"
  by (auto simp: mulDivFloor_def split: if_splits)

lemma divCeil_InrD:
  assumes "divCeil v d = Inr x"
  shows "0 \<le> v" and "0 < d" and "v \<le> x * d" and "x * d < v + d" and "0 \<le> x"
proof -
  from assms have v: "0 \<le> v" and d: "0 < d"
    by (auto simp: divCeil_def split: if_splits)
  with assms have x: "x = (if v mod d = 0 then v div d else v div d + 1)"
    by (auto simp: divCeil_def Let_def split: if_splits)
  define q m where "q = v div d" and "m = v mod d"
  have "v = q * d + m" "0 \<le> m" "m < d" using d by (simp_all add: q_def m_def)
  with x show "v \<le> x * d" "x * d < v + d"
    by (auto simp: q_def [symmetric] m_def [symmetric] distrib_right split: if_splits)
  show "0 \<le> x" using x v d by (simp add: pos_imp_zdiv_nonneg_iff)
  show "0 \<le> v" "0 < d" by (fact v, fact d)
qed

lemma divCeil_total: "0 \<le> v \<Longrightarrow> 0 < d \<Longrightarrow> \<exists>x. divCeil v d = Inr x"
  by (simp add: divCeil_def Let_def)

lemma divCeil_eq:
  assumes "0 \<le> v" "0 < d"
  shows "divCeil v d = Inr (- ((- v) div d))"
  using assms by (simp add: divCeil_def Let_def zdiv_zminus1_eq_if)

lemma absoluteDifference_abs: "absoluteDifference a b = \<bar>a - b\<bar>"
  by (simp add: absoluteDifference_def)

subsection \<open>The fixed-point loops stay in range\<close>

text \<open>
  Before an odd denominator the partial sum dominates the last term, before an even one the sum
  and the last term together stay below one.
\<close>

definition exp_inv :: "int \<Rightarrow> int \<Rightarrow> int \<Rightarrow> bool" where
  "exp_inv d t s \<longleftrightarrow> 0 \<le> t \<and> 0 \<le> s \<and> s \<le> LMSR_FIXED_SCALE \<and>
     (if d mod 2 = 1 then t \<le> s else s + t \<le> LMSR_FIXED_SCALE)"

lemma exp_term_shrinks:
  assumes "0 \<le> t" "0 \<le> r" "r \<le> LMSR_FIXED_SCALE" "1 \<le> d"
  shows "0 \<le> (t * r div LMSR_FIXED_SCALE) div d" and "(t * r div LMSR_FIXED_SCALE) div d \<le> t"
proof -
  have p: "0 \<le> t * r div LMSR_FIXED_SCALE"
    using assms by (simp add: pos_imp_zdiv_nonneg_iff)
  then show "0 \<le> (t * r div LMSR_FIXED_SCALE) div d"
    using assms by (simp add: pos_imp_zdiv_nonneg_iff)
  have "(t * r div LMSR_FIXED_SCALE) div d \<le> t * r div LMSR_FIXED_SCALE"
    using p assms by (intro div_le_self) auto
  also have "\<dots> \<le> t" using assms by (intro mult_div_le_left) auto
  finally show "(t * r div LMSR_FIXED_SCALE) div d \<le> t" .
qed

lemma expLoop_range:
  assumes "0 \<le> r" "r \<le> LMSR_FIXED_SCALE" "1 \<le> d" "exp_inv d t s"
  shows "\<exists>x. expLoop d r t s = Inr x \<and> 0 \<le> x \<and> x \<le> LMSR_FIXED_SCALE"
  using assms
proof (induction d r t s rule: expLoop.induct)
  case (1 d r t s)
  show ?case
  proof (cases "d \<le> 22")
    case True
    define t' where "t' = (t * r div LMSR_FIXED_SCALE) div d"
    define s' where "s' = (if d mod 2 = 1 then s - t' else s + t')"
    from "1.prems" have t: "0 \<le> t" by (simp add: exp_inv_def)
    have "0 \<le> t'" "t' \<le> t"
      unfolding t'_def using exp_term_shrinks [OF t] "1.prems" by auto
    moreover have "(d + 1) mod 2 = 1 \<longleftrightarrow> d mod 2 \<noteq> 1" by presburger
    ultimately have inv: "exp_inv (d + 1) t' s'"
      using "1.prems"(4) by (auto simp: exp_inv_def s'_def split: if_splits)
    have p: "0 \<le> t * r div LMSR_FIXED_SCALE"
      using t "1.prems" by (simp add: pos_imp_zdiv_nonneg_iff)
    have step: "expLoop d r t s = expLoop (d + 1) r t' s'"
      using True t p "1.prems" by (subst expLoop.simps) (simp add: t'_def s'_def Let_def)
    show ?thesis unfolding step
      using "1.IH" [OF True refl refl, of "t * r div LMSR_FIXED_SCALE"] inv t p "1.prems"
      by (simp add: t'_def s'_def cong: if_cong)
  next
    case False
    with "1.prems" show ?thesis by (subst expLoop.simps) (simp add: exp_inv_def)
  qed
qed

lemma expNegativeFixed_range:
  assumes "0 \<le> v"
  shows "\<exists>x. expNegativeFixed v = Inr x \<and> 0 \<le> x \<and> x \<le> LMSR_FIXED_SCALE"
proof (cases "v div LN_2_FIXED > 127")
  case True
  then show ?thesis using assms by (simp add: expNegativeFixed_def)
next
  case False
  have r: "0 \<le> v mod LN_2_FIXED" "v mod LN_2_FIXED \<le> LMSR_FIXED_SCALE"
    using pos_mod_bound [of LN_2_FIXED v] by (auto simp: lmsr_consts)
  have "exp_inv 1 LMSR_FIXED_SCALE LMSR_FIXED_SCALE"
    by (simp add: exp_inv_def)
  from expLoop_range [OF r _ this]
  obtain x where x: "expLoop 1 (v mod LN_2_FIXED) LMSR_FIXED_SCALE LMSR_FIXED_SCALE = Inr x"
    "0 \<le> x" "x \<le> LMSR_FIXED_SCALE" by auto
  have "0 \<le> v div LN_2_FIXED" using assms by (simp add: pos_imp_zdiv_nonneg_iff)
  then have "bigint_shr x (v div LN_2_FIXED) \<le> x" using x(2) by (intro bigint_shr_le)
  with False assms x show ?thesis
    by (auto simp: expNegativeFixed_def Let_def bigint_shr_nonneg)
qed

text \<open>The logarithm loop is total on non-negative arguments and monotone in each of them.\<close>

lemma lnLoop_mono:
  assumes "0 \<le> q" "q \<le> q'" "0 \<le> p" "p \<le> p'" "0 \<le> s" "s \<le> s'" "3 \<le> d"
  shows "\<exists>x y. lnLoop d q p s = Inr x \<and> lnLoop d q' p' s' = Inr y \<and> s \<le> x \<and> x \<le> y"
  using assms
proof (induction d q p s arbitrary: p' s' rule: lnLoop.induct)
  case (1 d q p s)
  show ?case
  proof (cases "d \<le> 33")
    case True
    define p1 where "p1 = p * q div LMSR_FIXED_SCALE"
    define p1' where "p1' = p' * q' div LMSR_FIXED_SCALE"
    have p1: "0 \<le> p1" "p1 \<le> p1'"
      using "1.prems" by (auto simp: p1_def p1'_def pos_imp_zdiv_nonneg_iff
          intro!: zdiv_mono1 mult_mono)
    have d1: "0 \<le> p1 div d" "p1 div d \<le> p1' div d"
      using p1 "1.prems" by (auto simp: pos_imp_zdiv_nonneg_iff intro: zdiv_mono1)
    have steps: "lnLoop d q p s = lnLoop (d + 2) q p1 (s + p1 div d)"
      "lnLoop d q' p' s' = lnLoop (d + 2) q' p1' (s' + p1' div d)"
      using True "1.prems" p1
      by (subst lnLoop.simps, simp add: p1_def p1'_def)+
    have "mulDivFloor p q LMSR_FIXED_SCALE = Inr p1"
      using "1.prems" by (simp add: p1_def)
    from "1.IH" [OF True, of p1 p1' "s' + p1' div d"] "1.prems" p1 d1
    obtain x y where "lnLoop (d + 2) q p1 (s + p1 sdiv d) = Inr x"
      "lnLoop (d + 2) q' p1' (s' + p1' div d) = Inr y" "s + p1 sdiv d \<le> x" "x \<le> y"
      by fastforce
    with steps p1 d1 "1.prems" show ?thesis by auto
  next
    case False
    with "1.prems" show ?thesis by (auto simp: lnLoop.simps)
  qed
qed

lemma ln_ratio_mono:
  assumes "0 \<le> x" "x \<le> (y::int)" "0 < s"
  shows "x * s div (2 * s + x) \<le> y * s div (2 * s + y)"
proof -
  define k where "k = x * s div (2 * s + x)"
  have "0 \<le> (x * s) mod (2 * s + x)" using assms by simp
  then have "k * (2 * s + x) \<le> x * s"
    unfolding k_def by (simp add: minus_mod_eq_div_mult [symmetric])
  then have "k * (2 * s) \<le> x * (s - k)" by (simp add: algebra_simps)
  moreover have "k \<le> s"
  proof -
    have "k \<le> x * s div x" if "0 < x"
      unfolding k_def using assms that by (intro zdiv_mono2) auto
    then show ?thesis using assms by (cases "x = 0") (auto simp: k_def)
  qed
  ultimately have "k * (2 * s) \<le> y * (s - k)"
    using assms by (meson diff_ge_0_iff_ge mult_right_mono order_trans)
  then have "k * (2 * s + y) \<le> y * s" by (simp add: algebra_simps)
  then have "k * (2 * s + y) div (2 * s + y) \<le> y * s div (2 * s + y)"
    using assms by (intro zdiv_mono1) auto
  then show ?thesis
    unfolding k_def [symmetric] using assms by simp
qed

lemma lnOnePlusFixed_mono:
  assumes "0 \<le> x" "x \<le> y" "y \<le> LMSR_FIXED_SCALE"
  shows "\<exists>a b. lnOnePlusFixed x = Inr a \<and> lnOnePlusFixed y = Inr b \<and> 0 \<le> a \<and> a \<le> b"
proof -
  define r where "r = x * LMSR_FIXED_SCALE div (2 * LMSR_FIXED_SCALE + x)"
  define r' where "r' = y * LMSR_FIXED_SCALE div (2 * LMSR_FIXED_SCALE + y)"
  have r: "0 \<le> r" "r \<le> r'"
    using assms ln_ratio_mono [of x y LMSR_FIXED_SCALE]
    by (auto simp: r_def r'_def pos_imp_zdiv_nonneg_iff add_pos_nonneg)
  define q where "q = r * r div LMSR_FIXED_SCALE"
  define q' where "q' = r' * r' div LMSR_FIXED_SCALE"
  have q: "0 \<le> q" "q \<le> q'"
    using r by (auto simp: q_def q'_def pos_imp_zdiv_nonneg_iff intro!: zdiv_mono1 mult_mono)
  from lnLoop_mono [OF q r r, of 3] obtain a b where
    "lnLoop 3 q r r = Inr a" "lnLoop 3 q' r' r' = Inr b" "r \<le> a" "a \<le> b" by auto
  with r q assms show ?thesis
    by (auto simp: lnOnePlusFixed_def add_pos_nonneg r_def q_def r'_def q'_def)
qed

lemma lnOnePlusFixed_one: "lnOnePlusFixed LMSR_FIXED_SCALE = Inr 693147180550"
  by code_simp

lemma lnOnePlusFixed_range:
  assumes "0 \<le> x" "x \<le> LMSR_FIXED_SCALE"
  shows "\<exists>a. lnOnePlusFixed x = Inr a \<and> 0 \<le> a \<and> a \<le> LN_2_FIXED"
  using lnOnePlusFixed_mono [OF assms order_refl] lnOnePlusFixed_one
  by (auto simp: lmsr_consts)

subsection \<open>The guards\<close>

lemma validateLiquidity_iff [simp]:
  "validateLiquidity b = Inr u \<longleftrightarrow> MIN_LIQUIDITY_PARAMETER \<le> b \<and> b \<le> MAX_LIQUIDITY_PARAMETER"
  by (auto simp: validateLiquidity_def)

definition valid_state :: "MarketQuantities \<Rightarrow> int \<Rightarrow> bool" where
  "valid_state q b \<longleftrightarrow> MIN_LIQUIDITY_PARAMETER \<le> b \<and> b \<le> MAX_LIQUIDITY_PARAMETER \<and>
     0 \<le> qyes q \<and> 0 \<le> qno q \<and> qyes q \<le> MAX_OUTCOME_QUANTITY \<and> qno q \<le> MAX_OUTCOME_QUANTITY \<and>
     \<bar>qyes q - qno q\<bar> \<le> b * MAX_IMBALANCE_MULTIPLIER"

lemma validateState_iff: "validateState q b = Inr u \<longleftrightarrow> valid_state q b"
  by (auto simp: validateState_def valid_state_def rbind_eq_Inr absoluteDifference_abs)

lemma validateState_Inr [simp]: "valid_state q b \<Longrightarrow> validateState q b = Inr ()"
  by (simp add: validateState_iff)

lemma valid_state_pos: "valid_state q b \<Longrightarrow> 0 < b"
  by (simp add: valid_state_def lmsr_consts)

definition valid_trade :: "int \<Rightarrow> jsnum \<Rightarrow> bool" where
  "valid_trade sh f \<longleftrightarrow> MIN_TRADE_SHARES \<le> sh \<and> sh \<le> MAX_TRADE_SHARES \<and>
     is_safe_integer f \<and> 0 \<le> num_int f \<and> num_int f \<le> MAX_TRADING_FEE_BPS"

lemma validateTrade_iff: "validateTrade sh f = Inr u \<longleftrightarrow> valid_trade sh f"
  by (auto simp: validateTrade_def valid_trade_def)

subsection \<open>The cost function\<close>

definition max_quantity :: "MarketQuantities \<Rightarrow> int" where
  "max_quantity q = max (qyes q) (qno q)"

definition lmsr_tail :: "MarketQuantities \<Rightarrow> int \<Rightarrow> int res" where
  "lmsr_tail q b = expNegativeFixed (\<bar>qyes q - qno q\<bar> * LMSR_FIXED_SCALE div b)"

lemma lmsr_tail_range:
  assumes "valid_state q b"
  shows "\<exists>x. lmsr_tail q b = Inr x \<and> 0 \<le> x \<and> x \<le> LMSR_FIXED_SCALE"
  unfolding lmsr_tail_def using valid_state_pos [OF assms]
  by (intro expNegativeFixed_range) (simp add: pos_imp_zdiv_nonneg_iff)

lemma lmsrCostFixed_unfold:
  assumes "valid_state q b"
  shows "lmsrCostFixed q b = rbind (lmsr_tail q b) (\<lambda>t. rbind (lnOnePlusFixed t)
           (\<lambda>sp. Inr (max_quantity q * LMSR_FIXED_SCALE + b * sp)))"
  using assms valid_state_pos [OF assms]
  by (auto simp: lmsrCostFixed_def lmsr_tail_def absoluteDifference_abs max_quantity_def Let_def)

lemma lmsrCostFixed_valid: "lmsrCostFixed q b = Inr c \<Longrightarrow> valid_state q b"
  by (auto simp: lmsrCostFixed_def validateState_iff)

lemma lmsrCostFixed_bounds:
  assumes "valid_state q b"
  shows "\<exists>c. lmsrCostFixed q b = Inr c \<and> max_quantity q * LMSR_FIXED_SCALE \<le> c
     \<and> c \<le> max_quantity q * LMSR_FIXED_SCALE + b * LN_2_FIXED"
proof -
  from lmsr_tail_range [OF assms] obtain t where
    t: "lmsr_tail q b = Inr t" "0 \<le> t" "t \<le> LMSR_FIXED_SCALE" by auto
  from lnOnePlusFixed_range [OF t(2,3)] obtain a where
    a: "lnOnePlusFixed t = Inr a" "0 \<le> a" "a \<le> LN_2_FIXED" by auto
  have "0 \<le> b * a" "b * a \<le> b * LN_2_FIXED"
    using a valid_state_pos [OF assms] by simp_all
  with t a show ?thesis by (simp add: lmsrCostFixed_unfold [OF assms])
qed

lemma lmsrCostFixed_ge:
  "lmsrCostFixed q b = Inr c \<Longrightarrow> max_quantity q * LMSR_FIXED_SCALE \<le> c"
  using lmsrCostFixed_bounds [OF lmsrCostFixed_valid] by fastforce

lemma lmsrCostFixed_le:
  "lmsrCostFixed q b = Inr c \<Longrightarrow> c \<le> max_quantity q * LMSR_FIXED_SCALE + b * LN_2_FIXED"
  using lmsrCostFixed_bounds [OF lmsrCostFixed_valid] by fastforce

definition swap :: "MarketQuantities \<Rightarrow> MarketQuantities" where
  "swap q = \<lparr>qyes = qno q, qno = qyes q\<rparr>"

lemma swap_sel [simp]: "qyes (swap q) = qno q" "qno (swap q) = qyes q"
  by (simp_all add: swap_def)

lemma valid_state_swap [simp]: "valid_state (swap q) b = valid_state q b"
  by (auto simp: valid_state_def abs_minus_commute)

lemma lmsr_tail_swap [simp]: "lmsr_tail (swap q) b = lmsr_tail q b"
  by (simp add: lmsr_tail_def abs_minus_commute)

lemma validateState_swap [simp]: "validateState (swap q) b = validateState q b"
  by (auto simp: validateState_def absoluteDifference_abs abs_minus_commute)

lemma absoluteDifference_swap: "absoluteDifference (qno q) (qyes q) = absoluteDifference (qyes q) (qno q)"
  by (simp add: absoluteDifference_abs abs_minus_commute)

lemma lmsrCostFixed_swap: "lmsrCostFixed (swap q) b = lmsrCostFixed q b"
  by (auto simp: lmsrCostFixed_def absoluteDifference_swap Let_def intro: arg_cong2 [where f = rbind])

subsection \<open>The probability\<close>

lemma lmsrYesProbability_valid: "lmsrYesProbability q b = Inr p \<Longrightarrow> valid_state q b"
  by (auto simp: lmsrYesProbability_def validateState_iff)

lemma lmsrYesProbability_unfold:
  assumes "valid_state q b"
  shows "\<exists>l. 0 \<le> l \<and> 2 * l \<le> LMSR_PROBABILITY_SCALE \<and>
     (qyes q = qno q \<longrightarrow> 2 * l = LMSR_PROBABILITY_SCALE) \<and>
     lmsrYesProbability q b = Inr (if qyes q \<ge> qno q then LMSR_PROBABILITY_SCALE - l else l) \<and>
     lmsrYesProbability (swap q) b = Inr (if qno q \<ge> qyes q then LMSR_PROBABILITY_SCALE - l else l)"
proof -
  from lmsr_tail_range [OF assms] obtain t where
    t: "lmsr_tail q b = Inr t" "0 \<le> t" "t \<le> LMSR_FIXED_SCALE" by auto
  define l where "l = t * LMSR_PROBABILITY_SCALE div (LMSR_FIXED_SCALE + t)"
  have pos: "0 < LMSR_FIXED_SCALE + t" using t by (simp add: add_pos_nonneg)
  have "l * (LMSR_FIXED_SCALE + t) \<le> t * LMSR_PROBABILITY_SCALE"
    using pos by (simp add: l_def minus_mod_eq_div_mult [symmetric])
  then have "2 * l * (LMSR_FIXED_SCALE + t) \<le> LMSR_PROBABILITY_SCALE * (LMSR_FIXED_SCALE + t)"
    using t by (simp add: lmsr_consts)
  then have l: "0 \<le> l" "2 * l \<le> LMSR_PROBABILITY_SCALE"
    using t by (auto simp: l_def pos_imp_zdiv_nonneg_iff add_pos_nonneg)
  have eq: "2 * l = LMSR_PROBABILITY_SCALE" if "qyes q = qno q"
  proof -
    have "lmsr_tail q b = Inr LMSR_FIXED_SCALE"
      unfolding lmsr_tail_def using that by simp code_simp
    with t show ?thesis by (simp add: l_def lmsr_consts)
  qed
  show ?thesis
    using t l eq assms valid_state_pos [OF assms] pos
    by (intro exI [of _ l])
      (auto simp: lmsrYesProbability_def lmsr_tail_def absoluteDifference_abs abs_minus_commute
        l_def Let_def)
qed

subsection \<open>The quotes\<close>

lemma buildQuote_InrD:
  assumes "buildQuote dir q q' b sd sh raw f = Inr Q"
  shows "direction Q = dir" "side Q = sd" "shares Q = sh" "rawAmount Q = raw" "after Q = q'"
    and "0 \<le> raw" "0 < sh" "0 \<le> feeAmount Q" "0 < totalAmount Q"
    and "totalAmount Q = (if dir = Buy then raw + feeAmount Q else raw - feeAmount Q)"
    and "lmsrYesProbability q b = Inr (beforeYesProbability Q)"
    and "lmsrYesProbability q' b = Inr (afterYesProbability Q)"
  using assms
  by (auto simp: buildQuote_def Let_def dest!: mulDivFloor_InrD divCeil_InrD(5)
      split: if_splits)

text \<open>
  A successful buy rounds the cost difference up, a successful sell rounds it down, each by less
  than one token unit.
\<close>

lemma quoteLmsrBuy_InrD:
  assumes "quoteLmsrBuy q b sd sh f = Inr Q"
  obtains c c' where "lmsrCostFixed q b = Inr c"
    and "lmsrCostFixed (increase q sd sh) b = Inr c'"
    and "c' - c \<le> rawAmount Q * LMSR_FIXED_SCALE"
    and "rawAmount Q * LMSR_FIXED_SCALE < c' - c + LMSR_FIXED_SCALE"
    and "after Q = increase q sd sh" and "0 < rawAmount Q" and "valid_trade sh f"
    and "buildQuote Buy q (increase q sd sh) b sd sh (rawAmount Q) f = Inr Q"
proof -
  from assms obtain c c' raw where *: "lmsrCostFixed q b = Inr c"
    "lmsrCostFixed (increase q sd sh) b = Inr c'"
    "divCeil (c' - c) LMSR_FIXED_SCALE = Inr raw" "raw \<noteq> 0"
    "buildQuote Buy q (increase q sd sh) b sd sh raw f = Inr Q" "valid_trade sh f"
    by (auto simp: quoteLmsrBuy_def Let_def validateTrade_iff split: if_splits)
  from buildQuote_InrD(4,5) [OF *(5)] have r: "rawAmount Q = raw" "after Q = increase q sd sh" .
  show thesis
    using that [OF *(1,2)] divCeil_InrD(3,4,5) [OF *(3)] *(4-6) r by simp
qed

lemma quoteLmsrSell_InrD:
  assumes "quoteLmsrSell q b sd sh f = Inr Q"
  obtains c c' where "lmsrCostFixed q b = Inr c"
    and "decrease q sd sh = Inr (after Q)"
    and "lmsrCostFixed (after Q) b = Inr c'"
    and "rawAmount Q * LMSR_FIXED_SCALE \<le> c - c'"
    and "c - c' < rawAmount Q * LMSR_FIXED_SCALE + LMSR_FIXED_SCALE"
    and "0 < rawAmount Q" and "valid_trade sh f"
    and "buildQuote Sell q (after Q) b sd sh (rawAmount Q) f = Inr Q"
proof -
  from assms obtain c c' q' raw where *: "lmsrCostFixed q b = Inr c"
    "decrease q sd sh = Inr q'" "lmsrCostFixed q' b = Inr c'"
    "raw = (c - c') sdiv LMSR_FIXED_SCALE" "raw \<noteq> 0"
    "buildQuote Sell q q' b sd sh raw f = Inr Q" "valid_trade sh f"
    by (auto simp: quoteLmsrSell_def Let_def validateTrade_iff split: if_splits)
  from buildQuote_InrD(4,5,6) [OF *(6)]
  have r: "rawAmount Q = raw" "after Q = q'" "0 \<le> raw" .
  have nn: "0 \<le> c - c'"
  proof (rule ccontr)
    assume "\<not> 0 \<le> c - c'"
    then have "raw = - (\<bar>c - c'\<bar> div LMSR_FIXED_SCALE)"
      using *(4) by (simp add: signed_divide_int_def)
    moreover have "0 \<le> \<bar>c - c'\<bar> div LMSR_FIXED_SCALE"
      by (simp add: pos_imp_zdiv_nonneg_iff)
    ultimately show False using r(3) *(5) by simp
  qed
  define m where "m = (c - c') mod LMSR_FIXED_SCALE"
  have "c - c' = raw * LMSR_FIXED_SCALE + m" "0 \<le> m" "m < LMSR_FIXED_SCALE"
    using nn *(4) by (simp_all add: m_def)
  then show thesis
    using that [OF *(1), of c'] * r by simp
qed

lemma decrease_increase:
  "decrease (increase q sd sh) sd sh = Inr q'
     \<Longrightarrow> 0 \<le> qyes q \<Longrightarrow> 0 \<le> qno q \<Longrightarrow> q' = q"
  by (cases sd) (auto simp: decrease_def increase_def split: if_splits)

lemma increase_increase: "increase (increase q sd s1) sd s2 = increase q sd (s1 + s2)"
  by (simp add: increase_def)

lemma increase_swap:
  "increase (swap q) (if sd = Yes then No else Yes) sh = swap (increase q sd sh)"
  by (simp add: increase_def swap_def)

end
