(* ===== verification/LmsrSolvency.thy ===== *)
theory LmsrSolvency
  imports Lmsr
begin

text \<open>
  The vault accounting over sequences of LMSR quotes.  The locale \<open>cost_maker\<close> is the
  contract a ledger needs from a market maker: every fill moves the vault by at least the change
  of a cost function, and the cost function covers the liability.  Solvency over any sequence of
  fills is proved once from that contract, and the contract is discharged for the quotes of
  \<open>client/src/lmsr.ts\<close>.  The ledger itself is the one of the randomized test in
  \<open>client/src/lmsr.test.ts\<close>: a buy adds the raw amount to the vault, a sell takes it out, a
  quote that throws changes nothing.
\<close>

section \<open>The ledger\<close>

primrec ledger_run ::
    "('q \<Rightarrow> 't \<Rightarrow> ('q \<times> int) res) \<Rightarrow> 'q \<times> int \<Rightarrow> 't list \<Rightarrow> 'q \<times> int" where
  "ledger_run quote s [] = s"
| "ledger_run quote s (t # ts) =
     ledger_run quote
       (case quote (fst s) t of Inl _ \<Rightarrow> s | Inr (q', delta) \<Rightarrow> (q', snd s + delta)) ts"

datatype trade = Trade TradeDirection OutcomeSide int

definition quoteTrade :: "int \<Rightarrow> jsnum \<Rightarrow> MarketQuantities \<Rightarrow> trade \<Rightarrow> TradeQuote res" where
  "quoteTrade b f q t =
     (case t of Trade dir sd sh \<Rightarrow>
        if dir = Buy then quoteLmsrBuy q b sd sh f else quoteLmsrSell q b sd sh f)"

definition lmsrFill :: "int \<Rightarrow> jsnum \<Rightarrow> MarketQuantities \<Rightarrow> trade \<Rightarrow> (MarketQuantities \<times> int) res" where
  "lmsrFill b f q t =
     rbind (quoteTrade b f q t) (\<lambda>Q.
       Inr (after Q, if direction Q = Buy then rawAmount Q else - rawAmount Q))"

definition opposite :: "OutcomeSide \<Rightarrow> OutcomeSide" where
  "opposite sd = (if sd = Yes then No else Yes)"

definition mirrorQuote :: "TradeQuote \<Rightarrow> TradeQuote" where
  "mirrorQuote Q = Q\<lparr>side := opposite (side Q), after := swap (after Q),
     beforeYesProbability := LMSR_PROBABILITY_SCALE - beforeYesProbability Q,
     afterYesProbability := LMSR_PROBABILITY_SCALE - afterYesProbability Q\<rparr>"

section \<open>The contract of a market maker and its consequence for the vault\<close>

locale cost_maker =
  fixes cost :: "'q \<Rightarrow> int res"
    and liability :: "'q \<Rightarrow> int"
    and quote :: "'q \<Rightarrow> 't \<Rightarrow> ('q \<times> int) res"
    and scale :: int
  assumes scale_positive: "0 < scale"
    and cost_covers: "cost q = Inr c \<Longrightarrow> liability q * scale \<le> c"
    and quote_pays: "quote q t = Inr (q', delta) \<Longrightarrow>
      \<exists>c c'. cost q = Inr c \<and> cost q' = Inr c' \<and> c' - c \<le> delta * scale"
begin

lemma run_pays:
  assumes "cost (fst s) = Inr c"
  shows "\<exists>c'. cost (fst (ledger_run quote s ts)) = Inr c' \<and>
     c' - c \<le> (snd (ledger_run quote s ts) - snd s) * scale"
  using assms
proof (induction ts arbitrary: s c)
  case Nil
  then show ?case by simp
next
  case (Cons t ts)
  show ?case
  proof (cases "quote (fst s) t")
    case (Inl e)
    with Cons show ?thesis by simp
  next
    case (Inr p)
    obtain q' d where p: "p = (q', d)" by (cases p)
    with quote_pays Inr Cons.prems obtain c1 where
      c1: "cost q' = Inr c1" "c1 - c \<le> d * scale" by fastforce
    from Cons.IH [of "(q', snd s + d)"] c1(1) obtain c' where
      "cost (fst (ledger_run quote (q', snd s + d) ts)) = Inr c'"
      "c' - c1 \<le> (snd (ledger_run quote (q', snd s + d) ts) - (snd s + d)) * scale" by auto
    with c1(2) Inr p show ?thesis by (simp add: algebra_simps)
  qed
qed

lemma run_solvent:
  assumes "cost (fst s) = Inr c" and "c \<le> (snd s - reserve) * scale"
  shows "liability (fst (ledger_run quote s ts)) + reserve \<le> snd (ledger_run quote s ts)"
proof -
  let ?e = "ledger_run quote s ts"
  from run_pays [OF assms(1), of ts] obtain c' where
    c': "cost (fst ?e) = Inr c'" "c' - c \<le> (snd ?e - snd s) * scale" by auto
  have "liability (fst ?e) * scale \<le> c'" using c'(1) by (rule cost_covers)
  also have "\<dots> \<le> (snd ?e - reserve) * scale"
    using c'(2) assms(2) by (simp add: algebra_simps)
  finally have "liability (fst ?e) \<le> snd ?e - reserve"
    using scale_positive by simp
  then show ?thesis by simp
qed

end

section \<open>The LMSR quotes satisfy the contract\<close>

lemma lmsrFill_pays:
  assumes "lmsrFill b f q t = Inr (q', delta)"
  shows "\<exists>c c'. lmsrCostFixed q b = Inr c \<and> lmsrCostFixed q' b = Inr c' \<and>
    c' - c \<le> delta * LMSR_FIXED_SCALE"
proof -
  obtain dir sd sh where t: "t = Trade dir sd sh" by (cases t)
  from assms obtain Q where Q: "quoteTrade b f q t = Inr Q" "q' = after Q"
    "delta = (if direction Q = Buy then rawAmount Q else - rawAmount Q)"
    by (auto simp: lmsrFill_def)
  show ?thesis
  proof (cases dir)
    case Buy
    with Q t have "quoteLmsrBuy q b sd sh f = Inr Q" by (simp add: quoteTrade_def)
    then show ?thesis
      by (rule quoteLmsrBuy_InrD) (use Q(2,3) buildQuote_InrD(1) in fastforce)
  next
    case Sell
    with Q t have "quoteLmsrSell q b sd sh f = Inr Q" by (simp add: quoteTrade_def)
    then show ?thesis
      by (rule quoteLmsrSell_InrD) (use Q(2,3) buildQuote_InrD(1) in fastforce)
  qed
qed

interpretation lmsr: cost_maker "\<lambda>q. lmsrCostFixed q b" max_quantity "lmsrFill b f" LMSR_FIXED_SCALE
  for b f
  by unfold_locales (simp, erule lmsrCostFixed_ge, erule lmsrFill_pays)

lemma lmsrCostFixed_empty:
  assumes "MIN_LIQUIDITY_PARAMETER \<le> b" "b \<le> MAX_LIQUIDITY_PARAMETER"
  shows "lmsrCostFixed \<lparr>qyes = 0, qno = 0\<rparr> b = Inr (b * 693147180550)"
proof -
  have v: "valid_state \<lparr>qyes = 0, qno = 0\<rparr> b"
    using assms by (simp add: valid_state_def lmsr_consts)
  have "lmsr_tail \<lparr>qyes = 0, qno = 0\<rparr> b = Inr LMSR_FIXED_SCALE"
    unfolding lmsr_tail_def by simp code_simp
  with v show ?thesis
    by (simp add: lmsrCostFixed_unfold lnOnePlusFixed_one max_quantity_def)
qed

lemma requiredLmsrSubsidy_covers:
  assumes "requiredLmsrSubsidy b r = Inr v"
  shows "\<exists>c. lmsrCostFixed \<lparr>qyes = 0, qno = 0\<rparr> b = Inr c \<and> c \<le> (v - r) * LMSR_FIXED_SCALE"
proof -
  from assms obtain x where b: "MIN_LIQUIDITY_PARAMETER \<le> b" "b \<le> MAX_LIQUIDITY_PARAMETER"
    and x: "divCeil (b * LN_2_FIXED) LMSR_FIXED_SCALE = Inr x" "v = x + r"
    by (auto simp: requiredLmsrSubsidy_def mulDivCeil_def split: if_splits)
  have "0 \<le> b" using b by (simp add: lmsr_consts)
  then have "b * 693147180550 \<le> b * LN_2_FIXED" by (simp add: LN_2_FIXED_def mult_left_mono)
  also have "\<dots> \<le> x * LMSR_FIXED_SCALE" using divCeil_InrD(3) [OF x(1)] .
  finally show ?thesis using lmsrCostFixed_empty [OF b] x(2) by simp
qed

section \<open>Mirror symmetry\<close>

lemma lmsrYesProbability_swap:
  "lmsrYesProbability (swap q) b =
     map_sum id (\<lambda>p. LMSR_PROBABILITY_SCALE - p) (lmsrYesProbability q b)"
proof (cases "valid_state q b")
  case True
  from lmsrYesProbability_unfold [OF this] show ?thesis by auto
next
  case False
  then obtain e where "validateState q b = Inl e"
    by (metis validateState_iff sum.exhaust old.unit.exhaust)
  then show ?thesis by (simp add: lmsrYesProbability_def)
qed

lemma buildQuote_swap:
  "buildQuote dir (swap q) (swap q') b (opposite sd) sh raw f =
     map_sum id mirrorQuote (buildQuote dir q q' b sd sh raw f)"
  by (cases "lmsrYesProbability q b"; cases "lmsrYesProbability q' b")
    (auto simp: buildQuote_def lmsrYesProbability_swap mirrorQuote_def Let_def rbind_def
      split: sum.splits)

section \<open>The curvature of the fee\<close>

lemma curvature_le:
  assumes "0 \<le> p" "p \<le> s" "0 < (s::int)"
  shows "4 * (p * (s - p) div s) \<le> s"
proof -
  have "0 \<le> (s - 2 * p) * (s - 2 * p)" by simp
  then have "4 * (p * (s - p)) \<le> s * s" by (simp add: algebra_simps)
  moreover have "(p * (s - p) div s) * s \<le> p * (s - p)"
    using assms by (simp add: minus_mod_eq_div_mult [symmetric])
  ultimately have "4 * (p * (s - p) div s) * s \<le> s * s" by simp
  then show ?thesis using assms by simp
qed

lemma buildQuote_fee:
  assumes "buildQuote dir q q' b sd sh raw f = Inr Q" and "0 \<le> num_int f"
  shows "40000 * feeAmount Q < sh * num_int f + 40000"
proof -
  define S where "S = LMSR_FIXED_SCALE"
  define p where "p = min (raw * S div sh) S"
  have p: "0 \<le> p" "p \<le> S" and sh: "0 < sh"
    and fee: "divCeil (sh * num_int f * (p * (S - p) div S)) (10000 * S) = Inr (feeAmount Q)"
    using assms(1)
    by (auto simp: buildQuote_def Let_def S_def p_def min_def dest!: mulDivFloor_InrD
        split: if_splits)
  define c where "c = p * (S - p) div S"
  have S: "0 < S" by (simp add: S_def)
  have "4 * c \<le> S" unfolding c_def by (rule curvature_le [OF p S])
  then have "sh * num_int f * (4 * c) \<le> sh * num_int f * S"
    using sh assms(2) by (intro mult_left_mono) auto
  moreover have "feeAmount Q * (10000 * S) < sh * num_int f * c + 10000 * S"
    using divCeil_InrD(4) [OF fee] by (simp add: c_def)
  ultimately have "(40000 * feeAmount Q) * S < (sh * num_int f + 40000) * S"
    by (simp add: algebra_simps)
  then show ?thesis using S by simp
qed

section \<open>Properties\<close>

text \<open>
  Claim C1. Starting from an empty market funded with exactly the required subsidy, after any
  sequence of buys and sells (quotes that throw leave the ledger alone) the vault holds at least
  the shares of either outcome, with the rounding reserve still on top: whichever side wins, every
  winning share can be paid one token.
\<close>

theorem lmsr_vault_solvent:
  assumes "requiredLmsrSubsidy b r = Inr v0"
    and "ledger_run (lmsrFill b f) (\<lparr>qyes = 0, qno = 0\<rparr>, v0) ts = (q, v)"
  shows "qyes q + r \<le> v \<and> qno q + r \<le> v"
proof -
  from requiredLmsrSubsidy_covers [OF assms(1)] obtain c where
    "lmsrCostFixed \<lparr>qyes = 0, qno = 0\<rparr> b = Inr c" "c \<le> (v0 - r) * LMSR_FIXED_SCALE" by auto
  then have "max_quantity q + r \<le> v"
    using lmsr.run_solvent [of "(\<lparr>qyes = 0, qno = 0\<rparr>, v0)" b c r f ts] assms(2) by simp
  then show ?thesis unfolding max_quantity_def by linarith
qed

theorem lmsr_vault_solvent_witness:
  "requiredLmsrSubsidy 100000000 2 = Inr 69314721 \<and>
   ledger_run (lmsrFill 100000000 (JInt 100)) (\<lparr>qyes = 0, qno = 0\<rparr>, 69314721)
     [Trade Buy Yes 10000000, Trade Buy No 30000000, Trade Sell Yes 20000000, Trade Sell Yes 4000000]
     = (\<lparr>qyes = 6000000, qno = 30000000\<rparr>, 88033000) \<and>
   (6000000::int) + 2 \<le> 88033000 \<and> (30000000::int) + 2 \<le> 88033000"
proof -
  have a: "requiredLmsrSubsidy 100000000 2 = Inr 69314721" by code_simp
  have e: "ledger_run (lmsrFill 100000000 (JInt 100)) (\<lparr>qyes = 0, qno = 0\<rparr>, 69314721)
     [Trade Buy Yes 10000000, Trade Buy No 30000000, Trade Sell Yes 20000000, Trade Sell Yes 4000000]
     = (\<lparr>qyes = 6000000, qno = 30000000\<rparr>, 88033000)" by code_simp
  show ?thesis using lmsr_vault_solvent [OF a e] a e by simp
qed

text \<open>
  Claim C2. The cost function is total on its domain: it throws one of its three validation errors
  exactly outside the valid states (never a division or logarithm guard), and on a valid state the
  cost lies between the larger outcome quantity and that quantity plus \<open>b * ln 2\<close>, in fixed
  point.
\<close>

theorem lmsr_cost_domain:
  "case lmsrCostFixed q b of
     Inr c \<Rightarrow> valid_state q b \<and> max_quantity q * LMSR_FIXED_SCALE \<le> c
       \<and> c \<le> max_quantity q * LMSR_FIXED_SCALE + b * LN_2_FIXED
   | Inl e \<Rightarrow> \<not> valid_state q b \<and>
       e \<in> {Error ''liquidity parameter is outside protocol bounds'',
            Error ''outcome quantity is outside protocol bounds'',
            Error ''market imbalance exceeds protocol bounds''}"
proof (cases "valid_state q b")
  case True
  from lmsrCostFixed_bounds [OF this] True show ?thesis by auto
next
  case False
  then obtain e where e: "validateState q b = Inl e"
    by (metis validateState_iff sum.exhaust old.unit.exhaust)
  then have "e \<in> {Error ''liquidity parameter is outside protocol bounds'',
            Error ''outcome quantity is outside protocol bounds'',
            Error ''market imbalance exceeds protocol bounds''}"
    by (auto simp: validateState_def validateLiquidity_def rbind_eq_Inl split: if_splits)
  with e False show ?thesis by (simp add: lmsrCostFixed_def)
qed

text \<open>
  Claim C3. A round trip cannot profit: selling back the shares just bought restores the
  quantities, and pays at most what the buy cost, before and after fees, whatever the two fees are.
\<close>

theorem lmsr_round_trip:
  assumes "quoteLmsrBuy q b sd sh f = Inr B"
    and "quoteLmsrSell (after B) b sd sh f' = Inr T"
  shows "after T = q \<and> rawAmount T \<le> rawAmount B \<and> totalAmount T \<le> totalAmount B"
proof (rule quoteLmsrBuy_InrD [OF assms(1)], rule quoteLmsrSell_InrD [OF assms(2)])
  fix c c' d d'
  assume c: "lmsrCostFixed q b = Inr c" "lmsrCostFixed (increase q sd sh) b = Inr c'"
    "c' - c \<le> rawAmount B * LMSR_FIXED_SCALE" "after B = increase q sd sh"
    and d: "lmsrCostFixed (after B) b = Inr d" "decrease (after B) sd sh = Inr (after T)"
    "lmsrCostFixed (after T) b = Inr d'" "rawAmount T * LMSR_FIXED_SCALE \<le> d - d'"
    and bq: "buildQuote Buy q (increase q sd sh) b sd sh (rawAmount B) f = Inr B"
    "buildQuote Sell (after B) (after T) b sd sh (rawAmount T) f' = Inr T"
  have "after T = q"
    using d(2) c(4) lmsrCostFixed_valid [OF c(1)]
    by (auto simp: valid_state_def dest: decrease_increase)
  moreover have "rawAmount T * LMSR_FIXED_SCALE \<le> rawAmount B * LMSR_FIXED_SCALE"
  proof -
    from \<open>after T = q\<close> c d have "c' = d" "c = d'" by simp_all
    with c(3) d(4) show ?thesis by linarith
  qed
  then have "rawAmount T \<le> rawAmount B" by (rule mult_right_le_imp_le) simp
  moreover have "totalAmount T \<le> rawAmount T" "rawAmount B \<le> totalAmount B"
    using buildQuote_InrD(8,10) [OF bq(1)] buildQuote_InrD(8,10) [OF bq(2)] by simp_all
  ultimately show ?thesis by simp
qed

theorem lmsr_round_trip_witness:
  "\<exists>B T. quoteLmsrBuy \<lparr>qyes = 0, qno = 0\<rparr> 100000000 Yes 10000000 (JInt 100) = Inr B
     \<and> quoteLmsrSell (after B) 100000000 Yes 10000000 (JInt 100) = Inr T
     \<and> after T = \<lparr>qyes = 0, qno = 0\<rparr> \<and> totalAmount T \<le> totalAmount B"
proof -
  have "returns (rbind (quoteLmsrBuy \<lparr>qyes = 0, qno = 0\<rparr> 100000000 Yes 10000000 (JInt 100))
     (\<lambda>B. quoteLmsrSell (after B) 100000000 Yes 10000000 (JInt 100)))" by code_simp
  then obtain B T where BT: "quoteLmsrBuy \<lparr>qyes = 0, qno = 0\<rparr> 100000000 Yes 10000000 (JInt 100) = Inr B"
    "quoteLmsrSell (after B) 100000000 Yes 10000000 (JInt 100) = Inr T"
    by (auto simp: returns_iff)
  with lmsr_round_trip [OF BT] show ?thesis by blast
qed

text \<open>
  YES and NO are exact mirror images: buying the opposite side in the swapped market
  gives the same quote with both probabilities complemented, and throws the same error when it
  throws.
\<close>

theorem lmsr_buy_mirror:
  "quoteLmsrBuy (swap q) b (opposite sd) sh f = map_sum id mirrorQuote (quoteLmsrBuy q b sd sh f)"
  by (auto simp: quoteLmsrBuy_def increase_swap [folded opposite_def] lmsrCostFixed_swap
      buildQuote_swap Let_def rbind_def split: sum.splits)

text \<open>
  Splitting a purchase never makes it cheaper: two consecutive buys on one side reach the
  quantities of the combined buy and cost at least its raw amount, and at most one token unit more.
\<close>

theorem lmsr_buy_split:
  assumes "quoteLmsrBuy q b sd s1 f = Inr A"
    and "quoteLmsrBuy (after A) b sd s2 f = Inr B"
    and "quoteLmsrBuy q b sd (s1 + s2) f = Inr C"
  shows "after B = after C \<and> rawAmount C \<le> rawAmount A + rawAmount B
    \<and> rawAmount A + rawAmount B \<le> rawAmount C + 1"
proof (rule quoteLmsrBuy_InrD [OF assms(1)], rule quoteLmsrBuy_InrD [OF assms(2)],
    rule quoteLmsrBuy_InrD [OF assms(3)])
  fix c0 c1 c1' c2 c0' c2'
  assume *: "lmsrCostFixed q b = Inr c0" "lmsrCostFixed (increase q sd s1) b = Inr c1"
    "c1 - c0 \<le> rawAmount A * LMSR_FIXED_SCALE"
    "rawAmount A * LMSR_FIXED_SCALE < c1 - c0 + LMSR_FIXED_SCALE"
    "after A = increase q sd s1" "lmsrCostFixed (after A) b = Inr c1'"
    "lmsrCostFixed (increase (after A) sd s2) b = Inr c2"
    "c2 - c1' \<le> rawAmount B * LMSR_FIXED_SCALE"
    "rawAmount B * LMSR_FIXED_SCALE < c2 - c1' + LMSR_FIXED_SCALE"
    "after B = increase (after A) sd s2" "lmsrCostFixed q b = Inr c0'"
    "lmsrCostFixed (increase q sd (s1 + s2)) b = Inr c2'"
    "c2' - c0' \<le> rawAmount C * LMSR_FIXED_SCALE"
    "rawAmount C * LMSR_FIXED_SCALE < c2' - c0' + LMSR_FIXED_SCALE"
    "after C = increase q sd (s1 + s2)"
  then have eq: "c1' = c1" "c0' = c0" "c2' = c2" "after B = after C"
    by (simp_all add: increase_increase)
  define A' B' C' where "A' = rawAmount A" "B' = rawAmount B" "C' = rawAmount C"
  have "C' * LMSR_FIXED_SCALE < (A' + B' + 1) * LMSR_FIXED_SCALE"
    "(A' + B') * LMSR_FIXED_SCALE < (C' + 2) * LMSR_FIXED_SCALE"
    using * eq by (simp_all add: A'_B'_C'_def algebra_simps)
  then have "C' < A' + B' + 1" "A' + B' < C' + 2"
    by (simp_all only: mult_less_cancel_right_pos scale_pos)
  then show ?thesis using eq by (simp add: A'_B'_C'_def)
qed

theorem lmsr_buy_split_witness:
  "\<exists>A B C. quoteLmsrBuy \<lparr>qyes = 0, qno = 0\<rparr> 100000000 Yes 3333333 (JInt 100) = Inr A
     \<and> quoteLmsrBuy (after A) 100000000 Yes 1234567 (JInt 100) = Inr B
     \<and> quoteLmsrBuy \<lparr>qyes = 0, qno = 0\<rparr> 100000000 Yes (3333333 + 1234567) (JInt 100) = Inr C
     \<and> rawAmount C \<le> rawAmount A + rawAmount B"
proof -
  have "returns (rbind (quoteLmsrBuy \<lparr>qyes = 0, qno = 0\<rparr> 100000000 Yes 3333333 (JInt 100))
     (\<lambda>A. rbind (quoteLmsrBuy (after A) 100000000 Yes 1234567 (JInt 100))
     (\<lambda>B. quoteLmsrBuy \<lparr>qyes = 0, qno = 0\<rparr> 100000000 Yes (3333333 + 1234567) (JInt 100))))"
    by code_simp
  then obtain A B C where
    "quoteLmsrBuy \<lparr>qyes = 0, qno = 0\<rparr> 100000000 Yes 3333333 (JInt 100) = Inr A"
    "quoteLmsrBuy (after A) 100000000 Yes 1234567 (JInt 100) = Inr B"
    "quoteLmsrBuy \<lparr>qyes = 0, qno = 0\<rparr> 100000000 Yes (3333333 + 1234567) (JInt 100) = Inr C"
    by (auto simp: returns_iff)
  with lmsr_buy_split [OF this] show ?thesis by blast
qed

text \<open>
  The YES probability is a probability: it lies between zero and one million parts, it is
  at least one half exactly when YES is not the minority side up to the rounding at one half, and
  swapping the outcomes complements it exactly.
\<close>

theorem lmsr_probability_range:
  assumes "lmsrYesProbability q b = Inr p"
  shows "0 \<le> p \<and> p \<le> LMSR_PROBABILITY_SCALE
    \<and> (qno q \<le> qyes q \<longrightarrow> LMSR_PROBABILITY_SCALE \<le> 2 * p)
    \<and> (qyes q \<le> qno q \<longrightarrow> 2 * p \<le> LMSR_PROBABILITY_SCALE)
    \<and> lmsrYesProbability (swap q) b = Inr (LMSR_PROBABILITY_SCALE - p)"
  using lmsrYesProbability_unfold [OF lmsrYesProbability_valid [OF assms]] assms
  by (auto simp: lmsrYesProbability_swap split: if_splits)

theorem lmsr_probability_range_witness:
  "lmsrYesProbability \<lparr>qyes = 75000000, qno = 50000000\<rparr> 100000000 = Inr 562177
     \<and> LMSR_PROBABILITY_SCALE \<le> 2 * 562177"
proof -
  have p: "lmsrYesProbability \<lparr>qyes = 75000000, qno = 50000000\<rparr> 100000000 = Inr 562177"
    by code_simp
  show ?thesis using lmsr_probability_range [OF p] p by simp
qed

text \<open>
  The fill fee is probability-sensitive and bounded: on any successful quote it is below
  a quarter of the configured basis points of the share amount, rounded up, and a buy charges it on
  top while a sell takes it out of the proceeds, which stay positive.
\<close>

theorem lmsr_fee_bound:
  assumes "quoteTrade b (JInt f) q (Trade dir sd sh) = Inr Q"
  shows "0 \<le> feeAmount Q \<and> 40000 * feeAmount Q < sh * f + 40000 \<and> 0 < totalAmount Q
    \<and> totalAmount Q = (if dir = Buy then rawAmount Q + feeAmount Q else rawAmount Q - feeAmount Q)"
proof -
  obtain q' where q': "buildQuote dir q q' b sd sh (rawAmount Q) (JInt f) = Inr Q"
    and v: "valid_trade sh (JInt f)"
  proof (cases dir)
    case Buy
    with assms have "quoteLmsrBuy q b sd sh (JInt f) = Inr Q" by (simp add: quoteTrade_def)
    then show ?thesis by (rule quoteLmsrBuy_InrD) (use that Buy in blast)
  next
    case Sell
    with assms have "quoteLmsrSell q b sd sh (JInt f) = Inr Q" by (simp add: quoteTrade_def)
    then show ?thesis by (rule quoteLmsrSell_InrD) (use that Sell in blast)
  qed
  have "0 \<le> num_int (JInt f)" using v by (simp add: valid_trade_def)
  from buildQuote_fee [OF q' this] buildQuote_InrD(8,9,10) [OF q'] show ?thesis by simp
qed

theorem lmsr_fee_bound_witness:
  "\<exists>Q. quoteTrade 100000000 (JInt 100) \<lparr>qyes = 75000000, qno = 20000000\<rparr> (Trade Buy No 30000000) = Inr Q
     \<and> feeAmount Q = 72089 \<and> 40000 * feeAmount Q < 30000000 * 100 + 40000"
proof -
  have r: "map_sum id feeAmount (quoteTrade 100000000 (JInt 100)
    \<lparr>qyes = 75000000, qno = 20000000\<rparr> (Trade Buy No 30000000)) = Inr 72089" by code_simp
  then obtain Q where Q: "quoteTrade 100000000 (JInt 100) \<lparr>qyes = 75000000, qno = 20000000\<rparr>
     (Trade Buy No 30000000) = Inr Q" "feeAmount Q = 72089"
    by (cases "quoteTrade 100000000 (JInt 100) \<lparr>qyes = 75000000, qno = 20000000\<rparr>
     (Trade Buy No 30000000)") auto
  with lmsr_fee_bound [OF Q(1)] show ?thesis by blast
qed

end
