(* ===== verification/JsText.thy ===== *)
theory JsText
  imports Prelude
begin

text \<open>
  The string operations of JavaScript that the modelled code uses: decimal and hexadecimal
  printing, \<open>BigInt(string)\<close>, padding, trimming, splitting, joining, searching, and the UTF-8
  and hexadecimal encodings of buffers.  A string is a list of characters, one per UTF-16 code
  unit; the character type ends at code 255, so text outside Latin-1 is not represented.

  The lemmas are the print and parse round trips, what \<open>BigInt\<close> accepts, and the laws of
  splitting and joining that the wire formats rely on.
\<close>

section \<open>Characters\<close>

definition char_code :: "char \<Rightarrow> int" where
  "char_code c = int (of_char c :: nat)"

definition code_char :: "int \<Rightarrow> char" where
  "code_char i = char_of (nat i)"

text \<open>White space as \<open>trim\<close> and the number parsers understand it.\<close>

definition is_space :: "char \<Rightarrow> bool" where
  "is_space c \<longleftrightarrow> char_code c \<in> {9, 10, 11, 12, 13, 32, 160}"

text \<open>The value of a digit in any radix up to sixteen, \<open>99\<close> for other characters.\<close>

definition digit_val :: "char \<Rightarrow> int" where
  "digit_val c =
     (let i = char_code c in
      if 48 \<le> i \<and> i \<le> 57 then i - 48
      else if 97 \<le> i \<and> i \<le> 102 then i - 87
      else if 65 \<le> i \<and> i \<le> 70 then i - 55 else 99)"

definition digit_char :: "int \<Rightarrow> char" where
  "digit_char d = code_char (if d < 10 then 48 + d else 87 + d)"

definition is_digit :: "char \<Rightarrow> bool" where
  "is_digit c \<longleftrightarrow> 48 \<le> char_code c \<and> char_code c \<le> 57"

definition is_radix_digit :: "int \<Rightarrow> char \<Rightarrow> bool" where
  "is_radix_digit b c \<longleftrightarrow> digit_val c < b"

text \<open>The regular expression class \<open>[0-9a-f]\<close>.\<close>

definition is_lower_hex :: "char \<Rightarrow> bool" where
  "is_lower_hex c \<longleftrightarrow> (let i = char_code c in (48 \<le> i \<and> i \<le> 57) \<or> (97 \<le> i \<and> i \<le> 102))"

definition lower_char :: "char \<Rightarrow> char" where
  "lower_char c =
     (let i = char_code c in
      if (65 \<le> i \<and> i \<le> 90) \<or> (192 \<le> i \<and> i \<le> 222 \<and> i \<noteq> 215) then code_char (i + 32) else c)"

definition toLowerCase :: "string \<Rightarrow> string" where
  "toLowerCase s = map lower_char s"

section \<open>Printing and parsing integers\<close>

function radix_str :: "int \<Rightarrow> int \<Rightarrow> string" where
  "radix_str b n =
     (if b < 2 \<or> n < b then [digit_char n] else radix_str b (n div b) @ [digit_char (n mod b)])"
  by pat_completeness auto
termination
  by (relation "measure (\<lambda>(_, n). nat n)") (auto simp: int_div_less_self)

declare radix_str.simps [simp del]

definition toString_radix :: "int \<Rightarrow> int \<Rightarrow> string" where
  "toString_radix b n = (if n < 0 then CHR ''-'' # radix_str b (- n) else radix_str b n)"

abbreviation int_str :: "int \<Rightarrow> string" where
  "int_str n \<equiv> toString_radix 10 n"

definition radix_val :: "int \<Rightarrow> string \<Rightarrow> int" where
  "radix_val b s = foldl (\<lambda>a c. a * b + digit_val c) 0 s"

definition all_digits :: "int \<Rightarrow> string \<Rightarrow> bool" where
  "all_digits b s \<longleftrightarrow> s \<noteq> [] \<and> list_all (is_radix_digit b) s"

definition trimStart :: "string \<Rightarrow> string" where
  "trimStart s = dropWhile is_space s"

definition trim :: "string \<Rightarrow> string" where
  "trim s = rev (dropWhile is_space (rev (dropWhile is_space s)))"

definition digits_or_syntax :: "int \<Rightarrow> string \<Rightarrow> int res" where
  "digits_or_syntax b s = (if all_digits b s then Inr (radix_val b s) else Inl Syntax_Error)"

text \<open>\<open>BigInt(s)\<close>.\<close>

definition js_BigInt :: "string \<Rightarrow> int res" where
  "js_BigInt s =
     (let t = trim s in
      case t of
        [] \<Rightarrow> Inr 0
      | c # r \<Rightarrow>
          if c = CHR ''-'' then rbind (digits_or_syntax 10 r) (\<lambda>n. Inr (- n))
          else if c = CHR ''+'' then digits_or_syntax 10 r
          else if c = CHR ''0'' \<and> r \<noteq> [] \<and> hd r \<in> {CHR ''x'', CHR ''X''} then digits_or_syntax 16 (tl r)
          else if c = CHR ''0'' \<and> r \<noteq> [] \<and> hd r \<in> {CHR ''o'', CHR ''O''} then digits_or_syntax 8 (tl r)
          else if c = CHR ''0'' \<and> r \<noteq> [] \<and> hd r \<in> {CHR ''b'', CHR ''B''} then digits_or_syntax 2 (tl r)
          else digits_or_syntax 10 t)"

section \<open>Padding, searching, splitting\<close>

definition padStart :: "nat \<Rightarrow> char \<Rightarrow> string \<Rightarrow> string" where
  "padStart n c s = replicate (n - length s) c @ s"

definition padEnd :: "nat \<Rightarrow> char \<Rightarrow> string \<Rightarrow> string" where
  "padEnd n c s = s @ replicate (n - length s) c"

definition startsWith :: "string \<Rightarrow> string \<Rightarrow> bool" where
  "startsWith s p \<longleftrightarrow> take (length p) s = p"

definition endsWith :: "string \<Rightarrow> string \<Rightarrow> bool" where
  "endsWith s p \<longleftrightarrow> startsWith (rev s) (rev p)"

fun js_includes :: "string \<Rightarrow> string \<Rightarrow> bool" where
  "js_includes [] p = (p = [])"
| "js_includes (c # s) p = (startsWith (c # s) p \<or> js_includes s p)"

text \<open>\<open>s.replace(/^0x/, '')\<close>.\<close>

definition strip_0x :: "string \<Rightarrow> string" where
  "strip_0x s = (if startsWith s ''0x'' then drop 2 s else s)"

text \<open>
  \<open>s.split(d)\<close> for a one-character and for a two-character separator, and \<open>xs.join(d)\<close>.
\<close>

fun split_char :: "char \<Rightarrow> string \<Rightarrow> string list" where
  "split_char d [] = [[]]"
| "split_char d (c # s) =
     (if c = d then [] # split_char d s
      else case split_char d s of [] \<Rightarrow> [[c]] | x # xs \<Rightarrow> (c # x) # xs)"

fun split_pair :: "char \<Rightarrow> char \<Rightarrow> string \<Rightarrow> string list" where
  "split_pair d e [] = [[]]"
| "split_pair d e [c] = [[c]]"
| "split_pair d e (c # c' # s) =
     (if c = d \<and> c' = e then [] # split_pair d e s
      else case split_pair d e (c' # s) of [] \<Rightarrow> [[c]] | x # xs \<Rightarrow> (c # x) # xs)"

fun js_join :: "string \<Rightarrow> string list \<Rightarrow> string" where
  "js_join d [] = []"
| "js_join d [x] = x"
| "js_join d (x # y # xs) = x @ d @ js_join d (y # xs)"

text \<open>\<open>s.replaceAll('\r\n', '\n')\<close>.\<close>

abbreviation (input) CR :: char where "CR \<equiv> CHR 0x0D"
abbreviation (input) LF :: char where "LF \<equiv> CHR 0x0A"

fun crlf_to_lf :: "string \<Rightarrow> string" where
  "crlf_to_lf [] = []"
| "crlf_to_lf [c] = [c]"
| "crlf_to_lf (c # c' # s) =
     (if c = CR \<and> c' = LF then LF # crlf_to_lf s else c # crlf_to_lf (c' # s))"

section \<open>Encodings\<close>

text \<open>The UTF-8 encoding of text below code 256.\<close>

definition utf8_char :: "char \<Rightarrow> byte list" where
  "utf8_char c =
     (let i = char_code c in
      if i < 128 then [word_of_int i] else [word_of_int (192 + i div 64), word_of_int (128 + i mod 64)])"

definition utf8 :: "string \<Rightarrow> byte list" where
  "utf8 s = concat (map utf8_char s)"

definition hex_byte :: "byte \<Rightarrow> string" where
  "hex_byte b = [digit_char (uint b div 16), digit_char (uint b mod 16)]"

definition bytes_hex :: "byte list \<Rightarrow> string" where
  "bytes_hex bs = concat (map hex_byte bs)"

text \<open>\<open>Buffer.from(s, 'hex')\<close>: decoding stops at the first pair that is not hexadecimal.\<close>

fun hex_bytes :: "string \<Rightarrow> byte list" where
  "hex_bytes (c # d # s) =
     (if is_radix_digit 16 c \<and> is_radix_digit 16 d
      then word_of_int (16 * digit_val c + digit_val d) # hex_bytes s else [])"
| "hex_bytes _ = []"

text \<open>The regular expression \<open>/^[0-9a-f]{n}$/\<close>.\<close>

definition is_hex_string :: "nat \<Rightarrow> string \<Rightarrow> bool" where
  "is_hex_string n s \<longleftrightarrow> length s = n \<and> list_all is_lower_hex s"

section \<open>Lemmas\<close>

subsection \<open>Characters\<close>

lemma char_code_range: "0 \<le> char_code c" "char_code c < 256"
  using nat_of_char_less_256 [of c] by (simp_all add: char_code_def)

lemma char_code_code_char [simp]: "0 \<le> i \<Longrightarrow> i < 256 \<Longrightarrow> char_code (code_char i) = i"
  by (simp add: char_code_def code_char_def)

lemma code_char_char_code [simp]: "code_char (char_code c) = c"
  by (simp add: char_code_def code_char_def)

lemma char_code_inject [simp]: "char_code c = char_code d \<longleftrightarrow> c = d"
  by (metis code_char_char_code)

lemma digit_val_digit_char [simp]: "0 \<le> d \<Longrightarrow> d < 16 \<Longrightarrow> digit_val (digit_char d) = d"
  by (auto simp: digit_char_def digit_val_def Let_def)

lemma digit_val_nonneg: "0 \<le> digit_val c"
  by (auto simp: digit_val_def Let_def)

lemma is_digit_iff: "is_digit c \<longleftrightarrow> is_radix_digit 10 c"
  by (auto simp: is_digit_def is_radix_digit_def digit_val_def Let_def)

lemma is_radix_digit_digit_char [simp]:
  "0 \<le> d \<Longrightarrow> d < b \<Longrightarrow> b \<le> 16 \<Longrightarrow> is_radix_digit b (digit_char d)"
  by (simp add: is_radix_digit_def)

lemma lower_hex_digit: "is_lower_hex c \<Longrightarrow> is_radix_digit 16 c"
  by (auto simp: is_lower_hex_def is_radix_digit_def digit_val_def Let_def)

lemma is_lower_hex_digit_char [simp]: "0 \<le> d \<Longrightarrow> d < 16 \<Longrightarrow> is_lower_hex (digit_char d)"
  by (auto simp: digit_char_def is_lower_hex_def Let_def)

lemma digit_char_digit_val: "is_lower_hex c \<Longrightarrow> digit_char (digit_val c) = c"
  by (auto simp: is_lower_hex_def digit_char_def digit_val_def Let_def)

lemma radix_digit_not_space: "is_radix_digit b c \<Longrightarrow> b \<le> 16 \<Longrightarrow> \<not> is_space c"
  by (auto simp: is_radix_digit_def is_space_def digit_val_def Let_def split: if_splits)

subsection \<open>Printed integers\<close>

lemma radix_str_small: "n < b \<Longrightarrow> radix_str b n = [digit_char n]"
  by (simp add: radix_str.simps)

lemma radix_str_large:
  "2 \<le> b \<Longrightarrow> b \<le> n \<Longrightarrow> radix_str b n = radix_str b (n div b) @ [digit_char (n mod b)]"
  by (subst radix_str.simps) simp

lemma radix_induct [consumes 2, case_names small large]:
  assumes "2 \<le> b" "0 \<le> (n::int)"
    and "\<And>n. 0 \<le> n \<Longrightarrow> n < b \<Longrightarrow> P n"
    and "\<And>n. b \<le> n \<Longrightarrow> P (n div b) \<Longrightarrow> P n"
  shows "P n"
  using assms(2)
proof (induction "nat n" arbitrary: n rule: less_induct)
  case less
  show ?case
  proof (cases "n < b")
    case False
    with assms(1) less.prems have "nat (n div b) < nat n" "0 \<le> n div b"
      by (auto simp: int_div_less_self pos_imp_zdiv_nonneg_iff)
    with less.hyps False assms(4) show ?thesis by simp
  qed (use less.prems assms(3) in simp)
qed

lemma radix_val_append:
  "radix_val b (s @ t) = radix_val b s * b ^ length t + radix_val b t"
proof (induction t rule: rev_induct)
  case Nil
  then show ?case by (simp add: radix_val_def)
next
  case (snoc c t)
  then show ?case by (simp add: radix_val_def algebra_simps)
qed

lemma radix_val_Nil [simp]: "radix_val b [] = 0"
  by (simp add: radix_val_def)

lemma radix_val_single [simp]: "radix_val b [c] = digit_val c"
  by (simp add: radix_val_def)

lemma radix_val_nonneg: "0 \<le> b \<Longrightarrow> 0 \<le> radix_val b s"
  by (induction s rule: rev_induct) (simp_all add: radix_val_append digit_val_nonneg)

lemma radix_val_bound:
  assumes "list_all (is_radix_digit b) s" "0 \<le> b"
  shows "radix_val b s < b ^ length s"
  using assms
proof (induction s rule: rev_induct)
  case (snoc c s)
  then have "radix_val b s + 1 \<le> b ^ length s" "digit_val c < b"
    by (auto simp: is_radix_digit_def)
  then have "radix_val b s * b + b \<le> b ^ length s * b"
    using snoc.prems(2) mult_right_mono [of "radix_val b s + 1" "b ^ length s" b]
    by (simp add: distrib_right)
  with \<open>digit_val c < b\<close> show ?case by (simp add: radix_val_append mult.commute)
qed simp

lemma radix_val_radix_str [simp]:
  assumes "2 \<le> b" "b \<le> 16" "0 \<le> n"
  shows "radix_val b (radix_str b n) = n"
  using assms(1,3)
proof (induction rule: radix_induct)
  case (small n)
  with assms show ?case by (simp add: radix_str_small)
next
  case (large n)
  with assms have "digit_val (digit_char (n mod b)) = n mod b"
    by (intro digit_val_digit_char) (auto intro: less_le_trans [OF pos_mod_bound])
  with large assms show ?case
    by (simp add: radix_str_large radix_val_append)
qed

lemma radix_str_digits:
  assumes "2 \<le> b" "b \<le> 16" "0 \<le> n"
  shows "all_digits b (radix_str b n)"
  using assms(1,3)
proof (induction rule: radix_induct)
  case (small n)
  with assms show ?case by (simp add: radix_str_small all_digits_def)
next
  case (large n)
  with assms show ?case by (simp add: radix_str_large all_digits_def)
qed

lemma radix_str_lower_hex:
  assumes "0 \<le> n"
  shows "list_all is_lower_hex (radix_str 16 n)"
proof -
  have "(2::int) \<le> 16" by simp
  from this assms show ?thesis
    by (induction rule: radix_induct) (simp_all add: radix_str_small radix_str_large)
qed

lemma int_div_less_mult: "0 < (b::int) \<Longrightarrow> n < b * m \<Longrightarrow> n div b < m"
  by (metis div_mult_mod_eq mult.commute mult_less_cancel_left_pos not_le pos_mod_sign
      add.commute le_add_same_cancel2 order_le_less_trans)

lemma length_radix_str:
  assumes "2 \<le> b" "0 \<le> n" "n < b ^ k" "0 < k"
  shows "length (radix_str b n) \<le> k"
  using assms
proof (induction arbitrary: k rule: radix_induct)
  case (small n)
  then show ?case by (simp add: radix_str_small)
next
  case (large n)
  then obtain k' where k: "k = Suc k'" by (cases k) auto
  with large.prems large.hyps have k': "0 < k'" by (cases k') auto
  have "n div b < b ^ k'"
    using large.prems assms(1)
    by (simp add: k int_div_less_mult)
  with large k k' assms(1) show ?case by (simp add: radix_str_large)
qed

lemma radix_str_ne [simp]: "radix_str b n \<noteq> []"
  by (subst radix_str.simps) simp

lemma radix_val_zeros [simp]: "radix_val b (replicate k CHR ''0'' @ s) = radix_val b s"
proof -
  have "digit_val CHR ''0'' = 0" by code_simp
  then have "radix_val b (replicate k CHR ''0'') = 0"
    by (induction k) (simp_all add: radix_val_append replicate_append_same [symmetric]
        del: replicate_append_same)
  then show ?thesis by (simp add: radix_val_append)
qed

lemma radix_val_only_zeros [simp]: "radix_val b (replicate k CHR ''0'') = 0"
  using radix_val_zeros [of b k "[]"] by simp

lemma radix_val_padStart [simp]: "radix_val b (padStart k CHR ''0'' s) = radix_val b s"
  by (simp add: padStart_def)

lemma radix_val_zeros_end:
  "radix_val b (s @ replicate k CHR ''0'') = radix_val b s * b ^ k"
  using radix_val_zeros [of b k "[]"] by (simp add: radix_val_append)

lemma digit_char_eq_0 [simp]: "0 \<le> d \<Longrightarrow> d < 16 \<Longrightarrow> digit_char d = CHR ''0'' \<longleftrightarrow> d = 0"
proof -
  assume d: "0 \<le> d" "d < 16"
  have "digit_val CHR ''0'' = 0" "digit_char 0 = CHR ''0''" by code_simp+
  with d digit_val_digit_char show ?thesis by metis
qed

lemma hd_radix_str:
  assumes "2 \<le> b" "b \<le> 16" "0 < n"
  shows "hd (radix_str b n) \<noteq> CHR ''0''"
proof -
  from assms have "0 \<le> n" by simp
  with assms(1) show ?thesis using assms(2,3)
  proof (induction rule: radix_induct)
    case (small n)
    then show ?case by (simp add: radix_str_small)
  next
    case (large n)
    then have "0 < n div b" using assms(1) by (simp add: pos_imp_zdiv_pos_iff)
    with large assms(1) show ?case by (simp add: radix_str_large hd_append)
  qed
qed

lemma radix_val_take:
  assumes "list_all (is_radix_digit b) s" "2 \<le> b" "k \<le> length s"
  shows "radix_val b (take k s) = radix_val b s div b ^ (length s - k)"
proof -
  have "radix_val b s = radix_val b (take k s) * b ^ (length s - k) + radix_val b (drop k s)"
    using radix_val_append [of b "take k s" "drop k s"] by simp
  moreover have "radix_val b (drop k s) < b ^ (length s - k)"
    using radix_val_bound [of b "drop k s"] assms by (auto simp: list_all_iff dest: in_set_dropD)
  moreover have "0 \<le> radix_val b (drop k s)" using assms by (simp add: radix_val_nonneg)
  ultimately show ?thesis
    using assms(2) by (metis div_mult_self3 div_pos_pos_trivial add_0 add.commute
        power_not_zero zero_neq_numeral not_numeral_le_zero)
qed

text \<open>Printing undoes parsing on canonical digits: a leading zero only when it is the number.\<close>

lemma radix_str_of_val:
  assumes "list_all is_digit s" "s \<noteq> []" "hd s \<noteq> CHR ''0'' \<or> length s = 1"
  shows "radix_str 10 (radix_val 10 s) = s"
  using assms
proof (induction s rule: rev_induct)
  case (snoc c s)
  have c: "0 \<le> digit_val c" "digit_val c < 10" "digit_char (digit_val c) = c"
    using snoc.prems by (auto simp: is_digit_def digit_val_def digit_char_def Let_def)
  show ?case
  proof (cases "s = []")
    case True
    with c show ?thesis by (simp add: radix_str_small)
  next
    case False
    with snoc.prems have h: "hd s \<noteq> CHR ''0''" by (cases s) auto
    with snoc False have IH: "radix_str 10 (radix_val 10 s) = s" by (cases s) auto
    have "radix_val 10 s \<noteq> 0"
    proof
      assume "radix_val 10 s = 0"
      with IH have "s = [digit_char 0]" by (simp add: radix_str_small)
      moreover have "digit_char 0 = CHR ''0''" by code_simp
      ultimately show False using h by simp
    qed
    with radix_val_nonneg [of 10 s] have "1 \<le> radix_val 10 s" by simp
    with IH c show ?thesis by (simp add: radix_val_append radix_str_large)
  qed
qed simp

subsection \<open>BigInt\<close>

lemma dropWhile_not: "s = [] \<or> \<not> P (hd s) \<Longrightarrow> dropWhile P s = s"
  by (cases s) auto

lemma trim_unchanged:
  assumes "s = [] \<or> \<not> is_space (hd s) \<and> \<not> is_space (last s)"
  shows "trim s = s"
  using assms by (auto simp: trim_def dropWhile_not hd_rev)

lemma trim_no_space: "list_all (\<lambda>c. \<not> is_space c) s \<Longrightarrow> trim s = s"
  by (rule trim_unchanged) (cases s rule: rev_cases; auto simp: hd_append list_all_iff)

lemma all_digits_trim:
  "b \<le> 16 \<Longrightarrow> all_digits b s \<Longrightarrow> trim s = s"
  using radix_digit_not_space [of b]
  by (intro trim_no_space) (auto simp: all_digits_def list_all_iff)

lemma not_radix_digit [simp]:
  "\<not> is_radix_digit 10 CHR ''-''" "\<not> is_radix_digit 10 CHR ''+''"
  "\<not> is_radix_digit 10 CHR ''x''" "\<not> is_radix_digit 10 CHR ''X''"
  "\<not> is_radix_digit 10 CHR ''o''" "\<not> is_radix_digit 10 CHR ''O''"
  "\<not> is_radix_digit 10 CHR ''b''" "\<not> is_radix_digit 10 CHR ''B''"
  by code_simp+

lemma js_BigInt_digits:
  assumes "all_digits 10 s"
  shows "js_BigInt s = Inr (radix_val 10 s)"
proof -
  obtain c r where s: "s = c # r" using assms by (cases s) (auto simp: all_digits_def)
  then have c: "is_radix_digit 10 c" and r: "list_all (is_radix_digit 10) r"
    using assms by (auto simp: all_digits_def)
  have h: "c \<noteq> CHR ''-''" "c \<noteq> CHR ''+''" using c not_radix_digit by blast+
  have n: "\<not> (r \<noteq> [] \<and> hd r \<in> {d, d'})"
    if "\<not> is_radix_digit 10 d" "\<not> is_radix_digit 10 d'" for d d'
    using r that by (cases r) auto
  have n: "(r \<noteq> [] \<and> hd r \<in> {CHR ''x'', CHR ''X''}) = False"
    "(r \<noteq> [] \<and> hd r \<in> {CHR ''o'', CHR ''O''}) = False"
    "(r \<noteq> [] \<and> hd r \<in> {CHR ''b'', CHR ''B''}) = False"
    using n not_radix_digit by blast+
  have t: "trim s = c # r" using all_digits_trim [of 10 s] assms s by simp
  show ?thesis
    unfolding js_BigInt_def t Let_def list.case n
    using h assms s by (simp only: if_False simp_thms digits_or_syntax_def if_True)
qed

lemma js_BigInt_int_str [simp]: "js_BigInt (int_str n) = Inr n"
proof (cases "n < 0")
  case True
  let ?d = "radix_str 10 (- n)"
  have d: "all_digits 10 ?d" using True by (intro radix_str_digits) auto
  have "\<not> is_space CHR ''-''" by code_simp
  moreover from d have "\<not> is_space (last ?d)"
    by (auto simp: all_digits_def list_all_iff dest!: bspec [of _ _ "last ?d"] radix_digit_not_space)
  ultimately have "trim (CHR ''-'' # ?d) = CHR ''-'' # ?d"
    by (intro trim_unchanged) simp
  with d True show ?thesis
    by (simp add: js_BigInt_def toString_radix_def digits_or_syntax_def)
next
  case False
  then show ?thesis
    by (simp add: toString_radix_def js_BigInt_digits radix_str_digits)
qed

lemma js_BigInt_hex:
  assumes "all_digits 16 s"
  shows "js_BigInt (''0x'' @ s) = Inr (radix_val 16 s)"
proof -
  have "\<not> is_space CHR ''0''" by code_simp
  moreover have "\<not> is_space (last s)"
    using assms by (auto simp: all_digits_def list_all_iff dest!: bspec [of _ _ "last s"] radix_digit_not_space)
  ultimately have "trim (''0x'' @ s) = ''0x'' @ s"
    using assms by (intro trim_unchanged) (auto simp: all_digits_def)
  with assms show ?thesis
    by (simp add: js_BigInt_def digits_or_syntax_def)
qed

lemma all_digits_padStart:
  assumes "all_digits b s" "is_radix_digit b c"
  shows "all_digits b (padStart k c s)"
  using assms by (auto simp: all_digits_def padStart_def list_all_iff)

subsection \<open>Hexadecimal buffers\<close>

lemma byte_nibbles:
  "0 \<le> uint (b :: byte) div 16" "uint b div 16 < 16" "0 \<le> uint b mod 16" "uint b mod 16 < 16"
  using uint_lt2p [of b] by (auto simp: pos_imp_zdiv_nonneg_iff int_div_less_mult)

lemma hex_bytes_bytes_hex: "hex_bytes (bytes_hex bs) = bs"
proof (induction bs)
  case (Cons b bs)
  have "(word_of_int (16 * (uint b div 16) + uint b mod 16) :: byte) = b"
    by simp
  with Cons show ?case
    using byte_nibbles [of b] by (simp add: bytes_hex_def hex_byte_def)
qed (simp add: bytes_hex_def)

lemma bytes_hex_lower: "list_all is_lower_hex (bytes_hex bs)"
  using byte_nibbles by (induction bs) (simp_all add: bytes_hex_def hex_byte_def)

lemma length_bytes_hex: "length (bytes_hex bs) = 2 * length bs"
  by (induction bs) (simp_all add: bytes_hex_def hex_byte_def)

lemma bytes_hex_hex_bytes:
  assumes "list_all is_lower_hex s" "even (length s)"
  shows "bytes_hex (hex_bytes s) = s"
  using assms
proof (induction s rule: hex_bytes.induct)
  case (1 c d s)
  then have cd: "is_lower_hex c" "is_lower_hex d" by auto
  then have v: "0 \<le> digit_val c" "digit_val c < 16" "0 \<le> digit_val d" "digit_val d < 16"
    using lower_hex_digit by (auto simp: is_radix_digit_def digit_val_nonneg)
  then have "uint (word_of_int (16 * digit_val c + digit_val d) :: byte) = 16 * digit_val c + digit_val d"
    by (intro uint_byte) auto
  with 1 cd v show ?case
    by (auto simp: bytes_hex_def hex_byte_def lower_hex_digit digit_char_digit_val)
qed (auto simp: bytes_hex_def)

lemma length_hex_bytes:
  assumes "list_all is_lower_hex s"
  shows "length (hex_bytes s) = length s div 2"
  using assms by (induction s rule: hex_bytes.induct) (auto simp: lower_hex_digit)

lemma uint_byte_utf8: "c \<in> set s \<Longrightarrow> char_code c < 128 \<Longrightarrow> utf8_char c = [word_of_int (char_code c)]"
  by (simp add: utf8_char_def)

subsection \<open>Splitting and joining\<close>

lemma split_char_ne [simp]: "split_char d s \<noteq> []"
  by (induction s) (auto split: list.split)

lemma js_join_cons: "xs \<noteq> [] \<Longrightarrow> js_join d (x # xs) = x @ d @ js_join d xs"
  by (cases xs) auto

lemma js_join_split_char: "js_join [d] (split_char d s) = s"
proof (induction s)
  case (Cons c s)
  obtain x xs where x: "split_char d s = x # xs" by (cases "split_char d s") auto
  with Cons show ?case
    by (cases xs) (auto simp: js_join_cons)
qed simp

lemma split_char_no_sep: "d \<notin> set s \<Longrightarrow> split_char d s = [s]"
  by (induction s) auto

lemma split_char_append:
  "d \<notin> set s \<Longrightarrow> split_char d (s @ d # t) = s # split_char d t"
  by (induction s) auto

lemma split_char_join:
  assumes "xs \<noteq> []" "\<forall>x\<in>set xs. d \<notin> set x"
  shows "split_char d (js_join [d] xs) = xs"
  using assms
proof (induction xs)
  case (Cons x xs)
  then show ?case
    by (cases "xs = []") (auto simp: split_char_no_sep js_join_cons split_char_append)
qed simp

lemma split_char_fields: "x \<in> set (split_char d s) \<Longrightarrow> d \<notin> set x \<and> set x \<subseteq> set s"
proof (induction s arbitrary: x)
  case (Cons c s)
  obtain y ys where "split_char d s = y # ys" by (cases "split_char d s") auto
  with Cons show ?case by (auto split: if_splits) fastforce+
qed simp

lemma startsWith_append [simp]: "startsWith (p @ s) p"
  by (simp add: startsWith_def)

lemma startsWith_iff: "startsWith s p \<longleftrightarrow> (\<exists>t. s = p @ t)"
  by (metis append_eq_conv_conj append_take_drop_id startsWith_def)

end
