(* ===== verification/Economics.thy ===== *)
theory Economics
  imports JsText
begin

text \<open>
  The parimutuel arithmetic of \<open>client/src/economics.ts\<close>: the settlement split, the private
  payout of one order, the display and the parser of USDC amounts, and the action a market phase
  allows.  The lemmas bound the fee and the payouts, sum the payouts over a whole batch, and relate
  the parser to the display.
\<close>

section \<open>Settlement\<close>

definition USDC_DECIMALS :: nat where "USDC_DECIMALS = 6"
definition USDC_SCALE :: int where "USDC_SCALE = 10 ^ USDC_DECIMALS"
definition MAX_FEE_BPS :: int where "MAX_FEE_BPS = 300"
definition MAX_KEEPER_REWARD_BPS :: int where "MAX_KEEPER_REWARD_BPS = 5000"

record SettlementAmounts =
  grossPool :: int
  protocolFee :: int
  keeperReward :: int
  treasuryFee :: int
  netPool :: int

definition calculateSettlement :: "int \<Rightarrow> int \<Rightarrow> jsnum \<Rightarrow> jsnum \<Rightarrow> SettlementAmounts res" where
  "calculateSettlement gross winningAmount feeBps keeperRewardBps =
     (if gross \<le> 0 then Inl (Error ''gross pool must be positive'')
      else if winningAmount \<le> 0 \<or> winningAmount > gross
      then Inl (Error ''winning amount must be within the gross pool'')
      else if \<not> is_safe_integer feeBps \<or> num_int feeBps < 0 \<or> num_int feeBps > MAX_FEE_BPS
      then Inl (Error ''fee must be between 0 and 300 basis points'')
      else if \<not> is_safe_integer keeperRewardBps \<or> num_int keeperRewardBps < 0
              \<or> num_int keeperRewardBps > MAX_KEEPER_REWARD_BPS
      then Inl (Error ''keeper reward must be between 0 and 5000 basis points'')
      else let fee = (gross * num_int feeBps) sdiv 10000;
               reward = (fee * num_int keeperRewardBps) sdiv 10000;
               treasury = fee - reward;
               net = gross - fee
           in Inr \<lparr>grossPool = gross, protocolFee = fee, keeperReward = reward,
                   treasuryFee = treasury, netPool = net\<rparr>)"

record PrivatePayout =
  unusedCollateral :: int
  marketPayout :: int
  payoutAmount :: int

definition calculatePrivatePayout :: "int \<Rightarrow> int \<Rightarrow> bool \<Rightarrow> int \<Rightarrow> int \<Rightarrow> PrivatePayout res" where
  "calculatePrivatePayout stakeAmount wagerAmount winner net winningAmount =
     (if stakeAmount \<le> 0 \<or> wagerAmount \<le> 0 \<or> wagerAmount > stakeAmount
      then Inl (Error ''wager amount must be within the public stake amount'')
      else if net < 0 \<or> winningAmount \<le> 0 then Inl (Error ''settlement liquidity is invalid'')
      else let unused = stakeAmount - wagerAmount;
               payout = (if winner then (wagerAmount * net) sdiv winningAmount else 0)
           in Inr \<lparr>unusedCollateral = unused, marketPayout = payout, payoutAmount = unused + payout\<rparr>)"

section \<open>USDC amounts as text\<close>

text \<open>\<open>toLocaleString('en-US')\<close> of a non-negative BigInt: digits in groups of three.\<close>

function group_thousands :: "string \<Rightarrow> string" where
  "group_thousands s =
     (if length s \<le> 3 then s
      else group_thousands (take (length s - 3) s) @ CHR '','' # drop (length s - 3) s)"
  by pat_completeness auto
termination
  by (relation "measure length") auto

declare group_thousands.simps [simp del]

text \<open>\<open>s.replace(/0+$/, '')\<close>.\<close>

definition strip_trailing_zeros :: "string \<Rightarrow> string" where
  "strip_trailing_zeros s = rev (dropWhile (\<lambda>c. c = CHR ''0'') (rev s))"

definition formatUsdc :: "int \<Rightarrow> int \<Rightarrow> string res" where
  "formatUsdc amount maximumFractionDigits =
     (if maximumFractionDigits < 0 \<or> maximumFractionDigits > int USDC_DECIMALS
      then Inl (Error ''fraction digits must be between 0 and 6'')
      else let sign = (if amount < 0 then ''-'' else '''');
               absolute = (if amount < 0 then - amount else amount);
               whole = absolute sdiv USDC_SCALE;
               fraction = padStart USDC_DECIMALS CHR ''0'' (int_str (absolute smod USDC_SCALE));
               visible = strip_trailing_zeros (take (nat maximumFractionDigits) fraction)
           in Inr (sign @ group_thousands (int_str whole)
                   @ (if visible \<noteq> [] then CHR ''.'' # visible else [])))"

text \<open>The regular expression \<open>/^(0|[1-9]\d*)(\.\d{1,6})?$/\<close>.\<close>

definition canonical_whole :: "string \<Rightarrow> bool" where
  "canonical_whole w \<longleftrightarrow> w = ''0'' \<or> (w \<noteq> [] \<and> hd w \<noteq> CHR ''0'' \<and> list_all is_digit w)"

definition usdc_syntax :: "string \<Rightarrow> bool" where
  "usdc_syntax s =
     (case split_char CHR ''.'' s of
        [w] \<Rightarrow> canonical_whole w
      | [w, f] \<Rightarrow> canonical_whole w \<and> 1 \<le> length f \<and> length f \<le> 6 \<and> list_all is_digit f
      | _ \<Rightarrow> False)"

definition parseUsdc :: "string \<Rightarrow> int res" where
  "parseUsdc value =
     (if \<not> usdc_syntax value
      then Inl (Error ''USDC amount must be a positive decimal with at most six places'')
      else let parts = split_char CHR ''.'' value;
               whole = at_or parts 0 [];
               fraction = at_or parts 1 []
           in rbind (js_BigInt whole) (\<lambda>w.
              rbind (js_BigInt (padEnd USDC_DECIMALS CHR ''0'' fraction)) (\<lambda>f.
              Inr (w * USDC_SCALE + f))))"

section \<open>Market phases\<close>

datatype MarketPhase = Phase_open | Phase_batched | Phase_resolved | Phase_refunding | Phase_closed
datatype MarketAction = Act_place | Act_await_batch | Act_settle | Act_claim | Act_refund | Act_closed

fun marketAction :: "MarketPhase \<Rightarrow> int \<Rightarrow> int \<Rightarrow> MarketAction" where
  "marketAction Phase_open now lockTimestamp =
     (if now < lockTimestamp then Act_place else Act_await_batch)"
| "marketAction Phase_batched now lockTimestamp = Act_settle"
| "marketAction Phase_resolved now lockTimestamp = Act_claim"
| "marketAction Phase_refunding now lockTimestamp = Act_refund"
| "marketAction Phase_closed now lockTimestamp = Act_closed"

section \<open>Lemmas on settlement\<close>

lemma calculateSettlement_InrD:
  assumes "calculateSettlement g w f k = Inr A"
  shows "0 < g" "0 < w" "w \<le> g" "grossPool A = g"
    and "0 \<le> num_int f" "num_int f \<le> 300" "0 \<le> num_int k" "num_int k \<le> 5000"
    and "protocolFee A = g * num_int f div 10000"
    and "keeperReward A = protocolFee A * num_int k div 10000"
    and "treasuryFee A = protocolFee A - keeperReward A" "netPool A = g - protocolFee A"
  using assms
  by (auto simp: calculateSettlement_def Let_def MAX_FEE_BPS_def MAX_KEEPER_REWARD_BPS_def
      pos_imp_zdiv_nonneg_iff split: if_splits)

lemma settlement_bounds:
  assumes "calculateSettlement g w f k = Inr A"
  shows "0 \<le> protocolFee A" "100 * protocolFee A \<le> 3 * g" "0 \<le> keeperReward A"
    and "2 * keeperReward A \<le> protocolFee A" "0 \<le> netPool A"
proof -
  note d = calculateSettlement_InrD [OF assms]
  show p: "0 \<le> protocolFee A" using d by (simp add: pos_imp_zdiv_nonneg_iff)
  have "g * num_int f \<le> g * 300" using d by (simp add: mult_left_mono)
  then have "10000 * protocolFee A \<le> g * 300"
    using d(9) by (metis mult.commute mult_div_mod_eq order_trans pos_mod_sign
        zero_less_numeral le_add_same_cancel1)
  then show "100 * protocolFee A \<le> 3 * g" by simp
  then show "0 \<le> netPool A" using d by simp
  show "0 \<le> keeperReward A" using d p by (simp add: pos_imp_zdiv_nonneg_iff)
  have "protocolFee A * num_int k \<le> protocolFee A * 5000" using d p by (simp add: mult_left_mono)
  then have "10000 * keeperReward A \<le> protocolFee A * 5000"
    using d(10) by (metis mult.commute mult_div_mod_eq order_trans pos_mod_sign
        zero_less_numeral le_add_same_cancel1)
  then show "2 * keeperReward A \<le> protocolFee A" by simp
qed

text \<open>Rounding every payout down pays out the pool up to less than one unit per winner.\<close>

lemma sum_list_div_bounds:
  assumes "0 < (d::int)" "0 \<le> n" "\<forall>x\<in>set xs. 0 \<le> x"
  shows "d * sum_list (map (\<lambda>x. x * n div d) xs) \<le> sum_list xs * n"
    and "sum_list xs * n \<le> d * sum_list (map (\<lambda>x. x * n div d) xs) + (d - 1) * int (length xs)"
proof -
  have "d * sum_list (map (\<lambda>x. x * n div d) xs) \<le> sum_list xs * n \<and>
    sum_list xs * n \<le> d * sum_list (map (\<lambda>x. x * n div d) xs) + (d - 1) * int (length xs)"
    using assms(3)
  proof (induction xs)
    case (Cons x xs)
    define q where "q = x * n div d"
    define S where "S = sum_list (map (\<lambda>x. x * n div d) xs)"
    have q: "d * q \<le> x * n" "x * n \<le> d * q + (d - 1)"
      using assms(1) pos_mod_bound [of d "x * n"] mult_div_mod_eq [of d "x * n"]
        pos_mod_sign [of d "x * n"] unfolding q_def by linarith+
    have IH: "d * S \<le> sum_list xs * n" "sum_list xs * n \<le> d * S + (d - 1) * int (length xs)"
      using Cons by (simp_all add: S_def)
    have "d * sum_list (map (\<lambda>x. x * n div d) (x # xs)) = d * q + d * S"
      by (simp add: q_def S_def distrib_left)
    moreover have "sum_list (x # xs) * n = x * n + sum_list xs * n" by (simp add: distrib_right)
    moreover have "(d - 1) * int (length (x # xs)) = (d - 1) + (d - 1) * int (length xs)"
      by (simp add: distrib_left)
    ultimately show ?case using q IH by linarith
  qed simp
  then show "d * sum_list (map (\<lambda>x. x * n div d) xs) \<le> sum_list xs * n"
    and "sum_list xs * n \<le> d * sum_list (map (\<lambda>x. x * n div d) xs) + (d - 1) * int (length xs)"
    by auto
qed

section \<open>Lemmas on text\<close>

lemma group_thousands_short: "length s \<le> 3 \<Longrightarrow> group_thousands s = s"
  by (simp add: group_thousands.simps)

lemma group_thousands_long:
  "3 < length s \<Longrightarrow> group_thousands s =
     group_thousands (take (length s - 3) s) @ CHR '','' # drop (length s - 3) s"
  by (subst group_thousands.simps) simp

lemma strip_zeros_decomp:
  obtains k where "s = strip_trailing_zeros s @ replicate k CHR ''0''"
proof -
  let ?P = "\<lambda>c. c = CHR ''0''"
  have "takeWhile ?P (rev s) = replicate (length (takeWhile ?P (rev s))) CHR ''0''"
    by (auto simp: list_eq_iff_nth_eq dest: nth_mem set_takeWhileD)
  moreover have "s = rev (dropWhile ?P (rev s)) @ rev (takeWhile ?P (rev s))"
    by (metis rev_append rev_rev_ident takeWhile_dropWhile_id)
  ultimately show thesis
    using that [of "length (takeWhile ?P (rev s))"]
    unfolding strip_trailing_zeros_def by (metis rev_replicate)
qed

lemma canonical_whole_int_str:
  assumes "0 \<le> n"
  shows "canonical_whole (int_str n)"
proof (cases "n = 0")
  case True
  then show ?thesis by (simp add: canonical_whole_def) code_simp
next
  case False
  with assms hd_radix_str [of 10 n] radix_str_digits [of 10 n] show ?thesis
    by (simp add: canonical_whole_def toString_radix_def all_digits_def is_digit_iff list_all_iff)
qed

lemma canonical_whole_digits: "canonical_whole w \<Longrightarrow> all_digits 10 w"
proof -
  have "is_radix_digit 10 CHR ''0''" by code_simp
  then show "canonical_whole w \<Longrightarrow> all_digits 10 w"
    by (auto simp: canonical_whole_def all_digits_def is_digit_iff list_all_iff)
qed

lemma digits_no_char:
  "list_all is_digit s \<Longrightarrow> \<not> is_digit c \<Longrightarrow> c \<notin> set s"
  by (auto simp: list_all_iff)

lemma not_digit [simp]: "\<not> is_digit CHR ''.''" "\<not> is_digit CHR '',''" "\<not> is_digit CHR ''-''"
  by code_simp+

lemma int_str_digits: "0 \<le> n \<Longrightarrow> list_all is_digit (int_str n)"
  using canonical_whole_digits [OF canonical_whole_int_str]
  by (simp add: all_digits_def is_digit_iff list_all_iff)

lemma radix_val_int_str: "0 \<le> n \<Longrightarrow> radix_val 10 (int_str n) = n"
  by (simp add: toString_radix_def)

lemma filter_group_thousands:
  "CHR '','' \<notin> set s \<Longrightarrow> filter (\<lambda>c. c \<noteq> CHR '','') (group_thousands s) = s"
proof (induction s rule: group_thousands.induct)
  case (1 s)
  show ?case
  proof (cases "length s \<le> 3")
    case True
    with 1 show ?thesis by (auto simp: group_thousands_short filter_id_conv)
  next
    case False
    with 1 have "CHR '','' \<notin> set (take (length s - 3) s)" "CHR '','' \<notin> set (drop (length s - 3) s)"
      by (auto dest: in_set_takeD in_set_dropD)
    then have "filter (\<lambda>c. c \<noteq> CHR '','') (drop (length s - 3) s) = drop (length s - 3) s"
      by (intro filter_True) metis
    with False 1(1) \<open>CHR '','' \<notin> set (take (length s - 3) s)\<close> show ?thesis
      by (simp only: group_thousands_long not_le filter_append filter.simps append_take_drop_id
          simp_thms if_False)
  qed
qed

lemma usdc_syntax_iff:
  "usdc_syntax s \<longleftrightarrow> (\<exists>w f. canonical_whole w \<and> length f \<le> 6 \<and> list_all is_digit f \<and>
     s = w @ (if f = [] then [] else CHR ''.'' # f))"
proof
  assume "usdc_syntax s"
  then consider w where "split_char CHR ''.'' s = [w]" "canonical_whole w"
    | w f where "split_char CHR ''.'' s = [w, f]" "canonical_whole w" "1 \<le> length f"
      "length f \<le> 6" "list_all is_digit f"
    by (auto simp: usdc_syntax_def split: list.splits)
  then show "\<exists>w f. canonical_whole w \<and> length f \<le> 6 \<and> list_all is_digit f \<and>
     s = w @ (if f = [] then [] else CHR ''.'' # f)"
  proof cases
    case 1
    with js_join_split_char [of "CHR ''.''" s] show ?thesis
      by (intro exI [of _ w] exI [of _ "[]"]) auto
  next
    case 2
    with js_join_split_char [of "CHR ''.''" s] show ?thesis
      by (intro exI [of _ w] exI [of _ f]) auto
  qed
next
  assume "\<exists>w f. canonical_whole w \<and> length f \<le> 6 \<and> list_all is_digit f \<and>
     s = w @ (if f = [] then [] else CHR ''.'' # f)"
  then obtain w f where *: "canonical_whole w" "length f \<le> 6" "list_all is_digit f"
    "s = w @ (if f = [] then [] else CHR ''.'' # f)" by blast
  then have "CHR ''.'' \<notin> set w" "CHR ''.'' \<notin> set f"
    using canonical_whole_digits [of w]
    by (auto simp: all_digits_def list_all_iff is_digit_iff [symmetric])
  with * show "usdc_syntax s"
    by (auto simp: usdc_syntax_def split_char_no_sep split_char_append Suc_le_eq)
qed

lemma usdc_syntax_no_comma: "usdc_syntax s \<Longrightarrow> CHR '','' \<notin> set s"
proof -
  assume "usdc_syntax s"
  then obtain w f where *: "canonical_whole w" "list_all is_digit f"
    "s = w @ (if f = [] then [] else CHR ''.'' # f)" by (auto simp: usdc_syntax_iff)
  have "list_all is_digit w"
    using canonical_whole_digits [OF *(1)] by (simp add: all_digits_def is_digit_iff list_all_iff)
  with *(2) have "CHR '','' \<notin> set w" "CHR '','' \<notin> set f"
    by (simp_all add: digits_no_char)
  with *(3) show ?thesis by simp
qed

lemma parseUsdc_parts:
  assumes "canonical_whole w" "length f \<le> 6" "list_all is_digit f"
  shows "parseUsdc (w @ (if f = [] then [] else CHR ''.'' # f))
    = Inr (radix_val 10 w * USDC_SCALE + radix_val 10 f * 10 ^ (6 - length f))"
proof -
  have "CHR ''.'' \<notin> set w" "CHR ''.'' \<notin> set f"
    using assms canonical_whole_digits [of w]
    by (auto simp: all_digits_def list_all_iff is_digit_iff [symmetric])
  moreover have "is_radix_digit 10 CHR ''0''" by code_simp
  then have "all_digits 10 (padEnd 6 CHR ''0'' f)"
    using assms by (auto simp: all_digits_def padEnd_def is_digit_iff list_all_iff)
  moreover have "usdc_syntax (w @ (if f = [] then [] else CHR ''.'' # f))"
    using assms by (auto simp: usdc_syntax_iff)
  ultimately show ?thesis
    using assms canonical_whole_digits [of w]
    by (auto simp: parseUsdc_def split_char_no_sep split_char_append at_or_def USDC_DECIMALS_def
        js_BigInt_digits padEnd_def radix_val_zeros_end Let_def)
qed

lemma formatUsdc_parts:
  assumes "0 \<le> a" "0 \<le> d" "d \<le> 6"
  obtains f where "list_all is_digit f" "length f \<le> 6"
    and "radix_val 10 f * 10 ^ (6 - length f) = a mod USDC_SCALE - a mod 10 ^ nat (6 - d)"
    and "formatUsdc a d = Inr (group_thousands (int_str (a div USDC_SCALE))
           @ (if f = [] then [] else CHR ''.'' # f))"
proof -
  define m where "m = a mod USDC_SCALE"
  have m: "0 \<le> m" "m < 10 ^ 6" by (simp_all add: m_def USDC_SCALE_def USDC_DECIMALS_def)
  define fr where "fr = padStart 6 CHR ''0'' (int_str m)"
  have z: "is_radix_digit 10 CHR ''0''" by code_simp
  have len: "length fr = 6"
    using length_radix_str [of 10 m 6] m by (simp add: fr_def padStart_def toString_radix_def)
  have dig: "list_all (is_radix_digit 10) fr"
    using z int_str_digits [OF m(1)] by (auto simp: fr_def padStart_def is_digit_iff list_all_iff)
  have val: "radix_val 10 fr = m" using m by (simp add: fr_def radix_val_int_str)
  define t where "t = take (nat d) fr"
  have lt: "length t = nat d" using len assms by (simp add: t_def)
  have tv: "radix_val 10 t = m div 10 ^ nat (6 - d)"
    using radix_val_take [OF dig, of "nat d"] len val assms by (simp add: t_def nat_diff_distrib)
  define f where "f = strip_trailing_zeros t"
  obtain k where k: "t = f @ replicate k CHR ''0''"
    using strip_zeros_decomp [of t] unfolding f_def by blast
  have fl: "length f + k = nat d" using arg_cong [OF k, of length] lt by simp
  have fd: "list_all is_digit f"
    using dig k by (auto simp: list_all_iff t_def is_digit_iff dest!: in_set_takeD)
      (metis Un_iff append_take_drop_id set_append)
  have "radix_val 10 f * 10 ^ (6 - length f) = radix_val 10 f * 10 ^ k * 10 ^ nat (6 - d)"
  proof -
    have "6 - length f = k + nat (6 - d)" using fl assms by arith
    then show ?thesis by (simp only: power_add mult.assoc)
  qed
  also have "\<dots> = m div 10 ^ nat (6 - d) * 10 ^ nat (6 - d)"
    using tv by (simp add: k radix_val_zeros_end)
  also have "\<dots> = m - m mod 10 ^ nat (6 - d)" by (simp add: minus_mod_eq_div_mult)
  also have "m mod 10 ^ nat (6 - d) = a mod 10 ^ nat (6 - d)"
  proof -
    have "(10::int) ^ nat (6 - d) dvd USDC_SCALE"
      unfolding USDC_SCALE_def USDC_DECIMALS_def using assms by (intro le_imp_power_dvd) simp
    then show ?thesis by (simp add: m_def mod_mod_cancel)
  qed
  finally have fv: "radix_val 10 f * 10 ^ (6 - length f) = a mod USDC_SCALE - a mod 10 ^ nat (6 - d)"
    by (simp add: m_def)
  have "0 < USDC_SCALE" by (simp add: USDC_SCALE_def)
  then have "formatUsdc a d = Inr (group_thousands (int_str (a div USDC_SCALE))
           @ (if f = [] then [] else CHR ''.'' # f))"
    using assms by (simp add: formatUsdc_def USDC_DECIMALS_def f_def t_def fr_def m_def Let_def)
  with that [OF fd _ fv] fl assms show thesis by simp
qed

section \<open>Properties\<close>

text \<open>The payouts of a batch: one order is its stake, its wager and whether it won.\<close>

definition batch_payouts :: "int \<Rightarrow> int \<Rightarrow> (int \<times> int \<times> bool) list \<Rightarrow> int list res" where
  "batch_payouts net winning orders =
     rmap_list (\<lambda>(stake, wager, winner).
       rbind (calculatePrivatePayout stake wager winner net winning) (\<lambda>p. Inr (payoutAmount p))) orders"

lemma batch_payouts_sum:
  assumes "batch_payouts net winning orders = Inr ps"
  shows "sum_list ps = (\<Sum>(s, w, c)\<leftarrow>orders. s - w)
      + sum_list (map (\<lambda>x. x * net div winning) [w. (s, w, c) \<leftarrow> orders, c])
    \<and> (\<forall>(s, w, c)\<in>set orders. 0 < w \<and> w \<le> s \<and> 0 \<le> net \<and> 0 < winning)"
  using assms
proof (induction orders arbitrary: ps)
  case (Cons x xs)
  obtain s w c where x: "x = (s, w, c)" by (cases x)
  with Cons.prems obtain p qs where p: "calculatePrivatePayout s w c net winning = Inr p"
    "batch_payouts net winning xs = Inr qs" "ps = payoutAmount p # qs"
    by (auto simp: batch_payouts_def)
  from p(1) have "0 < w" "w \<le> s" "0 \<le> net" "0 < winning"
    "payoutAmount p = s - w + (if c then w * net div winning else 0)"
    by (auto simp: calculatePrivatePayout_def Let_def split: if_splits)
  with Cons.IH [OF p(2)] p(3) x show ?case by auto
qed (simp add: batch_payouts_def)

text \<open>
  Claim C4. A batch settles out of its own deposits: when the winning wagers add up to the settled
  winning amount, what all orders are paid plus the protocol fee never exceeds the collateral they
  deposited, and what rounding leaves behind is less than one unit per winner.
\<close>

theorem batch_settles:
  assumes "calculateSettlement (\<Sum>(s, w, c)\<leftarrow>orders. w) winning f k = Inr A"
    and "winning = sum_list [w. (s, w, c) \<leftarrow> orders, c]"
    and "batch_payouts (netPool A) winning orders = Inr ps"
  shows "sum_list ps + protocolFee A \<le> (\<Sum>(s, w, c)\<leftarrow>orders. s)
    \<and> (\<Sum>(s, w, c)\<leftarrow>orders. s) < sum_list ps + protocolFee A + int (length [w. (s, w, c) \<leftarrow> orders, c])"
proof -
  let ?ws = "[w. (s, w, c) \<leftarrow> orders, c]" and ?n = "netPool A"
  define P where "P = sum_list (map (\<lambda>x. x * ?n div winning) ?ws)"
  note d = calculateSettlement_InrD [OF assms(1)] and n = settlement_bounds(5) [OF assms(1)]
  note s = batch_payouts_sum [OF assms(3)]
  have ws: "\<forall>x\<in>set ?ws. 0 \<le> x" using s by (auto dest!: bspec)
  have "winning * P \<le> winning * ?n"
    using sum_list_div_bounds(1) [OF d(2) n ws] unfolding P_def assms(2) by (simp add: mult.commute)
  then have le: "P \<le> ?n" using d(2) by simp
  have "winning * ?n \<le> winning * P + (winning - 1) * int (length ?ws)"
    using sum_list_div_bounds(2) [OF d(2) n ws] unfolding P_def
    by (simp add: assms(2) [symmetric] mult.commute)
  moreover have "?ws \<noteq> []"
  proof
    assume "?ws = []"
    then show False using d(2) assms(2) by (simp only: sum_list.Nil less_irrefl)
  qed
  then have "0 < int (length ?ws)" by (simp only: length_greater_0_conv of_nat_0_less_iff not_False_eq_True)
  moreover have "winning * (P + int (length ?ws))
      = winning * P + (winning - 1) * int (length ?ws) + int (length ?ws)"
    by (simp only: algebra_simps)
  ultimately have "winning * ?n < winning * (P + int (length ?ws))" by linarith
  then have gt: "?n < P + int (length ?ws)" using d(2) by simp
  have "(\<Sum>(s, w, c)\<leftarrow>orders. s) = (\<Sum>(s, w, c)\<leftarrow>orders. s - w) + (\<Sum>(s, w, c)\<leftarrow>orders. w)"
    by (induction orders) auto
  moreover have "sum_list ps = (\<Sum>(s, w, c)\<leftarrow>orders. s - w) + P" using s by (simp add: P_def)
  ultimately show ?thesis using le gt d(12) by linarith
qed

theorem batch_settles_witness:
  "calculateSettlement 12000000 7000000 (JInt 250) (JInt 1000)
     = Inr \<lparr>grossPool = 12000000, protocolFee = 300000, keeperReward = 30000, treasuryFee = 270000,
            netPool = 11700000\<rparr> \<and>
   batch_payouts 11700000 7000000
     [(5000000, 3000000, True), (5000000, 5000000, False), (4000001, 4000000, True)]
     = Inr [7014285, 0, 6685715] \<and>
   (7014285::int) + 0 + 6685715 + 300000 \<le> 14000001"
proof -
  let ?os = "[(5000000, 3000000, True), (5000000, 5000000, False), (4000001, 4000000, True)]
    :: (int \<times> int \<times> bool) list"
  have a: "calculateSettlement (\<Sum>(s, w, c)\<leftarrow>?os. w) 7000000 (JInt 250) (JInt 1000)
    = Inr \<lparr>grossPool = 12000000, protocolFee = 300000, keeperReward = 30000, treasuryFee = 270000,
            netPool = 11700000\<rparr>" by code_simp
  have b: "7000000 = sum_list [w. (s, w, c) \<leftarrow> ?os, c]" by simp
  have c: "batch_payouts (netPool \<lparr>grossPool = 12000000, protocolFee = 300000, keeperReward = 30000,
      treasuryFee = 270000, netPool = 11700000\<rparr>) 7000000 ?os = Inr [7014285, 0, 6685715]" by code_simp
  show ?thesis using batch_settles [OF a b c] a c by simp
qed

text \<open>
  The display and the parser of USDC amounts agree: parsing a displayed amount, with the
  thousands separators removed, gives the amount rounded down to the displayed digits; an amount
  below one thousand USDC parses back as displayed, a larger one is refused because of its
  separators.
\<close>

theorem usdc_round_trip:
  assumes "0 \<le> a" "0 \<le> d" "d \<le> 6"
  shows "\<exists>s. formatUsdc a d = Inr s
    \<and> parseUsdc (filter (\<lambda>c. c \<noteq> CHR '','') s) = Inr (a - a mod 10 ^ nat (6 - d))
    \<and> parseUsdc s = (if a < 1000 * USDC_SCALE then Inr (a - a mod 10 ^ nat (6 - d))
        else Inl (Error ''USDC amount must be a positive decimal with at most six places''))"
proof -
  obtain f where f: "list_all is_digit f" "length f \<le> 6"
    "radix_val 10 f * 10 ^ (6 - length f) = a mod USDC_SCALE - a mod 10 ^ nat (6 - d)"
    "formatUsdc a d = Inr (group_thousands (int_str (a div USDC_SCALE))
           @ (if f = [] then [] else CHR ''.'' # f))"
    using formatUsdc_parts [OF assms] by blast
  let ?w = "int_str (a div USDC_SCALE)"
  have pos: "0 < USDC_SCALE" by (simp add: USDC_SCALE_def)
  then have w: "0 \<le> a div USDC_SCALE" using assms(1) by (simp add: pos_imp_zdiv_nonneg_iff)
  have nc: "CHR '','' \<notin> set ?w" "CHR '','' \<notin> set f"
    using int_str_digits [OF w] f(1) by (auto simp: list_all_iff)
  have p: "parseUsdc (?w @ (if f = [] then [] else CHR ''.'' # f))
      = Inr (a - a mod 10 ^ nat (6 - d))"
    using parseUsdc_parts [OF canonical_whole_int_str [OF w] f(2,1)] f(3)
    by (simp add: radix_val_int_str w)
  have "parseUsdc (group_thousands ?w @ (if f = [] then [] else CHR ''.'' # f)) =
     (if a < 1000 * USDC_SCALE then Inr (a - a mod 10 ^ nat (6 - d))
        else Inl (Error ''USDC amount must be a positive decimal with at most six places''))"
  proof (cases "a < 1000 * USDC_SCALE")
    case True
    then have "a div USDC_SCALE < 10 ^ 3"
      by (intro int_div_less_mult [OF pos]) (simp add: mult.commute)
    then have "length ?w \<le> 3"
      using length_radix_str [of 10 "a div USDC_SCALE" 3] w by (simp add: toString_radix_def)
    with p True show ?thesis by (simp add: group_thousands_short)
  next
    case False
    have "3 < length ?w"
    proof (rule ccontr)
      assume "\<not> 3 < length ?w"
      then have "(10::int) ^ length ?w \<le> 10 ^ 3" by (intro power_increasing) auto
      moreover have "a div USDC_SCALE < 10 ^ length ?w"
        using radix_val_bound [of 10 ?w] int_str_digits [OF w] radix_val_int_str [OF w]
        by (simp add: is_digit_iff list_all_iff)
      moreover have "1000 \<le> a div USDC_SCALE"
        using False pos zdiv_mono1 [of "1000 * USDC_SCALE" a USDC_SCALE] by simp
      ultimately show False by simp
    qed
    then have "CHR '','' \<in> set (group_thousands ?w)" by (simp add: group_thousands_long)
    moreover have "CHR '','' \<notin> set s" if "usdc_syntax s" for s
      using that by (rule usdc_syntax_no_comma)
    ultimately have "\<not> usdc_syntax (group_thousands ?w @ (if f = [] then [] else CHR ''.'' # f))"
      by (metis Un_iff set_append)
    with False show ?thesis by (simp add: parseUsdc_def)
  qed
  moreover have "filter (\<lambda>c. c \<noteq> CHR '','') (group_thousands ?w @ (if f = [] then [] else CHR ''.'' # f))
      = ?w @ (if f = [] then [] else CHR ''.'' # f)"
    using nc by (auto simp: filter_group_thousands intro!: filter_True)
  ultimately show ?thesis using f(4) p by simp
qed

theorem usdc_round_trip_witness:
  "formatUsdc 1234567890 2 = Inr ''1,234.56'' \<and> formatUsdc 234567890 6 = Inr ''234.56789'' \<and>
   parseUsdc ''1234.56'' = Inr 1234560000 \<and> parseUsdc ''234.56789'' = Inr 234567890 \<and>
   \<not> returns (parseUsdc ''1,234.56'')"
proof -
  have a: "formatUsdc 1234567890 2 = Inr ''1,234.56''" "formatUsdc 234567890 6 = Inr ''234.56789''"
    by code_simp+
  show ?thesis
    using usdc_round_trip [of 1234567890 2] usdc_round_trip [of 234567890 6] a
    by (simp add: USDC_SCALE_def USDC_DECIMALS_def)
qed

end
