(* ===== verification/Portfolio.thy ===== *)
theory Portfolio
  imports Lmsr
begin

text \<open>
  The position arithmetic of \<open>client/src/portfolio.ts\<close>: what a hybrid position is paid for an
  outcome, its status, its marked value at a probability, its profit, and the liquidity a creator
  may withdraw.  The lemmas relate the marked value to the payouts it prices.
\<close>

section \<open>Positions\<close>

record HybridPositionShares =
  yesShares :: int
  noShares :: int

datatype HybridOutcomeName = Outcome_yes | Outcome_no | Outcome_invalid | Outcome_unset

datatype HybridPhaseName =
    Hybrid_open | Hybrid_locked | Hybrid_resolving | Hybrid_disputed | Hybrid_resolved | Hybrid_closed

datatype HybridPositionStatus =
    Status_phase HybridPhaseName | Status_claimable | Status_lost | Status_settled

definition POSITION_OWNER_OFFSET :: int where "POSITION_OWNER_OFFSET = 42"
definition HYBRID_LIQUIDITY_OWNER_OFFSET :: int where "HYBRID_LIQUIDITY_OWNER_OFFSET = 51"
definition PROBABILITY_SCALE :: int where "PROBABILITY_SCALE = 1000000"

definition hybridPositionPayout :: "HybridPositionShares \<Rightarrow> HybridOutcomeName \<Rightarrow> int" where
  "hybridPositionPayout position outcome =
     (if outcome = Outcome_yes then yesShares position
      else if outcome = Outcome_no then noShares position
      else if outcome = Outcome_invalid then (yesShares position + noShares position) sdiv 2
      else 0)"

definition hybridPositionStatus ::
    "HybridPhaseName \<Rightarrow> HybridOutcomeName \<Rightarrow> bool \<Rightarrow> HybridPositionShares \<Rightarrow> HybridPositionStatus" where
  "hybridPositionStatus phase outcome settled position =
     (if settled then Status_settled
      else if phase \<noteq> Hybrid_resolved then Status_phase phase
      else if hybridPositionPayout position outcome > 0 then Status_claimable else Status_lost)"

definition hybridRealizedPnl :: "int \<Rightarrow> int \<Rightarrow> int \<Rightarrow> int" where
  "hybridRealizedPnl totalSpent totalProceeds payout = totalProceeds + payout - totalSpent"

definition hybridMarkedValue :: "HybridPositionShares \<Rightarrow> int \<Rightarrow> int res" where
  "hybridMarkedValue position yesProbability =
     (if yesProbability < 0 \<or> yesProbability > PROBABILITY_SCALE
      then Inl (Error ''YES probability is outside the supported range'')
      else let noProbability = PROBABILITY_SCALE - yesProbability
           in Inr ((yesShares position * yesProbability + noShares position * noProbability)
                   sdiv PROBABILITY_SCALE))"

definition hybridMarkedPnl :: "int \<Rightarrow> int \<Rightarrow> int \<Rightarrow> int" where
  "hybridMarkedPnl totalSpent totalProceeds markedValue = totalProceeds + markedValue - totalSpent"

definition withdrawableHybridLiquidity :: "int \<Rightarrow> int \<Rightarrow> int res" where
  "withdrawableHybridLiquidity vaultBalance outstandingLiability =
     (if vaultBalance < outstandingLiability then Inl (Error ''Hybrid market vault is insolvent'')
      else Inr (vaultBalance - outstandingLiability))"

section \<open>Lemmas\<close>

lemma probability_scale_pos [simp]: "0 < PROBABILITY_SCALE" "PROBABILITY_SCALE \<noteq> 0"
  by (simp_all add: PROBABILITY_SCALE_def)

text \<open>All the positions of a market together are paid at most what their total is paid.\<close>

definition sum_position :: "HybridPositionShares list \<Rightarrow> HybridPositionShares" where
  "sum_position ps = \<lparr>yesShares = sum_list (map yesShares ps), noShares = sum_list (map noShares ps)\<rparr>"

definition nonneg_position :: "HybridPositionShares \<Rightarrow> bool" where
  "nonneg_position p \<longleftrightarrow> 0 \<le> yesShares p \<and> 0 \<le> noShares p"

lemma sum_half_le: "(\<Sum>x\<leftarrow>xs. f x div 2) \<le> (\<Sum>x\<leftarrow>xs. f x) div (2::int)"
proof (induction xs)
  case (Cons x xs)
  have "a div 2 + b div 2 \<le> (a + b) div (2::int)" for a b by presburger
  with Cons show ?case by (smt (verit, best) list.simps(9) sum_list.Cons)
qed simp

lemma payouts_le_total:
  assumes "\<forall>p\<in>set ps. nonneg_position p"
  shows "(\<Sum>p\<leftarrow>ps. hybridPositionPayout p out) \<le> hybridPositionPayout (sum_position ps) out"
proof (cases out)
  case Outcome_invalid
  have nn: "0 \<le> yesShares (sum_position ps)" "0 \<le> noShares (sum_position ps)"
    using assms by (auto simp: sum_position_def nonneg_position_def intro!: sum_list_nonneg)
  have "(\<Sum>p\<leftarrow>ps. hybridPositionPayout p out) = (\<Sum>p\<leftarrow>ps. (yesShares p + noShares p) div 2)"
    using assms Outcome_invalid
    by (intro arg_cong [where f = sum_list] map_cong)
      (auto simp: hybridPositionPayout_def nonneg_position_def)
  also have "\<dots> \<le> (\<Sum>p\<leftarrow>ps. yesShares p + noShares p) div 2" by (rule sum_half_le)
  also have "\<dots> = hybridPositionPayout (sum_position ps) out"
    using Outcome_invalid nn
    by (simp add: hybridPositionPayout_def sum_position_def sum_list_addf)
  finally show ?thesis .
qed (simp_all add: hybridPositionPayout_def sum_position_def)

lemma payout_le_max:
  assumes "nonneg_position p"
  shows "hybridPositionPayout p out \<le> max (yesShares p) (noShares p)"
  using assms by (cases out) (auto simp: hybridPositionPayout_def nonneg_position_def)

lemma hybridMarkedValue_InrD:
  assumes "hybridMarkedValue p q = Inr v" "nonneg_position p"
  shows "0 \<le> q" "q \<le> PROBABILITY_SCALE"
    and "v = (yesShares p * q + noShares p * (PROBABILITY_SCALE - q)) div PROBABILITY_SCALE"
  using assms by (auto simp: hybridMarkedValue_def nonneg_position_def Let_def split: if_splits)

lemma marked_between:
  assumes "hybridMarkedValue p q = Inr v" "nonneg_position p"
  shows "min (yesShares p) (noShares p) \<le> v" "v \<le> max (yesShares p) (noShares p)"
proof -
  let ?S = PROBABILITY_SCALE and ?m = "min (yesShares p) (noShares p)"
    and ?M = "max (yesShares p) (noShares p)"
  note d = hybridMarkedValue_InrD [OF assms]
  have "?m * q \<le> yesShares p * q" "?m * (?S - q) \<le> noShares p * (?S - q)"
    "yesShares p * q \<le> ?M * q" "noShares p * (?S - q) \<le> ?M * (?S - q)"
    using d by (auto intro!: mult_right_mono)
  moreover have "?m * q + ?m * (?S - q) = ?m * ?S" "?M * q + ?M * (?S - q) = ?M * ?S"
    by (simp_all add: algebra_simps)
  ultimately have l: "?m * ?S \<le> yesShares p * q + noShares p * (?S - q)"
    and u: "yesShares p * q + noShares p * (?S - q) \<le> ?M * ?S" by linarith+
  show "?m \<le> v" unfolding d(3) using zdiv_mono1 [OF l, of ?S] by simp
  show "v \<le> ?M" unfolding d(3) using zdiv_mono1 [OF u, of ?S] by simp
qed

section \<open>Properties\<close>

text \<open>
  The marked value of a position is a price: it lies between the smaller and the larger
  of its two payouts, is the exact payout when the probability is certain, and at even odds equals
  the payout of an invalid market.
\<close>

theorem marked_value_prices_payouts:
  assumes "nonneg_position p" "hybridMarkedValue p q = Inr v"
  shows "min (hybridPositionPayout p Outcome_yes) (hybridPositionPayout p Outcome_no) \<le> v
    \<and> v \<le> max (hybridPositionPayout p Outcome_yes) (hybridPositionPayout p Outcome_no)
    \<and> (q = PROBABILITY_SCALE \<longrightarrow> v = hybridPositionPayout p Outcome_yes)
    \<and> (q = 0 \<longrightarrow> v = hybridPositionPayout p Outcome_no)
    \<and> (2 * q = PROBABILITY_SCALE \<longrightarrow> v = hybridPositionPayout p Outcome_invalid)"
proof -
  note d = hybridMarkedValue_InrD [OF assms(2,1)] and b = marked_between [OF assms(2,1)]
  have "v = (yesShares p + noShares p) div 2" if "2 * q = PROBABILITY_SCALE"
  proof -
    have "yesShares p * q + noShares p * (PROBABILITY_SCALE - q) = (yesShares p + noShares p) * q"
      using that by (simp add: algebra_simps)
    moreover have "(yesShares p + noShares p) * q div (2 * q) = (yesShares p + noShares p) div 2"
      using that probability_scale_pos by (metis div_mult_mult2 less_irrefl mult_zero_right)
    ultimately show ?thesis unfolding d(3) by (simp only: that)
  qed
  with d b assms(1) show ?thesis
    by (auto simp: hybridPositionPayout_def nonneg_position_def)
qed

theorem marked_value_prices_payouts_witness:
  "hybridMarkedValue \<lparr>yesShares = 7000001, noShares = 2000000\<rparr> 500000 = Inr 4500000
   \<and> hybridPositionPayout \<lparr>yesShares = 7000001, noShares = 2000000\<rparr> Outcome_invalid = 4500000
   \<and> (2000000 :: int) \<le> 4500000"
proof -
  have n: "nonneg_position \<lparr>yesShares = 7000001, noShares = 2000000\<rparr>"
    by (simp add: nonneg_position_def)
  have v: "hybridMarkedValue \<lparr>yesShares = 7000001, noShares = 2000000\<rparr> 500000 = Inr 4500000"
    by code_simp
  show ?thesis
    using marked_value_prices_payouts [OF n v] v by (simp add: PROBABILITY_SCALE_def)
qed

end
