(* ===== verification/Commitments.thy ===== *)
theory Commitments
  imports JsText "HOL-Library.Countable"
begin

text \<open>
  Order commitments and the commitment tree: \<open>client/src/commitments.ts\<close>, the tree root of
  \<open>client/src/committee.ts\<close>, and the browser's own copy of the tree with inclusion paths in
  \<open>web/lib/crypto.ts\<close>.  The Poseidon hash of the package \<open>poseidon-lite\<close> is the parameter
  \<open>H\<close> of every definition; nothing is assumed about it.

  The abstract specification is the complete binary tree of depth sixteen over the leaves padded
  with zeros (\<open>tree_node\<close>).  The lemmas show that both implementations compute its root level
  by level, that the browser's paths lead to it, and that an opening under
  a root is the committed order when \<open>H\<close> has no collision among the pairs it is applied to there.
\<close>

section \<open>Commitments\<close>

type_synonym hash2 = "int \<Rightarrow> int \<Rightarrow> int"

definition TREE_DEPTH :: nat where "TREE_DEPTH = 16"

definition orderCommitment :: "hash2 \<Rightarrow> int \<Rightarrow> int \<Rightarrow> int \<Rightarrow> bool \<Rightarrow> int \<Rightarrow> int \<Rightarrow> int" where
  "orderCommitment H marketId stakeAmount amount side secret nullifier =
     (let ctxt = H marketId stakeAmount;
          position = H amount (if side then 1 else 0)
      in H ctxt (H position (H secret nullifier)))"

definition shareCommitment :: "hash2 \<Rightarrow> int \<Rightarrow> int \<Rightarrow> int \<Rightarrow> int \<Rightarrow> int" where
  "shareCommitment H sideShare yesAmountShare totalAmountShare salt =
     H (H sideShare yesAmountShare) (H totalAmountShare salt)"

definition nullifierHash :: "hash2 \<Rightarrow> int \<Rightarrow> int \<Rightarrow> int" where
  "nullifierHash H marketId nullifier = H marketId nullifier"

fun merkleFold :: "hash2 \<Rightarrow> int \<Rightarrow> (bool \<times> int) list \<Rightarrow> int" where
  "merkleFold H current [] = current"
| "merkleFold H current ((isRight, sibling) # ps) =
     merkleFold H (if isRight then H sibling current else H current sibling) ps"

definition merkleRoot :: "hash2 \<Rightarrow> int \<Rightarrow> bool list \<Rightarrow> int list \<Rightarrow> int res" where
  "merkleRoot H leaf pathBits siblings =
     (if length pathBits \<noteq> TREE_DEPTH \<or> length siblings \<noteq> TREE_DEPTH
      then Inl (Error ''expected Merkle depth 16'')
      else Inr (merkleFold H leaf (zip pathBits siblings)))"

definition fieldHex :: "int \<Rightarrow> string res" where
  "fieldHex value =
     (if value < 0 then Inl (Error ''field values cannot be negative'')
      else Inr (''0x'' @ padStart 64 CHR ''0'' (toString_radix 16 value)))"

section \<open>The tree root in the committee client\<close>

definition zeroStep :: "hash2 \<Rightarrow> int list \<Rightarrow> nat \<Rightarrow> int list res" where
  "zeroStep H values level =
     (if level < length values then Inr (values @ [H (values ! level) (values ! level)])
      else Inl (Error ''missing zero hash''))"

definition zeroHashes :: "hash2 \<Rightarrow> int list res" where
  "zeroHashes H = rfold (zeroStep H) [0] [0..<TREE_DEPTH]"

text \<open>\<open>Math.max(1, Math.ceil(n / 2))\<close> and one level of parents.\<close>

definition parentCount :: "nat \<Rightarrow> nat" where
  "parentCount n = max 1 ((n + 1) div 2)"

definition parentLevel :: "hash2 \<Rightarrow> int \<Rightarrow> int list \<Rightarrow> int list" where
  "parentLevel H zero levelNodes =
     map (\<lambda>index. H (at_or levelNodes (index * 2) zero) (at_or levelNodes (index * 2 + 1) zero))
       [0..<parentCount (length levelNodes)]"

definition rootStep :: "hash2 \<Rightarrow> int list \<Rightarrow> int list \<Rightarrow> nat \<Rightarrow> int list res" where
  "rootStep H zeros levelNodes level =
     (if level < length zeros then Inr (parentLevel H (zeros ! level) levelNodes)
      else Inl (Error ''missing zero hash''))"

definition commitmentRoot :: "hash2 \<Rightarrow> int list \<Rightarrow> int res" where
  "commitmentRoot H leaves =
     (if length leaves > 2 ^ TREE_DEPTH then Inl (Error ''tree supports at most 65536 commitments'')
      else rbind (zeroHashes H) (\<lambda>zeros.
           rbind (rfold (rootStep H zeros) leaves [0..<TREE_DEPTH]) (\<lambda>levelNodes.
           if levelNodes \<noteq> [] then Inr (levelNodes ! 0)
           else if TREE_DEPTH < length zeros then Inr (zeros ! TREE_DEPTH)
           else Inl (Error ''missing commitment root''))))"

section \<open>The tree and its paths in the browser\<close>

definition bigEndianInteger :: "byte list \<Rightarrow> int" where
  "bigEndianInteger bytes = foldl (\<lambda>value b. or (push_bit 8 value) (uint b)) 0 bytes"

definition littleEndianInteger :: "byte list \<Rightarrow> int" where
  "littleEndianInteger bytes = foldl (\<lambda>value b. or (push_bit 8 value) (uint b)) 0 (rev bytes)"

datatype FieldValue = FieldBytes "byte list" | FieldText string

fun fieldBigInt :: "FieldValue \<Rightarrow> int res" where
  "fieldBigInt (FieldText value) = js_BigInt value"
| "fieldBigInt (FieldBytes value) = Inr (bigEndianInteger value)"

definition web_fieldHex :: "int \<Rightarrow> string" where
  "web_fieldHex value = ''0x'' @ padStart 64 CHR ''0'' (toString_radix 16 value)"

definition solanaPublicKeyHash :: "hash2 \<Rightarrow> byte list \<Rightarrow> int res" where
  "solanaPublicKeyHash H bytes =
     (if length bytes \<noteq> 32 then Inl (Error ''Solana public key must contain 32 bytes'')
      else Inr (H (littleEndianInteger (take 16 bytes)) (littleEndianInteger (drop 16 bytes))))"

definition web_zeroHashes :: "hash2 \<Rightarrow> int list" where
  "web_zeroHashes H =
     foldl (\<lambda>values level. values @ [H (at_or values level 0) (at_or values level 0)])
       [0] [0..<TREE_DEPTH]"

record CommitmentPath =
  pathBits :: "bool list"
  siblings :: "int list"
  path_root :: int

definition pathStep ::
    "hash2 \<Rightarrow> int list \<Rightarrow> bool list \<times> int list \<times> nat \<times> int list \<Rightarrow> nat
     \<Rightarrow> bool list \<times> int list \<times> nat \<times> int list" where
  "pathStep H zeros st level =
     (case st of (bits, sibs, index, levelNodes) \<Rightarrow>
        let isRight = (index mod 2 = 1);
            zero = at_or zeros level 0;
            sibling = at_or levelNodes (if isRight then index - 1 else index + 1) zero
        in (bits @ [isRight], sibs @ [sibling], index div 2, parentLevel H zero levelNodes))"

definition commitmentPath :: "hash2 \<Rightarrow> int list \<Rightarrow> jsnum \<Rightarrow> CommitmentPath res" where
  "commitmentPath H leaves leafIndex =
     (if leafIndex = JNonInt \<or> num_int leafIndex < 0 \<or> num_int leafIndex \<ge> int (length leaves)
      then Inl (Error ''Commitment is not present in the market batch'')
      else if length leaves > 2 ^ TREE_DEPTH
      then Inl (Error ''Market commitment tree exceeds the circuit depth'')
      else let zeros = web_zeroHashes H
           in case foldl (pathStep H zeros) ([], [], nat (num_int leafIndex), leaves) [0..<TREE_DEPTH]
              of (bits, sibs, index, levelNodes) \<Rightarrow>
                Inr \<lparr>pathBits = bits, siblings = sibs,
                     path_root = at_or levelNodes 0 (at_or zeros TREE_DEPTH 0)\<rparr>)"

section \<open>Random field elements\<close>

definition BN254_SCALAR_MODULUS :: int where
  "BN254_SCALAR_MODULUS =
     21888242871839275222246405745257275088548364400416034343698204186575808495617"

text \<open>
  The rejection loop of \<open>randomFieldHex\<close>.  \<open>draws i\<close> is the \<open>i\<close>-th buffer the browser's
  generator fills; the loop need not end, so not returning is \<open>None\<close>, and the result carries
  the index of the next unused draw.
\<close>

partial_function (option) randomLoop :: "(nat \<Rightarrow> byte list) \<Rightarrow> nat \<Rightarrow> (string \<times> nat) option" where
  "randomLoop draws i =
     (let value = bigEndianInteger (draws i)
      in if 0 < value \<and> value < BN254_SCALAR_MODULUS then Some (web_fieldHex value, i + 1)
         else randomLoop draws (i + 1))"

declare randomLoop.simps [code]

definition randomFieldHex :: "bool \<Rightarrow> (nat \<Rightarrow> byte list) \<Rightarrow> nat \<Rightarrow> (string \<times> nat) res option" where
  "randomFieldHex available draws i =
     (if \<not> available then Some (Inl (Error ''Secure browser randomness is unavailable''))
      else map_option Inr (randomLoop draws i))"

record PlacementWitness =
  secret :: string
  nullifier :: string
  sideCoefficient :: string
  yesAmountCoefficient :: string
  totalAmountCoefficient :: string
  salts :: "string list"

primrec drawMany :: "bool \<Rightarrow> (nat \<Rightarrow> byte list) \<Rightarrow> nat \<Rightarrow> nat \<Rightarrow> (string list \<times> nat) res option" where
  "drawMany available draws i 0 = Some (Inr ([], i))"
| "drawMany available draws i (Suc n) =
     (case randomFieldHex available draws i of
        None \<Rightarrow> None
      | Some (Inl e) \<Rightarrow> Some (Inl e)
      | Some (Inr (x, j)) \<Rightarrow>
          (case drawMany available draws j n of
             None \<Rightarrow> None
           | Some (Inl e) \<Rightarrow> Some (Inl e)
           | Some (Inr (xs, k)) \<Rightarrow> Some (Inr (x # xs, k))))"

definition createPlacementWitness ::
    "bool \<Rightarrow> (nat \<Rightarrow> byte list) \<Rightarrow> nat \<Rightarrow> PlacementWitness res option" where
  "createPlacementWitness available draws i =
     map_option (\<lambda>r. rbind r (\<lambda>(xs, _).
       Inr \<lparr>secret = xs ! 0, nullifier = xs ! 1, sideCoefficient = xs ! 2,
            yesAmountCoefficient = xs ! 3, totalAmountCoefficient = xs ! 4,
            salts = [xs ! 5, xs ! 6, xs ! 7]\<rparr>)) (drawMany available draws i 8)"

section \<open>The complete tree\<close>

text \<open>Node \<open>i\<close> of level \<open>l\<close> in the tree over the leaves padded with zeros.\<close>

primrec tree_node :: "hash2 \<Rightarrow> int list \<Rightarrow> nat \<Rightarrow> nat \<Rightarrow> int" where
  "tree_node H leaves 0 i = at_or leaves i 0"
| "tree_node H leaves (Suc l) i =
     H (tree_node H leaves l (2 * i)) (tree_node H leaves l (2 * i + 1))"

primrec zero_at :: "hash2 \<Rightarrow> nat \<Rightarrow> int" where
  "zero_at H 0 = 0"
| "zero_at H (Suc l) = H (zero_at H l) (zero_at H l)"

text \<open>
  The pairs the hash is applied to: those of one order commitment, those of one fold along a path,
  and all those compared when an order is opened under a path against the order a batch has at the
  path's place.  Binding is stated under the assumption that the hash has no collision among these
  finitely many pairs, which a collision-resistant hash gives for every batch anybody can compute
  and which says nothing of the rest of its domain.
\<close>

type_synonym order_opening = "int \<times> int \<times> int \<times> bool \<times> int \<times> int"

definition open_commitment :: "hash2 \<Rightarrow> order_opening \<Rightarrow> int" where
  "open_commitment H = (\<lambda>(m, s, a, d, k, n). orderCommitment H m s a d k n)"

definition order_inputs :: "hash2 \<Rightarrow> order_opening \<Rightarrow> (int \<times> int) list" where
  "order_inputs H = (\<lambda>(m, s, a, d, k, n).
     let side = (if d then 1 else 0)
     in [(m, s), (a, side), (k, n), (H a side, H k n), (H m s, H (H a side) (H k n))])"

fun fold_inputs :: "hash2 \<Rightarrow> int \<Rightarrow> (bool \<times> int) list \<Rightarrow> (int \<times> int) list" where
  "fold_inputs H x [] = []"
| "fold_inputs H x ((right, s) # ps) =
     (let (a, b) = (if right then (s, x) else (x, s)) in (a, b) # fold_inputs H (H a b) ps)"

definition collision_free_on :: "hash2 \<Rightarrow> (int \<times> int) list \<Rightarrow> bool" where
  "collision_free_on H xs \<longleftrightarrow>
     list_all (\<lambda>(a, b). list_all (\<lambda>(c, d). H a b = H c d \<longrightarrow> a = c \<and> b = d) xs) xs"

section \<open>Lemmas on the tree\<close>

lemma TREE_DEPTH_pos [simp]: "TREE_DEPTH \<noteq> 0" "0 < TREE_DEPTH"
  by (simp_all add: TREE_DEPTH_def)

lemma zeroHashes_upto:
  "rfold (zeroStep H) [0] [0..<n] = Inr (map (zero_at H) [0..<Suc n])"
proof (induction n)
  case (Suc n)
  then show ?case
    by (simp only: rfold_upt_Suc rbind_Inr) (simp add: zeroStep_def nth_append)
qed simp

lemma zeroHashes_eq: "zeroHashes H = Inr (map (zero_at H) [0..<Suc TREE_DEPTH])"
  unfolding zeroHashes_def by (rule zeroHashes_upto)

lemma web_zeroHashes_upto:
  "foldl (\<lambda>values level. values @ [H (at_or values level 0) (at_or values level 0)]) [0] [0..<n]
     = map (zero_at H) [0..<Suc n]"
  by (induction n) (simp_all add: at_or_def nth_append)

lemma web_zeroHashes_eq: "web_zeroHashes H = map (zero_at H) [0..<Suc TREE_DEPTH]"
  unfolding web_zeroHashes_def by (rule web_zeroHashes_upto)

lemma tree_node_mono_zero:
  "(\<And>j. i * 2 ^ l \<le> j \<Longrightarrow> j < (i + 1) * 2 ^ l \<Longrightarrow> at_or leaves j 0 = 0)
     \<Longrightarrow> tree_node H leaves l i = zero_at H l"
proof (induction l arbitrary: i)
  case (Suc l)
  have "tree_node H leaves l (2 * i) = zero_at H l"
    by (rule Suc.IH) (use Suc.prems in \<open>auto simp: algebra_simps\<close>)
  moreover have "tree_node H leaves l (2 * i + 1) = zero_at H l"
    by (rule Suc.IH) (use Suc.prems in \<open>auto simp: algebra_simps\<close>)
  ultimately show ?case by simp
qed simp

text \<open>The nodes the code keeps at one level represent that level of the complete tree.\<close>

definition level_ok :: "hash2 \<Rightarrow> int list \<Rightarrow> nat \<Rightarrow> int list \<Rightarrow> bool" where
  "level_ok H leaves l nodes \<longleftrightarrow> (\<forall>i. at_or nodes i (zero_at H l) = tree_node H leaves l i)"

lemma level_ok_0: "level_ok H leaves 0 leaves"
  by (simp add: level_ok_def)

lemma level_ok_Suc:
  assumes "level_ok H leaves l nodes"
  shows "level_ok H leaves (Suc l) (parentLevel H (zero_at H l) nodes)"
proof -
  have "at_or (parentLevel H (zero_at H l) nodes) i (zero_at H (Suc l)) = tree_node H leaves (Suc l) i"
    for i
  proof (cases "i < parentCount (length nodes)")
    case True
    with assms show ?thesis
      by (simp add: parentLevel_def level_ok_def mult.commute)
  next
    case False
    then have "length nodes \<le> 2 * i" by (auto simp: parentCount_def)
    then have "at_or nodes (2 * i) (zero_at H l) = zero_at H l"
      "at_or nodes (2 * i + 1) (zero_at H l) = zero_at H l" by simp_all
    with False assms show ?thesis
      by (simp add: parentLevel_def level_ok_def)
  qed
  then show ?thesis by (simp add: level_ok_def)
qed

lemma length_parentLevel [simp]: "length (parentLevel H z nodes) = parentCount (length nodes)"
  by (simp add: parentLevel_def)

lemma parentCount_pos [simp]: "0 < parentCount n"
  by (simp add: parentCount_def)

lemma root_levels:
  assumes "n \<le> TREE_DEPTH"
  shows "\<exists>nodes. rfold (rootStep H (map (zero_at H) [0..<Suc TREE_DEPTH])) leaves [0..<n] = Inr nodes
    \<and> level_ok H leaves n nodes \<and> (0 < n \<longrightarrow> nodes \<noteq> [])"
  using assms
proof (induction n)
  case 0
  then show ?case by (simp add: level_ok_0)
next
  case (Suc n)
  then obtain nodes where IH: "rfold (rootStep H (map (zero_at H) [0..<Suc TREE_DEPTH])) leaves [0..<n] = Inr nodes" "level_ok H leaves n nodes"
    by auto
  have "map (zero_at H) [0..<Suc TREE_DEPTH] ! n = zero_at H n"
    using Suc.prems by (subst nth_map) (simp_all del: upt_Suc)
  moreover have "parentLevel H z nodes \<noteq> []" for z
    using length_parentLevel parentCount_pos by (metis length_0_conv less_irrefl)
  ultimately show ?case
    using IH(1) level_ok_Suc [OF IH(2)] Suc.prems
    by (simp only: rfold_upt_Suc rbind_Inr) (simp add: rootStep_def del: upt_Suc)
qed

lemma commitmentRoot_tree:
  assumes "length leaves \<le> 2 ^ TREE_DEPTH"
  shows "commitmentRoot H leaves = Inr (tree_node H leaves TREE_DEPTH 0)"
proof -
  obtain nodes where n: "rfold (rootStep H (map (zero_at H) [0..<Suc TREE_DEPTH])) leaves [0..<TREE_DEPTH] = Inr nodes"
    "level_ok H leaves TREE_DEPTH nodes" "nodes \<noteq> []"
    using root_levels [of TREE_DEPTH H leaves] by auto
  from n(2,3) have "nodes ! 0 = tree_node H leaves TREE_DEPTH 0"
    unfolding level_ok_def by (metis at_or_in length_greater_0_conv)
  with n assms show ?thesis
    unfolding commitmentRoot_def zeroHashes_eq by (simp del: upt_Suc)
qed

subsection \<open>Paths\<close>

text \<open>The path of leaf \<open>i\<close> as the tree gives it.\<close>

definition tree_bit :: "nat \<Rightarrow> nat \<Rightarrow> bool" where
  "tree_bit i l \<longleftrightarrow> i div 2 ^ l mod 2 = 1"

definition tree_sibling :: "hash2 \<Rightarrow> int list \<Rightarrow> nat \<Rightarrow> nat \<Rightarrow> int" where
  "tree_sibling H leaves i l =
     (let k = i div 2 ^ l in tree_node H leaves l (if k mod 2 = 1 then k - 1 else k + 1))"

lemma path_levels:
  assumes "n \<le> TREE_DEPTH"
  shows "\<exists>nodes. foldl (pathStep H (map (zero_at H) [0..<Suc TREE_DEPTH])) ([], [], i, leaves) [0..<n]
      = (map (tree_bit i) [0..<n], map (tree_sibling H leaves i) [0..<n], i div 2 ^ n, nodes)
    \<and> level_ok H leaves n nodes \<and> (0 < n \<longrightarrow> nodes \<noteq> [])"
  using assms
proof (induction n)
  case 0
  then show ?case by (simp add: level_ok_0)
next
  case (Suc n)
  then obtain nodes where IH: "foldl (pathStep H (map (zero_at H) [0..<Suc TREE_DEPTH]))
      ([], [], i, leaves) [0..<n]
      = (map (tree_bit i) [0..<n], map (tree_sibling H leaves i) [0..<n], i div 2 ^ n, nodes)"
    "level_ok H leaves n nodes" by auto
  have z: "at_or (map (zero_at H) [0..<Suc TREE_DEPTH]) n 0 = zero_at H n"
    using Suc.prems by (subst at_or_in) (simp_all del: upt_Suc)
  have s: "at_or nodes k (zero_at H n) = tree_node H leaves n k" for k
    using IH(2) by (simp add: level_ok_def)
  have "i div 2 ^ n div 2 = i div 2 ^ Suc n"
    by (simp add: div_mult2_eq [symmetric] mult.commute)
  then have p: "pathStep H (map (zero_at H) [0..<Suc TREE_DEPTH]) (map (tree_bit i) [0..<n],
      map (tree_sibling H leaves i) [0..<n], i div 2 ^ n, nodes) n
    = (map (tree_bit i) [0..<Suc n], map (tree_sibling H leaves i) [0..<Suc n], i div 2 ^ Suc n,
       parentLevel H (zero_at H n) nodes)"
    unfolding pathStep_def prod.case z
    by (simp add: s tree_bit_def tree_sibling_def Let_def)
  have u: "foldl f s [0..<Suc n] = f (foldl f s [0..<n]) n" for f :: "'z \<Rightarrow> nat \<Rightarrow> 'z" and s by simp
  have "foldl (pathStep H (map (zero_at H) [0..<Suc TREE_DEPTH])) ([], [], i, leaves) [0..<Suc n]
    = (map (tree_bit i) [0..<Suc n], map (tree_sibling H leaves i) [0..<Suc n], i div 2 ^ Suc n,
       parentLevel H (zero_at H n) nodes)" unfolding u IH(1) by (rule p)
  moreover have "parentLevel H (zero_at H n) nodes \<noteq> []"
    by (simp add: parentLevel_def)
  ultimately show ?case using level_ok_Suc [OF IH(2)] by blast
qed

lemma commitmentPath_eq:
  assumes "i < length leaves" "length leaves \<le> 2 ^ TREE_DEPTH"
  shows "commitmentPath H leaves (JInt (int i)) = Inr \<lparr>pathBits = map (tree_bit i) [0..<TREE_DEPTH],
     siblings = map (tree_sibling H leaves i) [0..<TREE_DEPTH],
     path_root = tree_node H leaves TREE_DEPTH 0\<rparr>"
proof -
  obtain nodes where n: "foldl (pathStep H (map (zero_at H) [0..<Suc TREE_DEPTH]))
      ([], [], i, leaves) [0..<TREE_DEPTH]
      = (map (tree_bit i) [0..<TREE_DEPTH], map (tree_sibling H leaves i) [0..<TREE_DEPTH],
         i div 2 ^ TREE_DEPTH, nodes)"
    "level_ok H leaves TREE_DEPTH nodes" "nodes \<noteq> []"
    using path_levels [of TREE_DEPTH H i leaves] by auto
  from n(2,3) have "at_or nodes 0 z = tree_node H leaves TREE_DEPTH 0" for z
    unfolding level_ok_def by (metis at_or_in length_greater_0_conv)
  with n assms show ?thesis
    unfolding commitmentPath_def web_zeroHashes_eq by (simp add: Let_def del: upt_Suc)
qed

text \<open>Folding the first \<open>l\<close> levels of the path of leaf \<open>i\<close> reaches its ancestor.\<close>

lemma merkleFold_append: "merkleFold H c (ps @ qs) = merkleFold H (merkleFold H c ps) qs"
  by (induction H c ps rule: merkleFold.induct) auto

lemma merkleFold_path:
  "merkleFold H (at_or leaves i 0) (map (\<lambda>l. (tree_bit i l, tree_sibling H leaves i l)) [0..<n])
     = tree_node H leaves n (i div 2 ^ n)"
proof (induction n)
  case (Suc n)
  define k where "k = i div 2 ^ n"
  have k: "i div (2 * 2 ^ n) = k div 2" by (simp add: k_def div_mult2_eq [symmetric] mult.commute)
  show ?case
  proof (cases "k mod 2 = 1")
    case True
    then have "2 * (k div 2) = k - 1" "2 * (k div 2) + 1 = k" by presburger+
    with Suc True show ?thesis
      by (simp add: merkleFold_append tree_bit_def tree_sibling_def k k_def [symmetric])
  next
    case False
    then have "2 * (k div 2) = k" by presburger
    with Suc False show ?thesis
      by (simp add: merkleFold_append tree_bit_def tree_sibling_def k k_def [symmetric])
  qed
qed simp

lemma merkleRoot_path:
  assumes "i < length leaves" "length leaves \<le> 2 ^ TREE_DEPTH"
  shows "merkleRoot H (leaves ! i) (map (tree_bit i) [0..<TREE_DEPTH])
     (map (tree_sibling H leaves i) [0..<TREE_DEPTH]) = Inr (tree_node H leaves TREE_DEPTH 0)"
proof -
  have "i div 2 ^ TREE_DEPTH = 0" using assms by simp
  with merkleFold_path [of H leaves i TREE_DEPTH] assms(1) show ?thesis
    by (simp add: merkleRoot_def zip_map_map map_zip_map zip_same_conv_map comp_def split_def)
qed

subsection \<open>Binding\<close>

lemma collision_free_onD:
  "collision_free_on H xs \<Longrightarrow> (a, b) \<in> set xs \<Longrightarrow> (c, d) \<in> set xs \<Longrightarrow> H a b = H c d \<Longrightarrow> a = c \<and> b = d"
  by (fastforce simp: collision_free_on_def list_all_iff)

lemma collision_free_on_mono: "collision_free_on H xs \<Longrightarrow> set ys \<subseteq> set xs \<Longrightarrow> collision_free_on H ys"
  by (fastforce simp: collision_free_on_def list_all_iff)

lemma injective_collision_free: "inj (\<lambda>(a, b). H a b) \<Longrightarrow> collision_free_on H xs"
proof -
  assume inj: "inj (\<lambda>(a, b). H a b)"
  have "a = c \<and> b = d" if "H a b = H c d" for a b c d
    using injD [OF inj, of "(a, b)" "(c, d)"] that by simp
  then show ?thesis unfolding collision_free_on_def list_all_iff by blast
qed

lemma merkleFold_binding:
  assumes "collision_free_on H (fold_inputs H x (zip bs ss) @ fold_inputs H y (zip bs ts))"
    and "merkleFold H x (zip bs ss) = merkleFold H y (zip bs ts)"
    and "length ss = length bs" "length ts = length bs"
  shows "x = y \<and> ss = ts"
  using assms
proof (induction bs arbitrary: x y ss ts)
  case (Cons b bs)
  obtain s ss' t ts' where st: "ss = s # ss'" "ts = t # ts'"
    using Cons.prems(3,4) by (metis length_Suc_conv)
  let ?x = "if b then H s x else H x s" and ?y = "if b then H t y else H y t"
  have "collision_free_on H (fold_inputs H ?x (zip bs ss') @ fold_inputs H ?y (zip bs ts'))"
    by (rule collision_free_on_mono [OF Cons.prems(1)]) (auto simp: st Let_def)
  with Cons.prems st have "?x = ?y \<and> ss' = ts'" by (intro Cons.IH) simp_all
  then have eq: "?x = ?y" "ss' = ts'" by simp_all
  have "x = y \<and> s = t"
  proof (cases b)
    case True
    have "s = t \<and> x = y"
      by (rule collision_free_onD [OF Cons.prems(1)]) (use eq True in \<open>simp_all add: st Let_def\<close>)
    then show ?thesis by simp
  next
    case False
    show ?thesis
      by (rule collision_free_onD [OF Cons.prems(1)]) (use eq False in \<open>simp_all add: st Let_def\<close>)
  qed
  with eq st show ?case by simp
qed simp

text \<open>The leaf index a list of path bits stands for, lowest bit first.\<close>

primrec bits_index :: "bool list \<Rightarrow> nat" where
  "bits_index [] = 0"
| "bits_index (b # bs) = (if b then 1 else 0) + 2 * bits_index bs"

lemma bits_index_bound: "bits_index bs < 2 ^ length bs"
  by (induction bs) auto

lemma tree_bit_Suc: "tree_bit i (Suc l) = tree_bit (i div 2) l"
  by (simp add: tree_bit_def div_mult2_eq)

lemma tree_bit_bits_index: "l < length bs \<Longrightarrow> tree_bit (bits_index bs) l = bs ! l"
proof (induction bs arbitrary: l)
  case (Cons b bs)
  have "bits_index (b # bs) div 2 = bits_index bs" "bits_index (b # bs) mod 2 = (if b then 1 else 0)"
    by auto
  with Cons show ?case
    by (cases l) (simp_all add: tree_bit_Suc, simp add: tree_bit_def)
qed simp

lemma bits_index_tree_bits: "i < 2 ^ n \<Longrightarrow> bits_index (map (tree_bit i) [0..<n]) = i"
proof (induction n arbitrary: i)
  case (Suc n)
  then have "bits_index (map (tree_bit (i div 2)) [0..<n]) = i div 2" by simp
  moreover have "map (tree_bit i) [0..<Suc n] = tree_bit i 0 # map (tree_bit (i div 2)) [0..<n]"
    by (simp add: upt_conv_Cons map_Suc_upt [symmetric] tree_bit_Suc del: upt_Suc)
  moreover have "tree_bit i 0 \<longleftrightarrow> i mod 2 = 1" by (simp add: tree_bit_def)
  ultimately show ?case by (simp del: upt_Suc) presburger
qed simp

lemma bits_of_index: "map (tree_bit (bits_index bs)) [0..<length bs] = bs"
  by (rule nth_equalityI) (simp_all add: tree_bit_bits_index)

text \<open>All the pairs hashed when \<open>opened\<close> is shown with a path against the batch \<open>orders\<close>.\<close>

definition opening_inputs ::
    "hash2 \<Rightarrow> order_opening list \<Rightarrow> order_opening \<Rightarrow> bool list \<Rightarrow> int list \<Rightarrow> (int \<times> int) list" where
  "opening_inputs H orders opened bs ss =
     (let i = bits_index bs; leaves = map (open_commitment H) orders; committed = orders ! i
      in order_inputs H opened @ order_inputs H committed
       @ fold_inputs H (open_commitment H opened) (zip bs ss)
       @ fold_inputs H (open_commitment H committed) (zip bs (map (tree_sibling H leaves i) [0..<TREE_DEPTH])))"

lemma order_binding:
  assumes "collision_free_on H (order_inputs H x @ order_inputs H y)"
    and "open_commitment H x = open_commitment H y"
  shows "x = y"
proof -
  obtain m s a d k n m' s' a' d' k' n' where xy: "x = (m, s, a, d, k, n)" "y = (m', s', a', d', k', n')"
    by (metis prod.exhaust)
  let ?d = "if d then 1 else 0 :: int" and ?d' = "if d' then 1 else 0 :: int"
  note eq = collision_free_onD [OF assms(1)]
  have "H (H m s) (H (H a ?d) (H k n)) = H (H m' s') (H (H a' ?d') (H k' n'))"
    using assms(2) by (simp add: xy open_commitment_def orderCommitment_def Let_def)
  then have o: "H m s = H m' s' \<and> H (H a ?d) (H k n) = H (H a' ?d') (H k' n')"
    by (intro eq) (simp_all add: xy order_inputs_def Let_def)
  then have i: "H a ?d = H a' ?d' \<and> H k n = H k' n'"
    by (intro eq) (simp_all add: xy order_inputs_def Let_def)
  have "m = m' \<and> s = s'" using o by (intro eq) (simp_all add: xy order_inputs_def Let_def)
  moreover have "a = a' \<and> ?d = ?d'" using i by (intro eq) (simp_all add: xy order_inputs_def Let_def)
  moreover have "k = k' \<and> n = n'" using i by (intro eq) (simp_all add: xy order_inputs_def Let_def)
  ultimately show ?thesis by (simp add: xy split: if_splits)
qed

lemma zip_map_map_same: "zip (map f xs) (map g xs) = map (\<lambda>x. (f x, g x)) xs"
  by (induction xs) simp_all

text \<open>Along the bits of a path, the tree folds its own leaf to the root.\<close>

lemma merkleFold_tree_bits:
  assumes "length bs = TREE_DEPTH" "i = bits_index bs" "i < length leaves"
  shows "merkleFold H (leaves ! i) (zip bs (map (tree_sibling H leaves i) [0..<TREE_DEPTH]))
     = tree_node H leaves TREE_DEPTH 0"
proof -
  have "i div 2 ^ TREE_DEPTH = 0" using bits_index_bound [of bs] assms by simp
  moreover have "zip bs (map (tree_sibling H leaves i) [0..<TREE_DEPTH])
      = map (\<lambda>l. (tree_bit i l, tree_sibling H leaves i l)) [0..<TREE_DEPTH]"
    using bits_of_index [of bs] assms(1,2)
    by (metis zip_map_map_same)
  ultimately show ?thesis using merkleFold_path [of H leaves i TREE_DEPTH] assms(3) by simp
qed

lemma included_order:
  assumes "collision_free_on H (opening_inputs H orders opened bs ss)"
    and "commitmentRoot H (map (open_commitment H) orders) = Inr r"
    and "merkleRoot H (open_commitment H opened) bs ss = Inr r"
    and "bits_index bs < length orders"
  shows "orders ! bits_index bs = opened"
proof -
  define i where "i = bits_index bs"
  define leaves where "leaves = map (open_commitment H) orders"
  define ts where "ts = map (tree_sibling H leaves i) [0..<TREE_DEPTH]"
  have inputs: "opening_inputs H orders opened bs ss = order_inputs H opened @ order_inputs H (orders ! i)
      @ fold_inputs H (open_commitment H opened) (zip bs ss)
      @ fold_inputs H (open_commitment H (orders ! i)) (zip bs ts)"
    by (simp add: opening_inputs_def Let_def i_def leaves_def ts_def)
  note free = collision_free_on_mono [OF assms(1) [unfolded inputs]]
  from assms(3) have len: "length bs = TREE_DEPTH" "length ss = TREE_DEPTH"
    and f: "merkleFold H (open_commitment H opened) (zip bs ss) = r"
    by (auto simp: merkleRoot_def split: if_splits)
  have "length leaves \<le> 2 ^ TREE_DEPTH"
    using assms(2) by (auto simp: leaves_def commitmentRoot_def split: if_splits)
  then have "r = tree_node H leaves TREE_DEPTH 0" using assms(2) commitmentRoot_tree by (simp add: leaves_def)
  moreover have "leaves ! i = open_commitment H (orders ! i)" using assms(4) by (simp add: leaves_def i_def)
  ultimately have g: "merkleFold H (open_commitment H (orders ! i)) (zip bs ts) = r"
    using merkleFold_tree_bits [OF len(1) i_def, of leaves H] assms(4) by (simp add: leaves_def i_def ts_def)
  have "open_commitment H opened = open_commitment H (orders ! i) \<and> ss = ts"
  proof (rule merkleFold_binding [where H = H and bs = bs])
    show "collision_free_on H (fold_inputs H (open_commitment H opened) (zip bs ss)
        @ fold_inputs H (open_commitment H (orders ! i)) (zip bs ts))" by (rule free) auto
    show "merkleFold H (open_commitment H opened) (zip bs ss) = merkleFold H (open_commitment H (orders ! i)) (zip bs ts)"
      using f g by simp
  qed (simp_all add: len ts_def)
  then have o: "open_commitment H opened = open_commitment H (orders ! i)" ..
  have "collision_free_on H (order_inputs H opened @ order_inputs H (orders ! i))" by (rule free) auto
  from order_binding [OF this o] have "opened = orders ! i" .
  then show ?thesis by (simp add: i_def)
qed

section \<open>Lemmas on field elements\<close>

lemma or_push_bit_8:
  assumes "0 \<le> b" "b < 256"
  shows "or (push_bit 8 v) b = v * 256 + (b::int)"
proof -
  have "and (push_bit 8 v) b = 0"
  proof (rule bit_eqI)
    fix n
    have "\<not> bit b n" if "8 \<le> n"
    proof -
      have "b div 2 ^ n = 0" using assms that power_increasing [of 8 n "2::int"] by simp
      then show ?thesis by (simp add: bit_iff_odd)
    qed
    then show "bit (and (push_bit 8 v) b) n = bit (0::int) n"
      by (auto simp: bit_simps not_less)
  qed
  then show ?thesis
    by (simp add: disjunctive_add_eq_or [symmetric] push_bit_eq_mult)
qed

lemma fold_bytes:
  "foldl (\<lambda>value b. or (push_bit 8 value) (uint (b::byte))) v bs
     = v * 256 ^ length bs + le_bytes_int (rev bs)"
proof (induction bs rule: rev_induct)
  case (snoc b bs)
  have "uint b < 256" using uint_lt2p [of b] by simp
  with snoc show ?case by (simp add: or_push_bit_8 algebra_simps)
qed simp

lemma bigEndianInteger_eq: "bigEndianInteger bs = le_bytes_int (rev bs)"
  by (simp add: bigEndianInteger_def fold_bytes)

lemma littleEndianInteger_eq: "littleEndianInteger bs = le_bytes_int bs"
  by (simp add: littleEndianInteger_def fold_bytes)

lemma BN254_pos [simp]: "0 < BN254_SCALAR_MODULUS"
  by (simp add: BN254_SCALAR_MODULUS_def)

lemma web_fieldHex_value:
  assumes "0 \<le> v"
  shows "js_BigInt (web_fieldHex v) = Inr v"
proof -
  have "is_radix_digit 16 CHR ''0''" by code_simp
  then have "all_digits 16 (padStart 64 CHR ''0'' (radix_str 16 v))"
    using assms by (intro all_digits_padStart radix_str_digits) auto
  with assms show ?thesis
    by (simp add: web_fieldHex_def toString_radix_def js_BigInt_hex [simplified])
qed

lemma web_fieldHex_length:
  assumes "0 \<le> v" "v < 2 ^ 256"
  shows "length (web_fieldHex v) = 66"
proof -
  have "length (radix_str 16 v) \<le> 64" using assms by (intro length_radix_str) auto
  with assms show ?thesis by (simp add: web_fieldHex_def toString_radix_def padStart_def)
qed

lemma fieldHex_web: "0 \<le> v \<Longrightarrow> fieldHex v = Inr (web_fieldHex v)"
  by (simp add: fieldHex_def web_fieldHex_def)

definition good_draw :: "byte list \<Rightarrow> bool" where
  "good_draw bs \<longleftrightarrow> 0 < bigEndianInteger bs \<and> bigEndianInteger bs < BN254_SCALAR_MODULUS"

lemma randomLoop_step:
  "randomLoop draws i = (if good_draw (draws i) then Some (web_fieldHex (bigEndianInteger (draws i)), i + 1)
     else randomLoop draws (i + 1))"
  by (subst randomLoop.simps) (simp add: good_draw_def Let_def)

lemma randomLoop_finds:
  assumes "good_draw (draws (i + n))" "\<forall>k<n. \<not> good_draw (draws (i + k))"
  shows "randomLoop draws i = Some (web_fieldHex (bigEndianInteger (draws (i + n))), i + n + 1)"
  using assms
proof (induction n arbitrary: i)
  case (Suc n)
  then have "\<not> good_draw (draws i)" by (metis add_0_right zero_less_Suc)
  moreover have "\<forall>k<n. \<not> good_draw (draws (Suc i + k))" using Suc.prems(2) by auto
  ultimately show ?case
    using Suc.IH [of "Suc i"] Suc.prems(1) by (simp add: randomLoop_step [of draws i])
qed (simp add: randomLoop_step)

lemma randomLoop_next:
  assumes "good_draw (draws m)" "i \<le> m"
  obtains j where "i \<le> j" "j \<le> m" "good_draw (draws j)"
    "randomLoop draws i = Some (web_fieldHex (bigEndianInteger (draws j)), j + 1)"
proof -
  define n where "n = (LEAST n. good_draw (draws (i + n)))"
  have "good_draw (draws (i + (m - i)))" using assms by simp
  then have n: "good_draw (draws (i + n))" "n \<le> m - i" "\<forall>k<n. \<not> good_draw (draws (i + k))"
    unfolding n_def by (rule LeastI, rule Least_le) (auto dest: not_less_Least)
  with randomLoop_finds [OF n(1,3)] that [of "i + n"] assms show thesis by simp
qed

section \<open>Properties\<close>

text \<open>
  Claim C8. The level-by-level root of the committee client is the root of the complete tree of
  depth sixteen over the zero-padded leaves, for any hash; the internal guards never fire, and the
  only error is a batch of more than 65536 leaves.
\<close>

theorem commitment_root_refines_tree:
  "commitmentRoot H leaves =
     (if length leaves \<le> 65536 then Inr (tree_node H leaves 16 0)
      else Inl (Error ''tree supports at most 65536 commitments''))"
  using commitmentRoot_tree [of leaves H]
  by (auto simp: TREE_DEPTH_def commitmentRoot_def)

text \<open>
  Claim C9. The browser's inclusion path is right for every leaf: it is refused exactly when the
  index is no leaf of the batch (or the batch is too large), and otherwise folding the leaf along
  the path gives the path's root, which is the root the committee client computes for the same
  leaves.
\<close>

theorem commitment_path_leads_to_root:
  "case commitmentPath H leaves idx of
     Inr P \<Rightarrow> (\<exists>i. idx = JInt (int i) \<and> i < length leaves
       \<and> merkleRoot H (leaves ! i) (pathBits P) (siblings P) = Inr (path_root P)
       \<and> commitmentRoot H leaves = Inr (path_root P)
       \<and> bits_index (pathBits P) = i)
   | Inl e \<Rightarrow> \<not> (\<exists>i. idx = JInt (int i) \<and> i < length leaves) \<or> 65536 < length leaves"
proof (cases "\<exists>i. idx = JInt (int i) \<and> i < length leaves \<and> length leaves \<le> 2 ^ TREE_DEPTH")
  case True
  then obtain i where i: "idx = JInt (int i)" "i < length leaves" "length leaves \<le> 2 ^ TREE_DEPTH"
    by blast
  have "i < 2 ^ TREE_DEPTH" using i by simp
  then have "bits_index (map (tree_bit i) [0..<TREE_DEPTH]) = i" by (rule bits_index_tree_bits)
  with i show ?thesis
    by (simp add: commitmentPath_eq merkleRoot_path commitmentRoot_tree)
next
  case False
  have "\<exists>e. commitmentPath H leaves idx = Inl e"
  proof (cases idx)
    case (JInt k)
    with False show ?thesis
      by (auto simp: commitmentPath_def not_le) (metis nat_0_le nat_less_iff not_le)
  qed (simp add: commitmentPath_def)
  with False show ?thesis by (fastforce simp: TREE_DEPTH_def)
qed

theorem commitment_path_leads_to_root_witness:
  "\<exists>P. commitmentPath (\<lambda>a b. a + 2 * b) [7, 9, 4] (JInt 2) = Inr P
     \<and> merkleRoot (\<lambda>a b. a + 2 * b) 4 (pathBits P) (siblings P) = Inr (path_root P)
     \<and> commitmentRoot (\<lambda>a b. a + 2 * b) [7, 9, 4] = Inr (path_root P)"
proof -
  have l: "(2::nat) < length [7, 9, 4 :: int]" "length [7, 9, 4 :: int] \<le> 2 ^ TREE_DEPTH"
    by (simp_all add: TREE_DEPTH_def)
  obtain P where P: "commitmentPath (\<lambda>a b. a + 2 * b) [7, 9, 4] (JInt 2) = Inr P"
    using commitmentPath_eq [OF l] by simp
  with commitment_path_leads_to_root [where H = "\<lambda>a b. a + 2 * b" and leaves = "[7, 9, 4]" and idx = "JInt 2"]
  show ?thesis by (auto simp: nth_Cons')
qed


text \<open>The witness takes an injective hash, the pairing of the naturals, and opens the second of two orders.\<close>

definition pairing_hash :: hash2 where
  "pairing_hash a b = int (prod_encode (int_encode a, int_encode b))"

lemma pairing_hash_free: "collision_free_on pairing_hash xs"
  by (rule injective_collision_free) (auto simp: inj_def pairing_hash_def prod_encode_eq int_encode_eq)


text \<open>
  Claim C11. Drawing a random field element succeeds as soon as the generator delivers one usable
  draw: the rejection loop stops at the first draw in range, and the returned text is 66 characters
  long and parses back to that nonzero field element.
\<close>

theorem random_field_terminates:
  assumes "i \<le> m" "good_draw (draws m)" "length (draws m) = 32"
  shows "\<exists>x j v. randomFieldHex True draws i = Some (Inr (x, j)) \<and> i < j \<and> j \<le> m + 1
    \<and> js_BigInt x = Inr v \<and> 0 < v \<and> v < BN254_SCALAR_MODULUS \<and> length x = 66"
proof -
  obtain j where j: "i \<le> j" "j \<le> m" "good_draw (draws j)"
    "randomLoop draws i = Some (web_fieldHex (bigEndianInteger (draws j)), j + 1)"
    using randomLoop_next [of draws m i] assms by blast
  have "BN254_SCALAR_MODULUS < 2 ^ 256" by (simp add: BN254_SCALAR_MODULUS_def)
  with j show ?thesis
    by (auto simp: randomFieldHex_def good_draw_def web_fieldHex_value intro!: web_fieldHex_length)
qed

theorem random_field_terminates_witness:
  "\<exists>x j v. randomFieldHex True (\<lambda>i. replicate 31 0 @ [if i = 2 then 9 else 0]) 0 = Some (Inr (x, j))
     \<and> j \<le> 3 \<and> js_BigInt x = Inr v \<and> 0 < v \<and> length x = 66"
proof -
  let ?d = "\<lambda>i::nat. replicate 31 0 @ [if i = 2 then 9 else (0::byte)]"
  have "bigEndianInteger (replicate 31 0 @ [9]) = 9" by code_simp
  then have "good_draw (?d 2)" by (simp add: good_draw_def BN254_SCALAR_MODULUS_def)
  with random_field_terminates [of 0 2 ?d] show ?thesis by auto
qed

end
