(* ===== verification/FieldInverse.thy ===== *)
theory FieldInverse
  imports Commitments
begin

text \<open>
  Inversion in the BN254 scalar field as \<open>client/src/committee.ts\<close> does it, by
  square-and-multiply with the modulus minus two.  The loop is shown equal to the modular power;
  that the power is an inverse is shown for the values the committee inverts, the differences of
  two member indices, from a chain of checked squarings of two (the quotient of each square by the
  modulus is listed, so that no primality of the modulus is needed).
\<close>

section \<open>The operations\<close>

definition field_mod :: "int \<Rightarrow> int" where
  "field_mod value =
     (let reduced = value smod BN254_SCALAR_MODULUS
      in if reduced \<ge> 0 then reduced else reduced + BN254_SCALAR_MODULUS)"

function inverseLoop :: "int \<Rightarrow> int \<Rightarrow> int \<Rightarrow> int" where
  "inverseLoop exponent base acc =
     (if exponent > 0
      then inverseLoop (bigint_shr exponent 1) (field_mod (base * base))
             (if and exponent 1 \<noteq> 0 then field_mod (acc * base) else acc)
      else acc)"
  by pat_completeness auto
termination
  by (relation "measure (\<lambda>(e, _, _). nat e)") (auto simp: bigint_shr_def int_div_less_self)

declare inverseLoop.simps [simp del]

definition field_inverse :: "int \<Rightarrow> int res" where
  "field_inverse value =
     (let exponent = BN254_SCALAR_MODULUS - 2;
          base = field_mod value
      in if base = 0 then Inl (Error ''cannot invert zero'')
         else Inr (inverseLoop exponent base 1))"

section \<open>The loop is the modular power\<close>

lemma field_mod_eq [simp]: "field_mod v = v mod BN254_SCALAR_MODULUS"
proof -
  let ?p = BN254_SCALAR_MODULUS
  have "\<bar>?p\<bar> = ?p" by (simp add: BN254_SCALAR_MODULUS_def)
  then have "v smod ?p = (if v < 0 then - ((- v) mod ?p) else v mod ?p)"
    by (simp add: signed_modulo_int_def sgn_if)
  moreover have "0 \<le> (- v) mod ?p" "(- v) mod ?p < ?p" by simp_all
  moreover have "?p \<noteq> v mod ?p" by (metis BN254_pos less_irrefl pos_mod_bound)
  ultimately show ?thesis
    by (auto simp: field_mod_def Let_def zmod_zminus1_eq_if split: if_splits)
qed

lemma inverseLoop_power:
  assumes "0 \<le> e" "0 \<le> r" "r < BN254_SCALAR_MODULUS"
  shows "inverseLoop e b r = r * b ^ nat e mod BN254_SCALAR_MODULUS"
  using assms
proof (induction e b r rule: inverseLoop.induct)
  case (1 e b r)
  let ?p = BN254_SCALAR_MODULUS
  show ?case
  proof (cases "e = 0")
    case True
    with "1.prems" show ?thesis by (simp add: inverseLoop.simps)
  next
    case False
    with "1.prems" have e: "0 < e" by simp
    define h where "h = e div 2"
    have h: "0 \<le> h" "bigint_shr e 1 = h" using e by (simp_all add: h_def bigint_shr_def)
    have odd: "and e 1 \<noteq> 0 \<longleftrightarrow> odd e" by (simp add: and_one_eq odd_iff_mod_2_eq_one)
    define r' where "r' = (if odd e then field_mod (r * b) else r)"
    have r': "0 \<le> r'" "r' < ?p" using "1.prems" by (auto simp: r'_def)
    have "inverseLoop e b r = inverseLoop h (field_mod (b * b)) r'"
      using e h(2) odd by (subst inverseLoop.simps) (simp add: r'_def)
    also have "\<dots> = r' * field_mod (b * b) ^ nat h mod ?p"
      using "1.IH" [OF e] h r' odd by (simp add: r'_def)
    also have "\<dots> = r' * (b * b) ^ nat h mod ?p"
      by simp (metis mod_mult_right_eq power_mod)
    also have "\<dots> = r * b ^ nat e mod ?p"
    proof -
      have sq: "(b * b) ^ nat h = b ^ (2 * nat h)" by (simp add: power_mult power2_eq_square)
      show ?thesis
      proof (cases "odd e")
        case True
        then have "nat e = Suc (2 * nat h)" using e by (auto simp: h_def elim!: oddE)
        with True sq show ?thesis by (simp add: r'_def mod_mult_left_eq mult.assoc)
      next
        case False
        then have "nat e = 2 * nat h" using e by (auto simp: h_def)
        with False sq show ?thesis by (simp add: r'_def)
      qed
    qed
    finally show ?thesis .
  qed
qed

lemma field_inverse_power:
  assumes "v mod BN254_SCALAR_MODULUS \<noteq> 0"
  shows "field_inverse v = Inr (v ^ nat (BN254_SCALAR_MODULUS - 2) mod BN254_SCALAR_MODULUS)"
proof -
  have "0 \<le> BN254_SCALAR_MODULUS - 2" "1 < BN254_SCALAR_MODULUS"
    by (simp_all add: BN254_SCALAR_MODULUS_def)
  with assms inverseLoop_power [of "BN254_SCALAR_MODULUS - 2" 1] show ?thesis
    by (simp add: field_inverse_def Let_def power_mod)
qed

section \<open>The power of two\<close>

text \<open>
  \<open>square_chain\<close> squares, subtracts a listed multiple of the modulus and multiplies by one or
  two: one step per bit of the exponent.
\<close>

fun square_chain :: "int \<Rightarrow> (int \<times> nat) list \<Rightarrow> int" where
  "square_chain r [] = r"
| "square_chain r ((q, d) # steps) =
     square_chain ((r * r - q * BN254_SCALAR_MODULUS) * 2 ^ d) steps"

primrec chain_exponent :: "int \<Rightarrow> (int \<times> nat) list \<Rightarrow> int" where
  "chain_exponent n [] = n"
| "chain_exponent n (s # steps) = chain_exponent (2 * n + int (snd s)) steps"

lemma square_chain_append: "square_chain r (xs @ ys) = square_chain (square_chain r xs) ys"
  by (induction r xs rule: square_chain.induct) auto

lemma chain_exponent_append: "chain_exponent n (xs @ ys) = chain_exponent (chain_exponent n xs) ys"
  by (induction xs arbitrary: n) auto

lemma chain_exponent_nonneg: "0 \<le> n \<Longrightarrow> 0 \<le> chain_exponent n xs"
  by (induction xs arbitrary: n) auto

lemma square_chain_power:
  "0 \<le> n \<Longrightarrow> r mod BN254_SCALAR_MODULUS = 2 ^ nat n mod BN254_SCALAR_MODULUS
     \<Longrightarrow> square_chain r xs mod BN254_SCALAR_MODULUS
       = 2 ^ nat (chain_exponent n xs) mod BN254_SCALAR_MODULUS"
proof (induction r xs arbitrary: n rule: square_chain.induct)
  case (2 r q d steps)
  let ?p = BN254_SCALAR_MODULUS
  have "(r * r - q * ?p) mod ?p = (r * r) mod ?p" by (subst mod_diff_right_eq [symmetric]) simp
  also have "\<dots> = (2 ^ nat n * 2 ^ nat n) mod ?p" by (rule mod_mult_cong [OF "2.prems"(2) "2.prems"(2)])
  finally have "(r * r - q * ?p) * 2 ^ d mod ?p = (2 ^ nat n * 2 ^ nat n) * 2 ^ d mod ?p"
    by (rule mod_mult_cong [OF _ refl])
  also have "(2 ^ nat n * 2 ^ nat n) * 2 ^ d = (2::int) ^ nat (2 * n + int d)"
  proof -
    have "nat (2 * n + int d) = nat n + nat n + d" using "2.prems"(1) by arith
    then show ?thesis by (simp only: power_add)
  qed
  finally show ?case using "2.IH" [of "2 * n + int d"] "2.prems"(1) by simp
qed simp

definition chain_0 :: "(int \<times> nat) list" where
  "chain_0 = [(0, 1),
     (0, 1),
     (0, 0),
     (0, 0),
     (0, 0),
     (0, 0),
     (0, 0),
     (0, 1),
     (7200579128640401004102311307143702906140, 1),
     (8793342019923305388592194571483552763069087415955332211405457234607383010385, 0),
     (515470066323444354248961532534976171171707886666823717202996253610035455894, 0),
     (20959180162923716026279973153809514344989763662914288000946636013821660134458, 1),
     (5865080454406939862244717412569851396596292016693305912326450666468970074412, 0),
     (9308389642720866376022686759755971347425681523075310086042636927872976113301, 0),
     (3664512291730385462043382497136038543306477092017844455039809482361032819242, 0),
     (11793205761879907212553916549826907303787073505479206481053512002534675609095, 1),
     (8153505228531480739440020543462021021145021208111173086782056179116520468970, 0),
     (1888919547726687340235300278549055891385756551826402712995854613204519763388, 0),
     (9215921573501147162397106660669622394708269805956479837467947297103866824809, 1),
     (55275514551415016623115761252617091564874118909437603433116486615701711918189, 1),
     (69548483936490045677444495171587424127728798580451589516624440228546755946710, 1),
     (17687903288023926776958037422249305698007006170255461826432304808963425547818, 0),
     (20951460891808269728956343903979283677078899931828319846498186176098583356844, 0),
     (3438459094383234039095396550708727226596828219019316999480481093896086663546, 1),
     (4466336069930378086515025621935567466559291504330505110862403302919540294708, 1),
     (78500514341179695286782671806292320467933030724027862069385325830040876765762, 1),
     (10923639626257756858137323766127377078571125014719319014836959712359390723564, 0),
     (260494846463971307906587934066464520947807459017640080607195942934861605410, 0),
     (8330048425316334207697969114440602560210631487910427267666718684544120923500, 1),
     (57208284817961409671859169271210279660690558593206435205387658785728593580580, 0),
     (1311326279048225454527508874407492245417687466819184347765191911951101052736, 1),
     (341942740698524558939179465104154335371339196720416466977281913258785271909, 1)]"

definition chain_1 :: "(int \<times> nat) list" where
  "chain_1 = [(38066891402997276367372417999735820916971424413511861543352102866550407318237, 1),
     (10033480710396933423021778659645259406080018463139393036527141267792501312689, 0),
     (13673762289946689182300463980838914255555922485658148416191583174045994278068, 0),
     (2236077000122861299603988451871092783482230660570590922072124005884612485222, 0),
     (3914182416406110930722693426137546321578274652274135306951137214074476600267, 0),
     (3451069216614535950969504270809427532468802683786408001295217905919447060057, 1),
     (6691645115070252042146183832540288226508994533981590101733205942964343907596, 0),
     (13047660594699731409822054971374259073159451439450083481507458599452241953647, 0),
     (2901017607531754904840530943826465926726224746905514610350693557752896635251, 1),
     (40520356776563726414774827853590456128681936575512248221500699001306636760890, 1),
     (43515060605511726699066534488317765241824675350681779208534239718699310746657, 0),
     (2709787387888924307468114574138705570230679709878661845462560882829764084520, 0),
     (13523043341172494831913529534624837673173851816023251550752809210502003650758, 0),
     (13922924688178885411757104755268755061303940405307140622674639351665642515117, 1),
     (4514761651317558675829766956038786229409976690871831268913337048113743796868, 1),
     (4412193302197289453277551993829954581453713700490637985254608196703373885505, 0),
     (20742243555603762096689305441910439513329858393167225611098715076181099960502, 1),
     (20776143385394219268634538884620642781050544753238040428891030317533963807847, 0),
     (814288922218818211211857582203081926448872499470584642446970686209068435875, 0),
     (10745102894220004921339291924017542939952577338086810882991112674310444129, 0),
     (468223775405607376782532835111419032855292802258668169057366145760402080652, 0),
     (759095140697279744293869050975422149301783203047272703128903293991295583675, 0),
     (10143346134597589719540355992382921344616301374392212535813847518663058000705, 0),
     (18466183309338582909780619606202705994020173960373863453546045397944771073225, 0),
     (3588886616484265511849611107064128065682163931693776715628370964118628969029, 1),
     (41305323354372881915460366415035609769409276166498742100262402902572229701013, 0),
     (21372860536102539006280510442115401031826626908340739419800451691807038998415, 1),
     (73189786459002587319440550947131873337518122542666954902554294734571282131203, 0),
     (3717491524264156306837067196445139683589190791546252422867483720202509868477, 0),
     (18193722774321544330140701801178394372993176153778610238286104883768877128989, 1),
     (12130429273261019759755217502942196123546314177701700052015999387638402785235, 1),
     (65226556912369896799830928294554437825235690860783130725974637853866461416164, 0)]"

definition chain_2 :: "(int \<times> nat) list" where
  "chain_2 = [(305844103792433305382126359972825319530105358055173756675616734540957595, 1),
     (875146936780202911721410545332257110640410954118660506571792192100841704806, 1),
     (1630684109662996760992114564547482768568233795711666598347141140303746564690, 1),
     (14475716205006734409760024641070818399721346202206890030673218539477884528210, 0),
     (5204574770906765099571803783372458905925193461158408606281906232835323225906, 0),
     (579642407451442296777952830329896643663903628723322271773122745470875688857, 0),
     (1308640421352566104870211007367465897607290135296126177864717540428157469424, 0),
     (6878684774711203170881154795575977544345257125743362836695990327628905588, 1),
     (24126397353737509457562236026902716156001989035766697319253190481098680885151, 0),
     (8306349156671818230255514713128377901805054113133169266997037021288080715493, 1),
     (62117660604533069593041349265404975128683703737796085268500891145674664258859, 0),
     (7494588584210552881200933592837143586270204704407328815626983984007254751864, 0),
     (73793884386735855042784000637981197960004342676902935480401887066424165428, 0),
     (4344738808718949996341669827515165565262213727784063406880741390118923121801, 0),
     (8308242665483870368580568318865567293833744576402603290022100318522457756, 0),
     (246474980775500228677729244157088348075516149922347922663325119252158914555, 1),
     (961852987758917579252427586595640477535684702427931117979110324268356726879, 0),
     (4562708021969003098882274588852775893347542222916775934093478595983008652293, 0),
     (8178007775665246136291565885588602197330684011107024375522097769616480628547, 0),
     (20211800158765296914459641016440749721929247626553843530029919858539731144202, 1),
     (85537852503086617278041725826495167485168224198078369780178823483844780142958, 0),
     (2039210640256054847534725295087685183195305399466068968869192551447822777552, 1),
     (3038390587011822401029553502247110939921725276294555039476245059268391050543, 1),
     (18798530669612017080155839115406192603260850234205004388648726692874263621883, 0),
     (856255243594992259942373319095024356747305216816319023424178437548909623448, 1),
     (82391386921587568517406824353305130916920542202011246834587261653688181236453, 1),
     (27762470110932335027255516864119384051039375372042879253384762491525400371598, 0),
     (21626315525283383894522683168355170184878063454983997251460589622743473253490, 1),
     (200166237844834384094301966635201113554552874021718491462243172972787618512, 1),
     (58427527306037678090948243624345225986045689496966964840280875329559127087081, 0),
     (1043573538195568767568092006019519287384851026819775728574944582530111813612, 1),
     (61083138357792968798909105909130779391004005589931371796862376923351218651432, 0)]"

definition chain_3 :: "(int \<times> nat) list" where
  "chain_3 = [(10068817419877547871127162197795739993910870786606772358404680972961063618412, 0),
     (1199100214982453942200013565043428292718190534405438975586505867927777643840, 0),
     (1069876142593896642883994666065478845145168320470834632870022905397666864566, 0),
     (697910052018303865680346403298750601378398018454391401818365936813590293645, 0),
     (141090930293535871891889701978875168335592964280696447828139643830960292763, 0),
     (16006903676342359079516197551287868759327441471147374256515596789717795731354, 1),
     (39326181520234041076119737269784330397598242469831654979307245159747210494129, 1),
     (12886634227067278843182811833446708317167330971481116935607075161744196947267, 0),
     (18527203318379087063918088011596730519114834084695805330319412539241931439537, 0),
     (8068154384224270724881043387469211116707400981038566782590984154087299714800, 0),
     (13983676386002274592059869628140995231183122823817195262585904075152854472478, 0),
     (25640261022007063843881444226346395567751629464180276797642350360902054071, 0),
     (19564247479688113993056991075354671416870175503455862957429363846421530139516, 0),
     (21323300394341257550881459635445225638784478248026537442597342956029727474352, 1),
     (60651456726950408790019040914866059379552268104146064559043547630189886260926, 0),
     (497558602770758317969117112890539988831392738934414459180951264602524595492, 1),
     (78810749197287859175009155957469634548203609062383198151123252782305435124430, 0),
     (9121064020251246649740730995478687222301551035377035845975666730648318834377, 1),
     (72963204652351989350166700921324081271057698571964143620765509264396357389658, 1),
     (30799758271425029818162502454494009815557062423646293875009979217442029934303, 0),
     (20022243810103622756449173281992156377838331541226926119513577620387827607464, 0),
     (17834632993003003075716202420103375451409121133090486237896428533856956728976, 0),
     (13031486817695404967794708159074468939051433645635322519959221202072175560340, 0),
     (2038246084255803916021213423202018463694027470497491498719436605679559573538, 1),
     (3844845732358124684627602400151340137082481749744994018157151231896881884350, 0),
     (1338632671858363964776163938961816650391539089264831178033597203969889250308, 1),
     (11281687719661339485572180253067008742681935189252576807153281527611308348309, 1),
     (6901611093763065389385158588221696360986275644437676340536703469274280611894, 1),
     (11162719208927133815173300309550500368661181310495943961326254718904107566435, 0),
     (406857894383475460729896336849696233577261424708530862296456703333221360658, 1),
     (5273141429253853262899252326335097312443631925467030155242286913757856746923, 0),
     (16958111129444678164399916493150817628264879067886148301623796875676767516171, 0)]"

definition chain_4 :: "(int \<times> nat) list" where
  "chain_4 = [(5430450965579586328788715107424553357661168104607847544546787771533036362212, 1),
     (56054851777855776430790514104361017716274707428388724198603667730322181496706, 0),
     (19477224157958843463045233220330245992239694840313049557984763826445177184831, 1),
     (2939270563859834130440647484545119174622699735345673391279344064084232096944, 0),
     (16655594238103364016336441263328162326068230095916513470077129051102000294060, 0),
     (13702792964286035170521858252558272708362874834405088748074764436664894537892, 0),
     (9974031990452448595405137632719879946171680362459656481204617700665616700142, 0),
     (11761528702935401919355981773064732314709314147975985122955889958979266704610, 0),
     (7287224362427838557223557925687384844198835288540780249153269412843323825126, 1),
     (10901784710007458379018647066960042179896569330425942913322537621012377717918, 1),
     (62279401102440296276405331862297228906162966613198423528570668609019660866136, 0),
     (5568283484193961708135959978671066034548217993877680775889561393047035142136, 0),
     (19131799575103989068503116715084593484361551648948733165922843752223175200113, 1),
     (8582069592508086958240357232367717229618983412909397108922198183376710911484, 1),
     (215975312236418224372364007974613242527039178703413664675250388822372380402, 1),
     (20887694349097119369759849787050842320438137297699340982447880700916082909888, 1),
     (70388217257369066971545410767180537370893691444541258886207576287981328436909, 1),
     (39327897523385001888180670468152123863520971903031365143580364730669414816911, 0),
     (49799418800489304266630926056064281423469998612616091395073054738410634678, 1),
     (8822702915420165482067547144958619930796711534508450659301358420986855380563, 0),
     (15571760745839085276658080911449167783052695953401946191471164082344758406141, 0),
     (2177683644035880955338524466124594611648055925731401239729507109914864638723, 0),
     (10756260397463216969414866455656080690091334673745519544109566860617663551179, 0),
     (2084957557256931313184118023124085894564085867555537890265478929145430185830, 1),
     (2274048672792076768474808809726887147675010621605538560872653942773529208765, 0),
     (2184232557750140681065156021844378391790044394151745908300046928422252537824, 0),
     (45033982947344659257720425934918963023723295671686841908007574906440281519, 1),
     (5532402226814564288736759939949021651635938973668313100343538598024662261068, 0),
     (2896496274622453550000023816305714261711837089689851801795994226876407868, 0),
     (2897662524437864409518882523634106433990340589368894110943906223257236202265, 0),
     (28128025822517338339475288490319978419923318274668008161341260124416932702, 0),
     (7036800607692200134846243128191539928512783857586254406378674080629836252417, 1)]"

definition chain_5 :: "(int \<times> nat) list" where
  "chain_5 = [(12637791425324582318401344472470941413276105931450853109001610089855053947452, 1),
     (570307027568840845422408761413626067245253883804164831570970746910668849943, 1),
     (7998961917654686389462027591301937850219172880542261329461311403870190517155, 1),
     (51264525299699677214363459194879672540783855901539970667514059878431337860859, 0),
     (18616925470289667428649750483183962660390327576889386550803457924733777639725, 0),
     (1377699813474571714539223778213822983804302459904045442030329633152875639442, 1),
     (10286559562008390612948355643472527097004350780948870282533010346149856876712, 1),
     (1584935857635282899728091014632172510046154635990471688181640547721926173036, 0),
     (1270623820474828154499570222938986808358998844206619258162228763115224985403, 1),
     (44235496485509296732589903423626388107790994236995547716217114762958198055309, 1),
     (61774996546234846794909597799413501415618766720893316207146065533391806694447, 1),
     (36239589496337366311826984841156988064578896748690402461563891629674490138762, 0),
     (574631623818674740001138890985697015935570758649478570223561889174570569392, 0),
     (910341233782594846304471515318793098891501415648270480272141821752761160540, 1),
     (2021520197243424414075944559292618213109502651507041556738894336930615670719, 0),
     (7810522020646338838908447316883963267629843760638492404476275458147589043277, 1),
     (1682376190430812162144191597386514328718703169764174392711654621986298286154, 1),
     (149625510089622419388404883976251839795378652720291716443953348170657151997, 1),
     (75434760480942145948134699565093516248747358606387265813776213841657972103164, 0),
     (11298153667726484425182159564520472639506451534711031564618731538025592577800, 0),
     (3384698058518611758331111025316212308661149844175593048888861822461580979157, 0),
     (15058492670152481669914060083038001096284292313156637944850581826554281622630, 0),
     (993391543574890454166088909558763416646996931439233988612903246945316923984, 1),
     (8010982779244005424598767970169203762593632112460565665866748539702639980401, 0),
     (20508326376430497744570413846093424768852945418801760696341315141442850321482, 0),
     (8598461805478900106699797125766404187429334227902975905977580572911783461126, 1),
     (21292684687788255044946167267676673625870003438092828540503469042789675841923, 0),
     (5472998191002443880531692611976624989090966080530043808321887067463069664273, 0),
     (14041826017510864794088641134451394077697962027205572477800144466129335972674, 0),
     (2425323692889005586715389789582125406462762880353116221023965695436863846097, 1),
     (4613036278038964683202205083010571171782638161829895289127917262968991841547, 0),
     (1936411624844706768768919741435051408897536611372861327375839041550637906875, 1)]"

definition chain_6 :: "(int \<times> nat) list" where
  "chain_6 = [(70475391128339976488291824964464415489909980799853757443293056895635301079, 0),
     (1808496163060410016772133015040847647942194554958107339882306786409535005557, 0),
     (3019641827924011827827511410332872200284602326282681475835454222718683469775, 0),
     (9071089666104785704098527406702932929301179019082534224704288221865578798554, 0),
     (1992016982519522099476677266144968984634443058290096977582372235494754282591, 1),
     (16086725129644287787061988796983611747202233850202975810335508351728043841500, 1),
     (57219620519257758602279312999182363418795228729067926782788731678479779881800, 1),
     (1135624117209643185685039922555142091881577921436782167415191384280552671483, 1),
     (56214365076242677530887973403711540951886139201315937206637055408936656821998, 1),
     (1174315867825895862168241176173853896663301524681413296158205994346534472989, 0),
     (1552393234511454996405045742335984771484048863154170037949387089992460971454, 0),
     (7647133516542747815855409394424779477101461579094785460475732270196356059650, 0),
     (603454388065424159082469719874264469867675173004572298533367704249868172784, 0),
     (18957381736647803544942545146403738020978601151777951943751065386174844275987, 1),
     (8469362377073381216246149573590682639419274990274830057843093651803546841829, 1),
     (20845730479019205852486343590975143665071733135733537530552569198209283000445, 1),
     (770461300964517608002857939318442726513787886987726914630454954356717518059, 1),
     (317979148218004178608145447936093841205904975601454150345541528703226992953, 1),
     (16247846319162503440336214314859955956228373164469888074850481964498440758958, 0),
     (13368244178446572439777618135591650000862576485419517963682866549523297216238, 1),
     (51175568391560910397421547660611463949206676349161911374777998463558279800438, 0),
     (453258142957675384707817474677967742836105345570776930712917931932353144607, 1),
     (17758912625137366954087707520429200357243499886494710407959001323246008633057, 1),
     (10699440290002022939784287364236280976639030733708594899463620570845509822187, 0),
     (1602878581245547875398068886489065100527905938232025703349377348400851801852, 0),
     (17917213586707096578116631006924101375904958019513389977165448862096590929425, 1),
     (942560685741495589339046063803553753225809939912578944163032376017785808352, 0),
     (11536085525629834313102436980333939030173668541563818872687853507791737853111, 0),
     (1747437875087922410503018982499589208533386128015865863297936472989876272299, 1),
     (65302823938611915873835988501464655916677658952085970544521953690300359319076, 1),
     (150605330269400981265383415991689710953371022469438416934500298868333468326, 1),
     (3628719945017370718912062641531420813705318886500191417873260002543969311521, 1)]"

definition chain_7 :: "(int \<times> nat) list" where
  "chain_7 = [(42040416652079762195742920620947329634102528468203998459777449513037194286202, 1),
     (31661525312237430043889837883801571455093986976884754918668435569203441121760, 0),
     (109192439536404053412693009949423486089590829905012865590322838562683777670, 1),
     (66828955268591905805763158959450319334748518577470873292555983826885224748412, 1),
     (26216967136920152419212475186739800024315081147158433116031723919264589316994, 1),
     (6854120901892313643741238030100720435755885603690031403523017981965159067450, 1),
     (958191761347528741604397749389795732997486531680328945264115810513657126254, 1),
     (43356325004685638204860764385303389644967366103060242628365626966166407522244, 1),
     (7247776971755118908450356704968553010802030719813934541945824173488934085010, 1),
     (71480361616431478180251253003708500602112181542124171804321616208307371416543, 1),
     (44061249845127940030785754186492850563366586520549189990990179474542400579537, 1),
     (2322671739688997683661573111422422250834992742485569865473124954590252463131, 1),
     (34341480121398574477976992925578869803496384472194004770953876030737708226336, 1),
     (55684820233588343209506661071241574141290529464049074330670393461779057283584, 1),
     (70675576943385757284652103638633505673803742516343169907505570617537238688258, 1),
     (58860892820367706124068671755291514521173159787246724210239401839349495273735, 1),
     (1427750517799079497109018950936001701839566105596235317026779948278624309255, 1),
     (31368144931079928634429209136067934028881844031687492439968309959293905896746, 1),
     (20944338876770247471871454040214283709464266494313364774299741740111302883227, 1),
     (77454710019607432706967063607077844719930663320024576716002614977384436580575, 1),
     (111900143949018037009138210284463505527663543725137129711061460596813227071, 1),
     (47043488100469562444770193262641146656756204724771715769612471047994333775815, 1),
     (60998969887490367434823139737122961666284604549228088287522815785808965998812, 1),
     (50909903777425122679878315076715095540892126971879196287059418860927562913203, 1),
     (78937562426502557078617085492201356508668532726892774065145381495334468109089, 1),
     (15492060775544425705923406920706821371875445830975148335317639366417733078148, 1),
     (4361113248766654406371984415142606879060115969562336978424621020113813668466, 1),
     (49248546461638369243442531471384503185643769078426843145916461265873646054160, 1),
     (5472060717959818805561601436314318772137091100104008585924551046643952123903, 1),
     (49248546461638369250054412926828868949233819900936077273320959419795569115139, 1)]"

lemma chain_0_value: "square_chain 1 chain_0 =
    28865504748830132335061070537241950366102315826663763178167694885404893865782"
  by code_simp

lemma chain_0_exponent: "chain_exponent 0 chain_0 =
    3247520203"
  by code_simp

lemma chain_1_value: "square_chain 28865504748830132335061070537241950366102315826663763178167694885404893865782 chain_1 =
    81819252164321324469300592009650148635738855702820873410037365262637944736"
  by code_simp

lemma chain_1_exponent: "chain_exponent 3247520203 chain_1 =
    13947993067211882662"
  by code_simp

lemma chain_2_value: "square_chain 81819252164321324469300592009650148635738855702820873410037365262637944736 chain_2 =
    14845494977213991831925590124727057295476000860048642727148752620677425079356"
  by code_simp

lemma chain_2_exponent: "chain_exponent 13947993067211882662 chain_2 =
    59906174068509765939658561242"
  by code_simp

lemma chain_3_value: "square_chain 14845494977213991831925590124727057295476000860048642727148752620677425079356 chain_3 =
    10902432280836239607652686783116042460563148849466585029850284860187433225574"
  by code_simp

lemma chain_3_exponent: "chain_exponent 59906174068509765939658561242 chain_3 =
    257295058452732708167448229940904157556"
  by code_simp

lemma chain_4_value: "square_chain 10902432280836239607652686783116042460563148849466585029850284860187433225574 chain_4 =
    16631868448287832191700096429168651563888579760766999578535404895859943008080"
  by code_simp

lemma chain_4_exponent: "chain_exponent 257295058452732708167448229940904157556 chain_4 =
    1105073861476895343408702239369271369376149250337"
  by code_simp

lemma chain_5_value: "square_chain 16631868448287832191700096429168651563888579760766999578535404895859943008080 chain_5 =
    1242007438586811518612641875298296561186654565836498957433995521731806284652"
  by code_simp

lemma chain_5_exponent: "chain_exponent 1105073861476895343408702239369271369376149250337 chain_5 =
    4746256094707699759555065279892984198819696952616205795909"
  by code_simp

lemma chain_6_value: "square_chain 1242007438586811518612641875298296561186654565836498957433995521731806284652 chain_6 =
    30334647684026891005861439710508992173999521327617518486120619643304501612254"
  by code_simp

lemma chain_6_exponent: "chain_exponent 4746256094707699759555065279892984198819696952616205795909 chain_6 =
    20385014705210249146676068888285453513775360212117465533035066152527"
  by code_simp

lemma chain_7_value: "square_chain 30334647684026891005861439710508992173999521327617518486120619643304501612254 chain_7 =
    32832364307758912833369608617885912632822546600624051515547306279863712743426"
  by code_simp

lemma chain_7_exponent: "chain_exponent 20385014705210249146676068888285453513775360212117465533035066152527 chain_7 =
    21888242871839275222246405745257275088548364400416034343698204186575808495615"
  by code_simp

lemma chain_exponent_all: "chain_exponent 0 (chain_0 @ chain_1 @ chain_2 @ chain_3 @ chain_4 @ chain_5 @ chain_6 @ chain_7) = BN254_SCALAR_MODULUS - 2"
  by (simp add: chain_exponent_append chain_0_exponent chain_1_exponent chain_2_exponent chain_3_exponent chain_4_exponent chain_5_exponent chain_6_exponent chain_7_exponent BN254_SCALAR_MODULUS_def)

lemma square_chain_all: "square_chain 1 (chain_0 @ chain_1 @ chain_2 @ chain_3 @ chain_4 @ chain_5 @ chain_6 @ chain_7) =
    32832364307758912833369608617885912632822546600624051515547306279863712743426"
  by (simp add: square_chain_append chain_0_value chain_1_value chain_2_value chain_3_value chain_4_value chain_5_value chain_6_value chain_7_value)

lemma two_power_inverse: "2 * 2 ^ nat (BN254_SCALAR_MODULUS - 2) mod BN254_SCALAR_MODULUS = 1"
proof -
  let ?p = BN254_SCALAR_MODULUS
  have "2 ^ nat (?p - 2) mod ?p = square_chain 1 (chain_0 @ chain_1 @ chain_2 @ chain_3 @ chain_4 @ chain_5 @ chain_6 @ chain_7) mod ?p"
    using square_chain_power [of 0 1 "chain_0 @ chain_1 @ chain_2 @ chain_3 @ chain_4 @ chain_5 @ chain_6 @ chain_7"] chain_exponent_all by simp
  then have "2 * 2 ^ nat (?p - 2) mod ?p = 2 * square_chain 1 (chain_0 @ chain_1 @ chain_2 @ chain_3 @ chain_4 @ chain_5 @ chain_6 @ chain_7) mod ?p"
    by (metis mod_mult_right_eq)
  also have "\<dots> = 1" unfolding square_chain_all BN254_SCALAR_MODULUS_def by simp
  finally show ?thesis .
qed

section \<open>The inverse of an index difference\<close>

lemma odd_exponent: "odd (nat (BN254_SCALAR_MODULUS - 2))"
  by (simp add: even_nat_iff BN254_SCALAR_MODULUS_def)

lemma small_mod:
  assumes "d \<in> {1, -1, 2, -2}"
  shows "d mod BN254_SCALAR_MODULUS \<noteq> 0"
proof -
  have "\<not> BN254_SCALAR_MODULUS dvd d"
    using assms zdvd_imp_le [of BN254_SCALAR_MODULUS "\<bar>d\<bar>"] by (auto simp: BN254_SCALAR_MODULUS_def)
  then show ?thesis by (simp add: dvd_eq_mod_eq_0)
qed

lemma field_inverse_correct:
  assumes "d \<in> {1, -1, 2, -2}"
  shows "\<exists>v. field_inverse d = Inr v \<and> d * v mod BN254_SCALAR_MODULUS = 1"
proof -
  let ?p = BN254_SCALAR_MODULUS and ?n = "nat (BN254_SCALAR_MODULUS - 2)"
  have one: "(1::int) mod ?p = 1" by (simp add: BN254_SCALAR_MODULUS_def)
  have "d * d ^ ?n mod ?p = 1"
  proof -
    have neg: "(- a) * (- a) ^ ?n = a * a ^ ?n" for a :: int
      using odd_exponent by (simp add: power_minus_odd)
    consider "\<bar>d\<bar> = 1" | "\<bar>d\<bar> = 2" using assms by auto
    moreover have "d * d ^ ?n = \<bar>d\<bar> * \<bar>d\<bar> ^ ?n"
      using neg [of d] by (cases "0 \<le> d") (simp_all add: abs_if)
    ultimately show ?thesis using two_power_inverse one by cases simp_all
  qed
  then show ?thesis
    using field_inverse_power [OF small_mod [OF assms]] by (simp add: mod_mult_right_eq)
qed

end
