(* ===== verification/JsMap.thy ===== *)
theory JsMap
  imports Prelude "HOL-Library.AList"
begin

text \<open>
  The JavaScript \<open>Map\<close>: an association list in insertion order with at most one entry per key.
  \<open>set\<close> on a present key keeps its position, on a new key it appends, which is what the
  association lists of the library do.  The locale \<open>first_write_store\<close> states the contract
  several components give their callers: the first accepted value of a key stays, a repetition is
  accepted without effect, anything else is refused.
\<close>

section \<open>Maps in insertion order\<close>

type_synonym ('k, 'v) jsmap = "('k \<times> 'v) list"

definition map_get :: "('k, 'v) jsmap \<Rightarrow> 'k \<Rightarrow> 'v option" where
  "map_get m k = map_of m k"

definition map_put :: "('k, 'v) jsmap \<Rightarrow> 'k \<Rightarrow> 'v \<Rightarrow> ('k, 'v) jsmap" where
  "map_put m k v = AList.update k v m"

definition map_delete :: "('k, 'v) jsmap \<Rightarrow> 'k \<Rightarrow> ('k, 'v) jsmap" where
  "map_delete m k = AList.delete k m"

definition map_has :: "('k, 'v) jsmap \<Rightarrow> 'k \<Rightarrow> bool" where
  "map_has m k \<longleftrightarrow> map_get m k \<noteq> None"

definition map_values :: "('k, 'v) jsmap \<Rightarrow> 'v list" where
  "map_values m = map snd m"

definition map_ok :: "('k, 'v) jsmap \<Rightarrow> bool" where
  "map_ok m \<longleftrightarrow> distinct (map fst m)"

lemma map_get_Nil [simp]: "map_get [] k = None"
  by (simp add: map_get_def)

lemma map_get_put [simp]: "map_get (map_put m k v) k' = (if k' = k then Some v else map_get m k')"
  by (simp add: map_get_def map_put_def update_conv')

lemma map_get_delete [simp]: "map_get (map_delete m k) k' = (if k' = k then None else map_get m k')"
  by (simp add: map_get_def map_delete_def delete_conv')

lemma map_ok_Nil [simp]: "map_ok []"
  by (simp add: map_ok_def)

lemma map_ok_put [simp]: "map_ok m \<Longrightarrow> map_ok (map_put m k v)"
  by (simp add: map_ok_def map_put_def distinct_update)

lemma map_ok_delete [simp]: "map_ok m \<Longrightarrow> map_ok (map_delete m k)"
  by (simp add: map_ok_def map_delete_def distinct_delete)

lemma map_put_new: "map_get m k = None \<Longrightarrow> map_put m k v = m @ [(k, v)]"
  unfolding map_get_def map_put_def by (induction m) (auto split: if_splits)

lemma map_values_iff: "map_ok m \<Longrightarrow> v \<in> set (map_values m) \<longleftrightarrow> (\<exists>k. map_get m k = Some v)"
  by (force simp: map_ok_def map_values_def map_get_def map_of_eq_Some_iff)

lemma map_get_Some_in: "map_get m k = Some v \<Longrightarrow> (k, v) \<in> set m"
  by (simp add: map_get_def map_of_SomeD)

lemma map_delete_absent: "map_get m k = None \<Longrightarrow> map_delete m k = m"
  unfolding map_get_def map_delete_def
  by (metis delete_id map_of_eq_None_iff)

section \<open>Sorting\<close>

lemma sort_key_unique:
  assumes "sorted (map f ys)" "distinct (map f ys)" "distinct (map f xs)" "set xs = set ys"
  shows "sort_key f xs = ys"
  using assms
  by (intro map_sorted_distinct_set_unique [of f]) (auto simp: distinct_map)

section \<open>Stores in which the first write wins\<close>

locale first_write_store =
  fixes lookup :: "'s \<Rightarrow> 'k \<Rightarrow> 'v option"
    and submit :: "'s \<Rightarrow> 'v \<Rightarrow> 's res"
    and key :: "'v \<Rightarrow> 'k"
    and same :: "'v \<Rightarrow> 'v \<Rightarrow> bool"
    and good :: "'s \<Rightarrow> bool"
  assumes submit_new: "good s \<Longrightarrow> submit s v = Inr s' \<Longrightarrow> lookup s (key v) = None
      \<Longrightarrow> good s' \<and> lookup s' = (lookup s)(key v \<mapsto> v)"
    and submit_old: "good s \<Longrightarrow> lookup s (key v) = Some w
      \<Longrightarrow> submit s v = Inr s' \<Longrightarrow> s' = s \<and> same w v"
    and submit_again: "good s \<Longrightarrow> submit s v = Inr s' \<Longrightarrow> submit s' v = Inr s'"
begin

text \<open>A history of submissions, rejected ones leaving the store alone.\<close>

primrec history :: "'s \<Rightarrow> 'v list \<Rightarrow> 's" where
  "history s [] = s"
| "history s (v # vs) = history (try_catch (submit s v) (\<lambda>_. s)) vs"

lemma submit_good: "good s \<Longrightarrow> submit s v = Inr s' \<Longrightarrow> good s'"
  by (cases "lookup s (key v)") (use submit_new submit_old in blast)+

lemma submit_keeps:
  assumes "good s" "submit s v = Inr s'" "lookup s k = Some w"
  shows "lookup s' k = Some w"
proof (cases "lookup s (key v)")
  case None
  with submit_new [OF assms(1,2)] assms(3) show ?thesis by (auto split: if_splits)
qed (use submit_old assms in blast)

lemma history_good: "good s \<Longrightarrow> good (history s vs)"
proof (induction vs arbitrary: s)
  case (Cons v vs)
  then show ?case by (cases "submit s v") (auto dest: submit_good)
qed simp

lemma history_keeps: "good s \<Longrightarrow> lookup s k = Some w \<Longrightarrow> lookup (history s vs) k = Some w"
proof (induction vs arbitrary: s)
  case (Cons v vs)
  then show ?case by (cases "submit s v") (auto dest: submit_good submit_keeps)
qed simp

lemma history_append: "history s (xs @ ys) = history (history s xs) ys"
  by (induction xs arbitrary: s) auto

text \<open>An accepted value is what the store answers ever after, up to \<open>same\<close>.\<close>

lemma accepted_stays:
  assumes "good s" "submit (history s xs) v = Inr s'"
  shows "\<exists>w. lookup (history s (xs @ v # ys)) (key v) = Some w \<and> (w = v \<or> same w v)"
proof -
  have g: "good (history s xs)" using assms(1) by (rule history_good)
  have g': "good s'" using submit_good [OF g assms(2)] .
  obtain w where w: "lookup s' (key v) = Some w" "w = v \<or> same w v"
  proof (cases "lookup (history s xs) (key v)")
    case None
    with submit_new [OF g assms(2)] that show ?thesis by auto
  next
    case (Some w)
    with submit_old [OF g Some assms(2)] that show ?thesis by auto
  qed
  with history_keeps [OF g'] assms(2) show ?thesis by (auto simp: history_append)
qed

lemma resubmission_is_silent:
  assumes "good s" "submit s v = Inr s'"
  shows "history s' [v] = s'"
  using submit_again [OF assms] by simp

end

end
