(* ===== verification/Committee.thy ===== *)
theory Committee
  imports FieldInverse JsMap
begin

text \<open>
  The batch committee of \<open>client/src/committee.ts\<close>: Shamir shares over the BN254 scalar field
  (its inversion is in \<open>FieldInverse\<close>), the member that collects them, the aggregates two members publish, and the batch reconstructed
  from two aggregates; and the part of \<open>web/components/private-order-panel.tsx\<close> that cuts an
  order into shares.

  The locale \<open>additive_sharing\<close> is what the batch needs from a secret sharing: two distinct
  members reconstruct what was shared, and shares add up.  Sums of shares are treated once from that
  contract.  The locale \<open>first_write_store\<close> of \<open>JsMap\<close> is interpreted on the member.
\<close>

section \<open>Shamir shares\<close>

definition MIN_PRIVATE_BATCH_ORDERS :: nat where "MIN_PRIVATE_BATCH_ORDERS = 4"
definition MIN_PRIVATE_WAGER_AMOUNT :: int where "MIN_PRIVATE_WAGER_AMOUNT = 1000000"

definition createShamirShare :: "int \<Rightarrow> int \<Rightarrow> int \<Rightarrow> int" where
  "createShamirShare value coefficient memberIndex = field_mod (value + coefficient * memberIndex)"

definition reconstructIntercept :: "int \<Rightarrow> int \<Rightarrow> int \<Rightarrow> int \<Rightarrow> int res" where
  "reconstructIntercept firstIndex firstShare secondIndex secondShare =
     (if firstIndex = secondIndex then Inl (Error ''committee indices must be distinct'')
      else let x1 = firstIndex;
               x2 = secondIndex;
               numerator = field_mod (firstShare * x2 - secondShare * x1)
           in rbind (field_inverse (x2 - x1)) (\<lambda>inv. Inr (field_mod (numerator * inv))))"

section \<open>The member\<close>

record CommitteeShare =
  cs_market :: string
  cs_orderIndex :: jsnum
  cs_orderCommitment :: int
  cs_memberIndex :: int
  cs_sideShare :: int
  cs_yesAmountShare :: int
  cs_totalAmountShare :: int
  cs_salt :: int
  cs_expectedShareCommitment :: int
  cs_placementSignature :: string

record CommitteeBatch =
  cb_market :: string
  cb_orderCount :: nat
  cb_yesCount :: int
  cb_noCount :: int
  cb_yesAmount :: int
  cb_noAmount :: int
  cb_commitmentRoot :: int
  cb_memberIndices :: "int \<times> int"

record CommitteeAggregate =
  ca_market :: string
  ca_memberIndex :: int
  ca_orderCount :: nat
  ca_sideShare :: int
  ca_yesAmountShare :: int
  ca_totalAmountShare :: int
  ca_orderCommitments :: "int list"

record CommitteeMember =
  cm_memberIndex :: int
  cm_shares :: "(string, (int, CommitteeShare) jsmap) jsmap"

definition newMember :: "int \<Rightarrow> CommitteeMember" where
  "newMember memberIndex = \<lparr>cm_memberIndex = memberIndex, cm_shares = []\<rparr>"

text \<open>The loop over the named field elements: the first one out of range is reported.\<close>

fun checkFields :: "(string \<times> int) list \<Rightarrow> unit res" where
  "checkFields [] = Inr ()"
| "checkFields ((name, value) # rest) =
     (if value < 0 \<or> value \<ge> BN254_SCALAR_MODULUS
      then Inl (Error (name @ '' is outside the BN254 scalar field'')) else checkFields rest)"

definition shareFields :: "CommitteeShare \<Rightarrow> (string \<times> int) list" where
  "shareFields input =
     [(''orderCommitment'', cs_orderCommitment input), (''sideShare'', cs_sideShare input),
      (''yesAmountShare'', cs_yesAmountShare input), (''totalAmountShare'', cs_totalAmountShare input),
      (''salt'', cs_salt input), (''expectedShareCommitment'', cs_expectedShareCommitment input)]"

definition sameShare :: "CommitteeShare \<Rightarrow> CommitteeShare \<Rightarrow> bool" where
  "sameShare existing input \<longleftrightarrow>
     cs_orderCommitment existing = cs_orderCommitment input \<and>
     cs_sideShare existing = cs_sideShare input \<and>
     cs_yesAmountShare existing = cs_yesAmountShare input \<and>
     cs_totalAmountShare existing = cs_totalAmountShare input \<and>
     cs_salt existing = cs_salt input \<and>
     cs_placementSignature existing = cs_placementSignature input"

definition member_submit :: "hash2 \<Rightarrow> CommitteeMember \<Rightarrow> CommitteeShare \<Rightarrow> CommitteeMember res" where
  "member_submit H self input =
     (if cs_memberIndex input \<noteq> cm_memberIndex self
      then Inl (Error ''share sent to the wrong committee member'')
      else if \<not> is_safe_integer (cs_orderIndex input) \<or> num_int (cs_orderIndex input) < 0
      then Inl (Error ''order index must be a non-negative safe integer'')
      else if cs_placementSignature input = []
      then Inl (Error ''placement signature is required'')
      else rbind (checkFields (shareFields input)) (\<lambda>_.
        if shareCommitment H (cs_sideShare input) (cs_yesAmountShare input)
             (cs_totalAmountShare input) (cs_salt input) \<noteq> cs_expectedShareCommitment input
        then Inl (Error ''share commitment mismatch'')
        else let marketShares = (case map_get (cm_shares self) (cs_market input) of
                                   None \<Rightarrow> [] | Some m \<Rightarrow> m);
                 index = num_int (cs_orderIndex input)
             in case map_get marketShares index of
                  Some existing \<Rightarrow>
                    if \<not> sameShare existing input then Inl (Error ''conflicting share submission'')
                    else Inr self
                | None \<Rightarrow>
                    Inr (self\<lparr>cm_shares := map_put (cm_shares self) (cs_market input)
                                (map_put marketShares index input)\<rparr>)))"

definition member_snapshot :: "CommitteeMember \<Rightarrow> string \<Rightarrow> CommitteeShare list" where
  "member_snapshot self mkt =
     sort_key (\<lambda>share. num_int (cs_orderIndex share))
       (case map_get (cm_shares self) mkt of None \<Rightarrow> [] | Some m \<Rightarrow> map_values m)"

definition member_clearMarket :: "CommitteeMember \<Rightarrow> string \<Rightarrow> CommitteeMember \<times> bool" where
  "member_clearMarket self mkt =
     (self\<lparr>cm_shares := map_delete (cm_shares self) mkt\<rparr>, map_has (cm_shares self) mkt)"

definition aggregateStep ::
    "int \<times> int \<times> int \<times> int list \<Rightarrow> nat \<times> CommitteeShare \<Rightarrow> (int \<times> int \<times> int \<times> int list) res" where
  "aggregateStep st p =
     (case st of (side, yes, tot, commitments) \<Rightarrow> case p of (orderIndex, share) \<Rightarrow>
        if num_int (cs_orderIndex share) \<noteq> int orderIndex
        then Inl (Error ''committee orders must be contiguous from zero'')
        else Inr (field_mod (side + cs_sideShare share), field_mod (yes + cs_yesAmountShare share),
                  field_mod (tot + cs_totalAmountShare share),
                  commitments @ [cs_orderCommitment share]))"

definition member_aggregate :: "CommitteeMember \<Rightarrow> string \<Rightarrow> CommitteeAggregate res" where
  "member_aggregate self mkt =
     (let shares = member_snapshot self mkt
      in if length shares < MIN_PRIVATE_BATCH_ORDERS
         then Inl (Error ''private batches require at least 4 orders'')
         else rbind (rfold aggregateStep (0, 0, 0, []) (enumerate 0 shares))
                (\<lambda>(side, yes, tot, commitments).
              Inr \<lparr>ca_market = mkt, ca_memberIndex = cm_memberIndex self,
                   ca_orderCount = length shares, ca_sideShare = side, ca_yesAmountShare = yes,
                   ca_totalAmountShare = tot, ca_orderCommitments = commitments\<rparr>))"

section \<open>The batch\<close>

text \<open>The loop comparing the two commitment lists position by position.\<close>

definition leafStep :: "int list \<Rightarrow> int list \<Rightarrow> int list \<Rightarrow> nat \<Rightarrow> int list res" where
  "leafStep first second leaves orderIndex =
     (if \<not> (orderIndex < length first \<and> orderIndex < length second
            \<and> first ! orderIndex = second ! orderIndex)
      then Inl (Error ''committee aggregates do not describe the same ordered commitments'')
      else Inr (leaves @ [first ! orderIndex]))"

definition finalizeCommitteeAggregates ::
    "hash2 \<Rightarrow> string \<Rightarrow> CommitteeAggregate \<Rightarrow> CommitteeAggregate \<Rightarrow> CommitteeBatch res" where
  "finalizeCommitteeAggregates H mkt first second =
     (if ca_memberIndex first = ca_memberIndex second
      then Inl (Error ''two distinct committee members are required'')
      else if ca_market first \<noteq> mkt \<or> ca_market second \<noteq> mkt
      then Inl (Error ''committee aggregates belong to a different market'')
      else if ca_orderCount first < MIN_PRIVATE_BATCH_ORDERS
           \<or> ca_orderCount first \<noteq> ca_orderCount second
           \<or> length (ca_orderCommitments first) \<noteq> ca_orderCount first
           \<or> length (ca_orderCommitments second) \<noteq> ca_orderCount second
      then Inl (Error ''committee aggregates must contain the same eligible order count'')
      else rbind (rfold (leafStep (ca_orderCommitments first) (ca_orderCommitments second)) []
             [0..<ca_orderCount first]) (\<lambda>leaves.
        rbind (reconstructIntercept (ca_memberIndex first) (ca_sideShare first)
             (ca_memberIndex second) (ca_sideShare second)) (\<lambda>reconstructed.
        if reconstructed > int (ca_orderCount first)
        then Inl (Error ''reconstructed YES count is outside the order range'')
        else let yesCount = reconstructed;
                 noCount = int (ca_orderCount first) - yesCount
        in if yesCount = 0 \<or> noCount = 0
           then Inl (Error ''one-sided private batches must wait for permissionless refunds'')
           else rbind (reconstructIntercept (ca_memberIndex first) (ca_yesAmountShare first)
                   (ca_memberIndex second) (ca_yesAmountShare second)) (\<lambda>yesAmount.
                rbind (reconstructIntercept (ca_memberIndex first) (ca_totalAmountShare first)
                   (ca_memberIndex second) (ca_totalAmountShare second)) (\<lambda>totalAmount.
                if yesAmount > totalAmount
                then Inl (Error ''reconstructed YES liquidity exceeds total liquidity'')
                else let noAmount = totalAmount - yesAmount
                in if yesAmount < yesCount * MIN_PRIVATE_WAGER_AMOUNT
                      \<or> noAmount < noCount * MIN_PRIVATE_WAGER_AMOUNT
                   then Inl (Error ''reconstructed private liquidity is below the minimum wager bounds'')
                   else rbind (commitmentRoot H leaves) (\<lambda>r.
                     Inr \<lparr>cb_market = mkt, cb_orderCount = ca_orderCount first,
                          cb_yesCount = yesCount, cb_noCount = noCount, cb_yesAmount = yesAmount,
                          cb_noAmount = noAmount, cb_commitmentRoot = r,
                          cb_memberIndices = (ca_memberIndex first, ca_memberIndex second)\<rparr>))))))"

definition finalizeCommitteeBatch ::
    "hash2 \<Rightarrow> string \<Rightarrow> CommitteeMember \<Rightarrow> CommitteeMember \<Rightarrow> CommitteeBatch res" where
  "finalizeCommitteeBatch H mkt first second =
     rbind (member_aggregate first mkt) (\<lambda>a.
     rbind (member_aggregate second mkt) (\<lambda>b. finalizeCommitteeAggregates H mkt a b))"

section \<open>Cutting an order into shares\<close>

text \<open>
  What the order panel does between the witness and the delivery: three bundles of shares, their
  commitments, the order commitment, and the share each member is sent (before it is printed as
  hexadecimal text).
\<close>

record OrderSecrets =
  os_side :: bool
  os_amount :: int
  os_secret :: int
  os_nullifier :: int
  os_sideCoefficient :: int
  os_yesAmountCoefficient :: int
  os_totalAmountCoefficient :: int
  os_salts :: "int list"

definition shareBundle :: "OrderSecrets \<Rightarrow> int \<Rightarrow> int \<times> int \<times> int" where
  "shareBundle s memberIndex =
     (createShamirShare (if os_side s then 1 else 0) (os_sideCoefficient s) memberIndex,
      createShamirShare (if os_side s then os_amount s else 0) (os_yesAmountCoefficient s) memberIndex,
      createShamirShare (os_amount s) (os_totalAmountCoefficient s) memberIndex)"

definition panelCommitment :: "hash2 \<Rightarrow> int \<Rightarrow> int \<Rightarrow> OrderSecrets \<Rightarrow> int" where
  "panelCommitment H marketId stakeAmount s =
     orderCommitment H marketId stakeAmount (os_amount s) (os_side s) (os_secret s) (os_nullifier s)"

definition panelShare ::
    "hash2 \<Rightarrow> string \<Rightarrow> int \<Rightarrow> int \<Rightarrow> OrderSecrets \<Rightarrow> int \<Rightarrow> string \<Rightarrow> nat \<Rightarrow> CommitteeShare" where
  "panelShare H mkt marketId stakeAmount s orderIndex signature index =
     (case shareBundle s (int index + 1) of (side, yes, tot) \<Rightarrow>
        let salt = at_or (os_salts s) index 0
        in \<lparr>cs_market = mkt, cs_orderIndex = JInt orderIndex,
            cs_orderCommitment = panelCommitment H marketId stakeAmount s,
            cs_memberIndex = int index + 1, cs_sideShare = side, cs_yesAmountShare = yes,
            cs_totalAmountShare = tot, cs_salt = salt,
            cs_expectedShareCommitment = shareCommitment H side yes tot salt,
            cs_placementSignature = signature\<rparr>)"

section \<open>What the batch needs from a secret sharing\<close>

locale additive_sharing =
  fixes share :: "int \<Rightarrow> int \<Rightarrow> int \<Rightarrow> int"
    and combine :: "int \<Rightarrow> int \<Rightarrow> int \<Rightarrow> int \<Rightarrow> int res"
    and modulus :: int
    and member :: "int \<Rightarrow> bool"
  assumes combine_share: "member i \<Longrightarrow> member j \<Longrightarrow> i \<noteq> j
      \<Longrightarrow> combine i (share v c i) j (share v c j) = Inr (v mod modulus)"
    and share_zero: "share 0 0 i = 0"
    and share_add: "(share v c i + share w d i) mod modulus = share (v + w) (c + d) i"
begin

text \<open>The running sum a member keeps of the shares it holds of a list of values.\<close>

definition sum_shares :: "int \<Rightarrow> (int \<times> int) list \<Rightarrow> int" where
  "sum_shares i vs = foldl (\<lambda>a (v, c). (a + share v c i) mod modulus) 0 vs"

lemma sum_shares_from:
  "foldl (\<lambda>a (v, c). (a + share v c i) mod modulus) (share w d i) vs
     = share (w + sum_list (map fst vs)) (d + sum_list (map snd vs)) i"
proof (induction vs arbitrary: w d)
  case (Cons p vs)
  then show ?case by (cases p) (simp add: share_add add.assoc)
qed simp

lemma sum_shares_eq: "sum_shares i vs = share (sum_list (map fst vs)) (sum_list (map snd vs)) i"
  unfolding sum_shares_def using sum_shares_from [of i 0 0 vs] by (simp add: share_zero)

lemma combine_sums:
  "member i \<Longrightarrow> member j \<Longrightarrow> i \<noteq> j
     \<Longrightarrow> combine i (sum_shares i vs) j (sum_shares j vs) = Inr (sum_list (map fst vs) mod modulus)"
  by (simp add: sum_shares_eq combine_share)

end

definition committee_index :: "int \<Rightarrow> bool" where
  "committee_index i \<longleftrightarrow> i \<in> {1, 2, 3}"

lemma shamir_reconstructs:
  assumes "committee_index i" "committee_index j" "i \<noteq> j"
  shows "reconstructIntercept i (createShamirShare v c i) j (createShamirShare v c j)
    = Inr (v mod BN254_SCALAR_MODULUS)"
proof -
  let ?p = BN254_SCALAR_MODULUS
  have "j - i \<in> {1, -1, 2, -2}" using assms by (auto simp: committee_index_def)
  from field_inverse_correct [OF this] obtain w where
    w: "field_inverse (j - i) = Inr w" "(j - i) * w mod ?p = 1" by blast
  have "((v + c * i) mod ?p * j - (v + c * j) mod ?p * i) mod ?p
      = ((v + c * i) * j - (v + c * j) * i) mod ?p"
    by (metis mod_diff_cong mod_mult_left_eq)
  also have "(v + c * i) * j - (v + c * j) * i = v * (j - i)" by (simp add: algebra_simps)
  finally have "((v + c * i) mod ?p * j - (v + c * j) mod ?p * i) mod ?p * w mod ?p
      = v * ((j - i) * w) mod ?p" by (simp only: mod_mult_left_eq mult.assoc)
  also have "\<dots> = v mod ?p" using w(2) by (metis mod_mult_right_eq mult.right_neutral)
  finally show ?thesis
    using assms(3) w(1) by (simp add: reconstructIntercept_def createShamirShare_def Let_def)
qed

interpretation shamir: additive_sharing createShamirShare reconstructIntercept
    BN254_SCALAR_MODULUS committee_index
proof unfold_locales
  show "(createShamirShare v c i + createShamirShare w d i) mod BN254_SCALAR_MODULUS
      = createShamirShare (v + w) (c + d) i" for v c i w d
    by (simp add: createShamirShare_def mod_add_eq algebra_simps)
qed (rule shamir_reconstructs, assumption+, simp add: createShamirShare_def)

section \<open>The member as a store\<close>

definition member_lookup :: "CommitteeMember \<Rightarrow> string \<times> int \<Rightarrow> CommitteeShare option" where
  "member_lookup self k =
     (case map_get (cm_shares self) (fst k) of None \<Rightarrow> None | Some m \<Rightarrow> map_get m (snd k))"

definition share_key :: "CommitteeShare \<Rightarrow> string \<times> int" where
  "share_key s = (cs_market s, num_int (cs_orderIndex s))"

text \<open>The invariant of a member: every share is stored under its own market and index.\<close>

definition member_good :: "CommitteeMember \<Rightarrow> bool" where
  "member_good self \<longleftrightarrow>
     (\<forall>mkt m. map_get (cm_shares self) mkt = Some m \<longrightarrow>
        map_ok m \<and> (\<forall>k s. map_get m k = Some s \<longrightarrow> share_key s = (mkt, k)))"

lemma member_good_new [simp]: "member_good (newMember i)"
  by (simp add: member_good_def newMember_def)

lemma member_submit_InrD:
  assumes "member_submit H self s = Inr self'"
  shows "self' = self \<and> (\<exists>w. member_lookup self (share_key s) = Some w \<and> sameShare w s)
     \<or> member_lookup self (share_key s) = None
       \<and> self' = self\<lparr>cm_shares := map_put (cm_shares self) (cs_market s)
           (map_put (case map_get (cm_shares self) (cs_market s) of None \<Rightarrow> [] | Some m \<Rightarrow> m)
             (num_int (cs_orderIndex s)) s)\<rparr>"
  using assms
  by (auto simp: member_submit_def Let_def member_lookup_def share_key_def
      split: if_splits option.splits)

lemma member_lookup_put:
  "member_lookup (self\<lparr>cm_shares := map_put (cm_shares self) mkt
       (map_put (case map_get (cm_shares self) mkt of None \<Rightarrow> [] | Some m \<Rightarrow> m) k s)\<rparr>)
     = (member_lookup self)((mkt, k) \<mapsto> s)"
  by (rule ext) (auto simp: member_lookup_def split: option.splits)

lemma member_good_put:
  assumes "member_good self" "share_key s = (mkt, k)"
  shows "member_good (self\<lparr>cm_shares := map_put (cm_shares self) mkt
       (map_put (case map_get (cm_shares self) mkt of None \<Rightarrow> [] | Some m \<Rightarrow> m) k s)\<rparr>)"
  using assms by (auto simp: member_good_def split: option.splits if_splits)

text \<open>What a submission is checked for before the store is consulted.\<close>

definition share_accepted :: "hash2 \<Rightarrow> int \<Rightarrow> CommitteeShare \<Rightarrow> bool" where
  "share_accepted H i s \<longleftrightarrow>
     cs_memberIndex s = i \<and> is_safe_integer (cs_orderIndex s) \<and> 0 \<le> num_int (cs_orderIndex s) \<and>
     cs_placementSignature s \<noteq> [] \<and>
     list_all (\<lambda>p. 0 \<le> snd p \<and> snd p < BN254_SCALAR_MODULUS) (shareFields s) \<and>
     shareCommitment H (cs_sideShare s) (cs_yesAmountShare s) (cs_totalAmountShare s) (cs_salt s)
       = cs_expectedShareCommitment s"

lemma checkFields_iff:
  "checkFields fs = Inr u \<longleftrightarrow> list_all (\<lambda>p. 0 \<le> snd p \<and> snd p < BN254_SCALAR_MODULUS) fs"
  by (induction fs rule: checkFields.induct) auto

lemma member_submit_accepted:
  assumes "share_accepted H (cm_memberIndex self) s"
  shows "member_submit H self s =
     (case member_lookup self (share_key s) of
        Some w \<Rightarrow> if sameShare w s then Inr self else Inl (Error ''conflicting share submission'')
      | None \<Rightarrow> Inr (self\<lparr>cm_shares := map_put (cm_shares self) (cs_market s)
           (map_put (case map_get (cm_shares self) (cs_market s) of None \<Rightarrow> [] | Some m \<Rightarrow> m)
             (num_int (cs_orderIndex s)) s)\<rparr>))"
proof -
  have "checkFields (shareFields s) = Inr ()"
    using assms by (simp add: checkFields_iff share_accepted_def)
  with assms show ?thesis
    by (auto simp: member_submit_def share_accepted_def Let_def member_lookup_def share_key_def
        split: option.splits)
qed

lemma member_submit_accepts:
  "member_submit H self s = Inr self' \<Longrightarrow> share_accepted H (cm_memberIndex self) s"
  by (auto simp: member_submit_def share_accepted_def checkFields_iff split: if_splits)

lemma member_submit_index: "member_submit H self s = Inr self' \<Longrightarrow> cm_memberIndex self' = cm_memberIndex self"
  by (auto dest: member_submit_InrD)

lemma sameShare_refl [simp]: "sameShare s s"
  by (simp add: sameShare_def)

interpretation member: first_write_store member_lookup "member_submit H" share_key sameShare member_good
  for H
proof unfold_locales
  fix self s self' w
  assume g: "member_good self" and s: "member_submit H self s = Inr self'"
  show "member_good self' \<and> member_lookup self' = (member_lookup self)(share_key s \<mapsto> s)"
    if "member_lookup self (share_key s) = None"
    using member_submit_InrD [OF s] that g
    by (auto simp: share_key_def member_lookup_put intro!: member_good_put)
  show "self' = self \<and> sameShare w s" if "member_lookup self (share_key s) = Some w"
    using member_submit_InrD [OF s] that by auto
  show "member_submit H self' s = Inr self'"
  proof -
    have acc: "share_accepted H (cm_memberIndex self') s"
      using member_submit_accepts [OF s] member_submit_index [OF s] by simp
    have "\<exists>w. member_lookup self' (share_key s) = Some w \<and> sameShare w s"
      using member_submit_InrD [OF s] by (auto simp: share_key_def member_lookup_put)
    with member_submit_accepted [OF acc] show ?thesis by auto
  qed
qed

section \<open>A batch of honest orders\<close>

text \<open>
  The orders of one market with the signature of each placement; the share of order \<open>k\<close> for
  member \<open>i\<close> is the one the order panel cuts.
\<close>

definition honest_share ::
    "hash2 \<Rightarrow> string \<Rightarrow> int \<Rightarrow> int \<Rightarrow> (OrderSecrets \<times> string) list \<Rightarrow> int \<Rightarrow> nat \<Rightarrow> CommitteeShare" where
  "honest_share H mkt marketId stake orders i k =
     panelShare H mkt marketId stake (fst (orders ! k)) (int k) (snd (orders ! k)) (nat (i - 1))"

definition honest_shares ::
    "hash2 \<Rightarrow> string \<Rightarrow> int \<Rightarrow> int \<Rightarrow> (OrderSecrets \<times> string) list \<Rightarrow> int \<Rightarrow> CommitteeShare list" where
  "honest_shares H mkt marketId stake orders i =
     map (honest_share H mkt marketId stake orders i) [0..<length orders]"

definition order_ok :: "OrderSecrets \<times> string \<Rightarrow> bool" where
  "order_ok p \<longleftrightarrow> MIN_PRIVATE_WAGER_AMOUNT \<le> os_amount (fst p) \<and> length (os_salts (fst p)) = 3 \<and>
     list_all (\<lambda>x. 0 \<le> x \<and> x < BN254_SCALAR_MODULUS) (os_salts (fst p)) \<and> snd p \<noteq> []"

definition field_hash :: "hash2 \<Rightarrow> bool" where
  "field_hash H \<longleftrightarrow> (\<forall>a b. 0 \<le> H a b \<and> H a b < BN254_SCALAR_MODULUS)"

lemma committee_index_nat: "committee_index i \<Longrightarrow> int (nat (i - 1)) + 1 = i \<and> nat (i - 1) < 3"
  by (auto simp: committee_index_def)

lemma honest_share_sel [simp]:
  "cs_market (honest_share H mkt mid st os i k) = mkt"
  "cs_orderIndex (honest_share H mkt mid st os i k) = JInt (int k)"
  "cs_orderCommitment (honest_share H mkt mid st os i k) = panelCommitment H mid st (fst (os ! k))"
  "cs_placementSignature (honest_share H mkt mid st os i k) = snd (os ! k)"
  by (simp_all add: honest_share_def panelShare_def Let_def split: prod.splits)

lemma honest_share_shares:
  assumes "committee_index i"
  shows "(cs_sideShare (honest_share H mkt mid st os i k), cs_yesAmountShare (honest_share H mkt mid st os i k),
      cs_totalAmountShare (honest_share H mkt mid st os i k)) = shareBundle (fst (os ! k)) i"
    and "cs_memberIndex (honest_share H mkt mid st os i k) = i"
  using committee_index_nat [OF assms]
  by (simp_all add: honest_share_def panelShare_def Let_def split: prod.splits)

lemma createShamirShare_range: "0 \<le> createShamirShare v c i" "createShamirShare v c i < BN254_SCALAR_MODULUS"
  by (simp_all add: createShamirShare_def)

lemma honest_share_accepted:
  assumes "committee_index i" "field_hash H" "order_ok (os ! k)" "int k \<le> MAX_SAFE_INTEGER"
  shows "share_accepted H i (honest_share H mkt mid st os i k)"
proof -
  let ?s = "honest_share H mkt mid st os i k" and ?m = "nat (i - 1)"
  have m: "?m < length (os_salts (fst (os ! k)))"
    using committee_index_nat [OF assms(1)] assms(3) by (simp add: order_ok_def)
  then have salt: "cs_salt ?s = os_salts (fst (os ! k)) ! ?m"
    by (simp add: honest_share_def panelShare_def Let_def split: prod.splits)
  have salt': "0 \<le> cs_salt ?s" "cs_salt ?s < BN254_SCALAR_MODULUS"
    using assms(3) m unfolding salt by (auto simp: order_ok_def list_all_length)
  have e: "cs_expectedShareCommitment ?s = shareCommitment H (cs_sideShare ?s) (cs_yesAmountShare ?s)
      (cs_totalAmountShare ?s) (cs_salt ?s)"
    by (simp add: honest_share_def panelShare_def Let_def split: prod.splits)
  have H: "0 \<le> H a b" "H a b < BN254_SCALAR_MODULUS" for a b
    using assms(2) by (simp_all add: field_hash_def)
  show ?thesis
    using honest_share_shares [OF assms(1), of H mkt mid st os k] assms(3,4) e salt'
    by (auto simp: share_accepted_def shareFields_def shareBundle_def createShamirShare_range
        shareCommitment_def panelCommitment_def orderCommitment_def Let_def H order_ok_def
        safe_int_def MAX_SAFE_INTEGER_def)
qed

text \<open>
  Feeding a member any sequence of honest shares, with repetitions and in any order, is accepted
  and leaves it with exactly the shares sent.
\<close>

lemma honest_submissions:
  assumes "committee_index i" "field_hash H" "\<forall>p\<in>set os. order_ok p"
    and "int (length os) \<le> MAX_SAFE_INTEGER"
    and "\<forall>s\<in>set subs. \<exists>k<length os. s = honest_share H mkt mid st os i k"
  shows "\<exists>m. rfold (member_submit H) (newMember i) subs = Inr m \<and> member_good m
    \<and> cm_memberIndex m = i
    \<and> (\<forall>k s. member_lookup m (mkt, k) = Some s \<longleftrightarrow> s \<in> set subs \<and> num_int (cs_orderIndex s) = k)"
  using assms(5)
proof (induction subs rule: rev_induct)
  case Nil
  then show ?case by (simp add: newMember_def member_lookup_def member_good_def)
next
  case (snoc s subs)
  then obtain m where m: "rfold (member_submit H) (newMember i) subs = Inr m" "member_good m"
    "cm_memberIndex m = i"
    "\<forall>k s. member_lookup m (mkt, k) = Some s \<longleftrightarrow> s \<in> set subs \<and> num_int (cs_orderIndex s) = k"
    by auto
  from snoc.prems obtain k where k: "k < length os" "s = honest_share H mkt mid st os i k" by auto
  have "share_accepted H i s"
    using honest_share_accepted [OF assms(1,2), of os k] assms(3,4) k by simp
  then have acc: "share_accepted H (cm_memberIndex m) s" by (simp add: m(3))
  have uniq: "s' = s" if "s' \<in> set subs" "num_int (cs_orderIndex s') = int k" for s'
    using that snoc.prems k(2) by fastforce
  show ?case
  proof (cases "member_lookup m (share_key s)")
    case None
    define m' where "m' = m\<lparr>cm_shares := map_put (cm_shares m) mkt
        (map_put (case map_get (cm_shares m) mkt of None \<Rightarrow> [] | Some m \<Rightarrow> m) (int k) s)\<rparr>"
    have s: "member_submit H m s = Inr m'"
      using member_submit_accepted [OF acc] None k(2) by (simp add: m'_def)
    have lookup: "member_lookup m' = (member_lookup m)((mkt, int k) \<mapsto> s)"
      unfolding m'_def by (rule member_lookup_put)
    have "member_good m'" using member.submit_good [OF m(2) s] .
    moreover have "member_lookup m' (mkt, j) = Some t
        \<longleftrightarrow> t \<in> set (subs @ [s]) \<and> num_int (cs_orderIndex t) = j" for j t
    proof (cases "j = int k")
      case True
      with lookup uniq k(2) show ?thesis by auto
    next
      case False
      with lookup m(4) k(2) show ?thesis by auto
    qed
    ultimately show ?thesis using m(1,3) s by (simp add: rfold_append m'_def)
  next
    case (Some w)
    have "w = s" using Some m(4) uniq k(2) by (auto simp: share_key_def)
    then have "member_submit H m s = Inr m" using member_submit_accepted [OF acc] Some by simp
    moreover have "s \<in> set subs" using Some \<open>w = s\<close> m(4) k(2) by (auto simp: share_key_def)
    ultimately show ?thesis using m by (auto simp: rfold_append)
  qed
qed

lemma honest_snapshot:
  assumes "member_good m" "set subs = set (honest_shares H mkt mid st os i)"
    and "\<forall>k s. member_lookup m (mkt, k) = Some s \<longleftrightarrow> s \<in> set subs \<and> num_int (cs_orderIndex s) = k"
    and "os \<noteq> []"
  shows "member_snapshot m mkt = honest_shares H mkt mid st os i"
proof -
  let ?hs = "honest_shares H mkt mid st os i" and ?f = "\<lambda>s. num_int (cs_orderIndex s)"
  have f: "map ?f ?hs = map int [0..<length os]" by (simp add: honest_shares_def)
  have "honest_share H mkt mid st os i 0 \<in> set subs"
    using assms(2,4) by (auto simp: honest_shares_def)
  then obtain ms where ms: "map_get (cm_shares m) mkt = Some ms"
    using assms(3) by (fastforce simp: member_lookup_def split: option.splits)
  with assms(1) have ok: "map_ok ms" and key: "\<And>k s. map_get ms k = Some s \<Longrightarrow> ?f s = k"
    by (auto simp: member_good_def share_key_def)
  have "map ?f (map_values ms) = map fst ms"
    using key ok by (auto simp: map_values_def map_get_def map_ok_def map_of_eq_Some_iff)
  with ok have d: "distinct (map ?f (map_values ms))" by (simp add: map_ok_def)
  have "set (map_values ms) = set ?hs"
    using assms(3) ms key by (auto simp: map_values_iff [OF ok] member_lookup_def assms(2) [symmetric])
  moreover have "sorted (map ?f ?hs)" "distinct (map ?f ?hs)"
    unfolding f by (auto simp: sorted_iff_nth_mono distinct_map)
  ultimately show ?thesis
    using d ms by (simp add: member_snapshot_def) (rule sort_key_unique)
qed

lemma aggregate_fold:
  assumes "\<forall>k<length shares. cs_orderIndex (shares ! k) = JInt (int (n + k))"
  shows "rfold aggregateStep (a, b, c, ds) (enumerate n shares) =
    Inr (foldl (\<lambda>x s. field_mod (x + cs_sideShare s)) a shares,
         foldl (\<lambda>x s. field_mod (x + cs_yesAmountShare s)) b shares,
         foldl (\<lambda>x s. field_mod (x + cs_totalAmountShare s)) c shares,
         ds @ map cs_orderCommitment shares)"
  using assms
proof (induction shares arbitrary: n a b c ds)
  case (Cons s shares)
  have "cs_orderIndex s = JInt (int n)" using Cons.prems by (auto dest: spec [of _ 0])
  moreover have "\<forall>k<length shares. cs_orderIndex (shares ! k) = JInt (int (Suc n + k))"
    using Cons.prems by auto
  ultimately show ?case using Cons.IH [of "Suc n"] by (simp add: aggregateStep_def)
qed simp

text \<open>The three values every order shares, with their coefficients.\<close>

definition side_values :: "(OrderSecrets \<times> string) list \<Rightarrow> (int \<times> int) list" where
  "side_values os = map (\<lambda>p. (if os_side (fst p) then 1 else 0, os_sideCoefficient (fst p))) os"

definition yes_values :: "(OrderSecrets \<times> string) list \<Rightarrow> (int \<times> int) list" where
  "yes_values os = map (\<lambda>p. (if os_side (fst p) then os_amount (fst p) else 0,
      os_yesAmountCoefficient (fst p))) os"

definition total_values :: "(OrderSecrets \<times> string) list \<Rightarrow> (int \<times> int) list" where
  "total_values os = map (\<lambda>p. (os_amount (fst p), os_totalAmountCoefficient (fst p))) os"

lemma foldl_map_eq:
  assumes "map f xs = map g ys"
  shows "foldl (\<lambda>a x. h a (f x)) a xs = foldl (\<lambda>a y. h a (g y)) a ys"
  using assms by (metis (mono_tags, lifting) foldl_map)

lemma honest_aggregate:
  assumes "committee_index i" "member_snapshot m mkt = honest_shares H mkt mid st os i"
    and "cm_memberIndex m = i" "MIN_PRIVATE_BATCH_ORDERS \<le> length os"
  shows "member_aggregate m mkt = Inr \<lparr>ca_market = mkt, ca_memberIndex = i,
     ca_orderCount = length os, ca_sideShare = shamir.sum_shares i (side_values os),
     ca_yesAmountShare = shamir.sum_shares i (yes_values os),
     ca_totalAmountShare = shamir.sum_shares i (total_values os),
     ca_orderCommitments = map (\<lambda>p. panelCommitment H mid st (fst p)) os\<rparr>"
proof -
  let ?hs = "honest_shares H mkt mid st os i"
  have len: "length ?hs = length os" by (simp add: honest_shares_def)
  have nth: "?hs ! k = honest_share H mkt mid st os i k" if "k < length os" for k
    using that by (simp add: honest_shares_def)
  have b: "(cs_sideShare (honest_share H mkt mid st os i k), cs_yesAmountShare (honest_share H mkt mid st os i k),
      cs_totalAmountShare (honest_share H mkt mid st os i k)) = shareBundle (fst (os ! k)) i" for k
    by (rule honest_share_shares [OF assms(1)])
  have maps: "map cs_sideShare ?hs = map (\<lambda>(v, c). createShamirShare v c i) (side_values os)"
    "map cs_yesAmountShare ?hs = map (\<lambda>(v, c). createShamirShare v c i) (yes_values os)"
    "map cs_totalAmountShare ?hs = map (\<lambda>(v, c). createShamirShare v c i) (total_values os)"
    "map cs_orderCommitment ?hs = map (\<lambda>p. panelCommitment H mid st (fst p)) os"
    using b by (auto intro!: nth_equalityI
        simp: len nth side_values_def yes_values_def total_values_def shareBundle_def)
  have "rfold aggregateStep (0, 0, 0, []) (enumerate 0 ?hs) =
    Inr (shamir.sum_shares i (side_values os), shamir.sum_shares i (yes_values os),
         shamir.sum_shares i (total_values os), map (\<lambda>p. panelCommitment H mid st (fst p)) os)"
    using aggregate_fold [of ?hs 0 0 0 0 "[]"] maps(4) len nth
      foldl_map_eq [OF maps(1), of "\<lambda>x y. field_mod (x + y)" 0]
      foldl_map_eq [OF maps(2), of "\<lambda>x y. field_mod (x + y)" 0]
      foldl_map_eq [OF maps(3), of "\<lambda>x y. field_mod (x + y)" 0]
    by (simp add: shamir.sum_shares_def split_def)
  with assms len show ?thesis
    by (simp add: member_aggregate_def Let_def)
qed

lemma sum_side_values:
  "sum_list (map fst (side_values os)) = int (length (filter (\<lambda>p. os_side (fst p)) os))"
  by (induction os) (auto simp: side_values_def)

definition amounts_of :: "bool \<Rightarrow> (OrderSecrets \<times> string) list \<Rightarrow> int" where
  "amounts_of side os = (\<Sum>p\<leftarrow>filter (\<lambda>p. os_side (fst p) = side) os. os_amount (fst p))"

definition count_of :: "bool \<Rightarrow> (OrderSecrets \<times> string) list \<Rightarrow> int" where
  "count_of side os = int (length (filter (\<lambda>p. os_side (fst p) = side) os))"

lemma sum_yes_values: "sum_list (map fst (yes_values os)) = amounts_of True os"
  by (induction os) (auto simp: yes_values_def amounts_of_def)

lemma sum_total_values: "sum_list (map fst (total_values os)) = amounts_of True os + amounts_of False os"
  by (induction os) (auto simp: total_values_def amounts_of_def)

lemma count_total: "count_of True os + count_of False os = int (length os)"
  by (induction os) (auto simp: count_of_def)

lemma amounts_bound:
  "\<forall>p\<in>set os. order_ok p \<Longrightarrow> count_of side os * MIN_PRIVATE_WAGER_AMOUNT \<le> amounts_of side os"
  by (induction os) (auto simp: count_of_def amounts_of_def order_ok_def algebra_simps)

lemma leaf_fold: "n \<le> length xs \<Longrightarrow> rfold (leafStep xs xs) [] [0..<n] = Inr (take n xs)"
  by (induction n) (simp_all only: rfold_upt_Suc, simp_all add: leafStep_def take_Suc_conv_app_nth)

lemma leaf_fold_eq:
  assumes "rfold (leafStep xs ys) ls [0..<n] = Inr ms"
  shows "n \<le> length xs \<and> n \<le> length ys \<and> take n xs = take n ys \<and> ms = ls @ take n xs"
  using assms
proof (induction n arbitrary: ms)
  case (Suc n)
  then obtain ks where ks: "rfold (leafStep xs ys) ls [0..<n] = Inr ks" "leafStep xs ys ks n = Inr ms"
    by (auto simp only: rfold_upt_Suc rbind_eq_Inr)
  from ks(2) have "n < length xs" "n < length ys" "xs ! n = ys ! n" "ms = ks @ [xs ! n]"
    by (auto simp: leafStep_def split: if_splits)
  with Suc.IH [OF ks(1)] show ?case by (simp add: take_Suc_conv_app_nth)
qed simp

lemma commitmentRoot_InrD:
  "commitmentRoot H leaves = Inr r \<Longrightarrow> r = tree_node H leaves TREE_DEPTH 0"
  using commitmentRoot_tree [of leaves H] by (auto simp: commitmentRoot_def split: if_splits)

text \<open>A member's life: submissions in sequence, a refused one leaving it unchanged.\<close>

primrec member_history :: "hash2 \<Rightarrow> CommitteeMember \<Rightarrow> CommitteeShare list \<Rightarrow> CommitteeMember" where
  "member_history H m [] = m"
| "member_history H m (s # ss) = member_history H (try_catch (member_submit H m s) (\<lambda>_. m)) ss"

lemma member_history_eq: "member_history H m ss = member.history H m ss"
  by (induction ss arbitrary: m) auto

lemma reconstruct_range:
  assumes "reconstructIntercept i a j b = Inr v"
  shows "0 \<le> v" "v < BN254_SCALAR_MODULUS"
  using assms by (auto simp: reconstructIntercept_def Let_def split: if_splits)

section \<open>Properties\<close>

text \<open>
  Claim C5. The committee computes the batch without seeing an order: two distinct members that
  were each sent the shares of a set of well-formed two-sided orders, in any order and with any
  repetitions, accept them all and together reconstruct exactly the counts and amounts of the two
  sides and the root of the order commitments in placement order.
\<close>

theorem honest_batch_reconstructs:
  assumes "committee_index i" "committee_index j" "i \<noteq> j" "field_hash H"
    and "\<forall>p\<in>set os. order_ok p" "4 \<le> length os" "length os \<le> 65536"
    and "0 < count_of True os" "0 < count_of False os"
    and "amounts_of True os + amounts_of False os < BN254_SCALAR_MODULUS"
    and "set subs1 = set (honest_shares H mkt mid st os i)"
    and "set subs2 = set (honest_shares H mkt mid st os j)"
  shows "\<exists>m1 m2. rfold (member_submit H) (newMember i) subs1 = Inr m1
    \<and> rfold (member_submit H) (newMember j) subs2 = Inr m2
    \<and> finalizeCommitteeBatch H mkt m1 m2 = Inr \<lparr>cb_market = mkt, cb_orderCount = length os,
        cb_yesCount = count_of True os, cb_noCount = count_of False os,
        cb_yesAmount = amounts_of True os, cb_noAmount = amounts_of False os,
        cb_commitmentRoot = tree_node H (map (\<lambda>p. panelCommitment H mid st (fst p)) os) 16 0,
        cb_memberIndices = (i, j)\<rparr>"
proof -
  let ?leaves = "map (\<lambda>p. panelCommitment H mid st (fst p)) os"
  let ?agg = "\<lambda>i. \<lparr>ca_market = mkt, ca_memberIndex = i,
     ca_orderCount = length os, ca_sideShare = shamir.sum_shares i (side_values os),
     ca_yesAmountShare = shamir.sum_shares i (yes_values os),
     ca_totalAmountShare = shamir.sum_shares i (total_values os), ca_orderCommitments = ?leaves\<rparr>"
  have member: "\<exists>m. rfold (member_submit H) (newMember i) subs = Inr m \<and> member_aggregate m mkt = Inr (?agg i)"
    if i: "committee_index i" and subs: "set subs = set (honest_shares H mkt mid st os i)" for i subs
  proof -
    have "\<forall>s\<in>set subs. \<exists>k<length os. s = honest_share H mkt mid st os i k"
      unfolding subs by (auto simp: honest_shares_def)
    moreover have "int (length os) \<le> MAX_SAFE_INTEGER"
      using assms(7) by (simp add: MAX_SAFE_INTEGER_def)
    ultimately obtain m where m:
      "rfold (member_submit H) (newMember i) subs = Inr m" "member_good m" "cm_memberIndex m = i"
      "\<forall>k s. member_lookup m (mkt, k) = Some s \<longleftrightarrow> s \<in> set subs \<and> num_int (cs_orderIndex s) = k"
      using honest_submissions [OF i assms(4,5)] by blast
    have "member_snapshot m mkt = honest_shares H mkt mid st os i"
      by (rule honest_snapshot [OF m(2) subs m(4)]) (use assms(6) in auto)
    from honest_aggregate [OF i this m(3)] assms(6) m(1) show ?thesis
      by (auto simp: MIN_PRIVATE_BATCH_ORDERS_def)
  qed
  from member [OF assms(1,11)] member [OF assms(2,12)] obtain m1 m2 where ms:
    "rfold (member_submit H) (newMember i) subs1 = Inr m1" "member_aggregate m1 mkt = Inr (?agg i)"
    "rfold (member_submit H) (newMember j) subs2 = Inr m2" "member_aggregate m2 mkt = Inr (?agg j)"
    by blast
  have nn: "0 \<le> amounts_of side os" for side
    by (rule order_trans [OF _ amounts_bound [OF assms(5)]])
      (simp add: count_of_def MIN_PRIVATE_WAGER_AMOUNT_def)
  have small: "count_of True os < BN254_SCALAR_MODULUS" "count_of True os < int (length os)"
    using count_total [of os] assms(7,9) by (auto simp: BN254_SCALAR_MODULUS_def)
  have rec: "reconstructIntercept i (shamir.sum_shares i (side_values os)) j
        (shamir.sum_shares j (side_values os)) = Inr (count_of True os)"
    "reconstructIntercept i (shamir.sum_shares i (yes_values os)) j
        (shamir.sum_shares j (yes_values os)) = Inr (amounts_of True os)"
    "reconstructIntercept i (shamir.sum_shares i (total_values os)) j
        (shamir.sum_shares j (total_values os)) = Inr (amounts_of True os + amounts_of False os)"
    using assms(8,10) nn [of True] nn [of False] small
    by (simp_all add: shamir.combine_sums [OF assms(1,2,3)] sum_side_values sum_yes_values
        sum_total_values count_of_def)
  have root: "commitmentRoot H ?leaves = Inr (tree_node H ?leaves 16 0)"
    using commitmentRoot_tree [of ?leaves H] assms(7) by (simp add: TREE_DEPTH_def)
  have no: "int (length os) - count_of True os = count_of False os"
    using count_total [of os] by simp
  have "finalizeCommitteeAggregates H mkt (?agg i) (?agg j) = Inr \<lparr>cb_market = mkt,
        cb_orderCount = length os,
        cb_yesCount = count_of True os, cb_noCount = count_of False os,
        cb_yesAmount = amounts_of True os, cb_noAmount = amounts_of False os,
        cb_commitmentRoot = tree_node H ?leaves 16 0, cb_memberIndices = (i, j)\<rparr>"
    using assms(3,6,8,9) small nn [of False] amounts_bound [OF assms(5), of True]
      amounts_bound [OF assms(5), of False] leaf_fold [of "length os" ?leaves]
    by (simp add: finalizeCommitteeAggregates_def MIN_PRIVATE_BATCH_ORDERS_def rec root no Let_def)
  with ms show ?thesis by (simp add: finalizeCommitteeBatch_def)
qed

theorem honest_batch_reconstructs_witness:
  "\<exists>m1 m3 r. rfold (member_submit (\<lambda>a b. (3 * a + 5 * b + 1) mod BN254_SCALAR_MODULUS)) (newMember 1)
      (honest_shares (\<lambda>a b. (3 * a + 5 * b + 1) mod BN254_SCALAR_MODULUS) ''m'' 7 5000000
        (map (\<lambda>(d, a). (\<lparr>os_side = d, os_amount = a, os_secret = 5, os_nullifier = 6,
            os_sideCoefficient = 11, os_yesAmountCoefficient = 12, os_totalAmountCoefficient = 13,
            os_salts = [1, 2, 3]\<rparr>, ''sig''))
          [(True, 1000000), (False, 2000000), (True, 3000000), (True, 4000000)]) 1) = Inr m1
    \<and> finalizeCommitteeBatch (\<lambda>a b. (3 * a + 5 * b + 1) mod BN254_SCALAR_MODULUS) ''m'' m1 m3
      = Inr \<lparr>cb_market = ''m'', cb_orderCount = 4, cb_yesCount = 3, cb_noCount = 1,
          cb_yesAmount = 8000000, cb_noAmount = 2000000, cb_commitmentRoot = r,
          cb_memberIndices = (1, 3)\<rparr>"
proof -
  let ?H = "\<lambda>a b. (3 * a + 5 * b + 1) mod BN254_SCALAR_MODULUS"
  let ?os = "map (\<lambda>(d, a). (\<lparr>os_side = d, os_amount = a, os_secret = 5, os_nullifier = 6,
            os_sideCoefficient = 11, os_yesAmountCoefficient = 12, os_totalAmountCoefficient = 13,
            os_salts = [1, 2, 3]\<rparr>, ''sig''))
          [(True, 1000000), (False, 2000000), (True, 3000000), (True, 4000000)]"
  have p: "committee_index 1" "committee_index 3" "(1::int) \<noteq> 3" by (simp_all add: committee_index_def)
  have H: "field_hash ?H" by (simp add: field_hash_def)
  have ok: "\<forall>p\<in>set ?os. order_ok p"
    by (simp add: order_ok_def MIN_PRIVATE_WAGER_AMOUNT_def BN254_SCALAR_MODULUS_def)
  have n: "4 \<le> length ?os" "length ?os \<le> 65536" by simp_all
  have c: "count_of True ?os = 3" "count_of False ?os = 1" "amounts_of True ?os = 8000000"
    "amounts_of False ?os = 2000000" by (simp_all add: count_of_def amounts_of_def)
  have c': "0 < count_of True ?os" "0 < count_of False ?os"
    "amounts_of True ?os + amounts_of False ?os < BN254_SCALAR_MODULUS"
    unfolding c by (simp_all add: BN254_SCALAR_MODULUS_def)
  define os where "os = ?os"
  have len: "length os = 4" by (simp add: os_def)
  have "set (rev (honest_shares ?H ''m'' 7 5000000 os 3)) = set (honest_shares ?H ''m'' 7 5000000 os 3)"
    by simp
  from honest_batch_reconstructs [OF p H ok [folded os_def] n [folded os_def] c' [folded os_def] refl this]
  show ?thesis unfolding os_def [symmetric] len c [folded os_def] by blast
qed

lemma finalized_batch:
  assumes "finalizeCommitteeAggregates H mkt a b = Inr B"
  shows "4 \<le> cb_orderCount B \<and> 0 < cb_yesCount B \<and> 0 < cb_noCount B
    \<and> cb_yesCount B + cb_noCount B = int (cb_orderCount B)
    \<and> cb_yesCount B * 1000000 \<le> cb_yesAmount B \<and> cb_noCount B * 1000000 \<le> cb_noAmount B
    \<and> cb_yesAmount B + cb_noAmount B < BN254_SCALAR_MODULUS
    \<and> ca_orderCommitments a = ca_orderCommitments b
    \<and> cb_orderCount B = length (ca_orderCommitments a)
    \<and> cb_commitmentRoot B = tree_node H (ca_orderCommitments a) 16 0
    \<and> fst (cb_memberIndices B) \<noteq> snd (cb_memberIndices B)"
proof -
  from assms obtain leaves y ya ta r where *: "ca_memberIndex a \<noteq> ca_memberIndex b"
    "4 \<le> ca_orderCount a" "ca_orderCount a = ca_orderCount b"
    "length (ca_orderCommitments a) = ca_orderCount a" "length (ca_orderCommitments b) = ca_orderCount b"
    "rfold (leafStep (ca_orderCommitments a) (ca_orderCommitments b)) [] [0..<ca_orderCount a] = Inr leaves"
    "reconstructIntercept (ca_memberIndex a) (ca_sideShare a) (ca_memberIndex b) (ca_sideShare b) = Inr y"
    "y \<le> int (ca_orderCount a)" "y \<noteq> 0" "int (ca_orderCount a) - y \<noteq> 0"
    "reconstructIntercept (ca_memberIndex a) (ca_totalAmountShare a) (ca_memberIndex b) (ca_totalAmountShare b)
      = Inr ta" "ya \<le> ta"
    "y * MIN_PRIVATE_WAGER_AMOUNT \<le> ya"
    "(int (ca_orderCount a) - y) * MIN_PRIVATE_WAGER_AMOUNT \<le> ta - ya"
    "commitmentRoot H leaves = Inr r"
    "B = \<lparr>cb_market = mkt, cb_orderCount = ca_orderCount a, cb_yesCount = y,
        cb_noCount = int (ca_orderCount a) - y, cb_yesAmount = ya, cb_noAmount = ta - ya,
        cb_commitmentRoot = r, cb_memberIndices = (ca_memberIndex a, ca_memberIndex b)\<rparr>"
    by (auto simp: finalizeCommitteeAggregates_def Let_def MIN_PRIVATE_BATCH_ORDERS_def not_le not_less
        split: if_splits)
  from leaf_fold_eq [OF *(6)] *(3-5) have l: "leaves = ca_orderCommitments a"
    "ca_orderCommitments a = ca_orderCommitments b" by simp_all
  have "r = tree_node H leaves 16 0"
    using commitmentRoot_InrD [OF *(15)] by (simp add: TREE_DEPTH_def)
  then show ?thesis
    using * l reconstruct_range [OF *(7)] reconstruct_range [OF *(11)]
    by (simp add: MIN_PRIVATE_WAGER_AMOUNT_def)
qed

text \<open>
  Claim C6. Whatever batch is returned is well formed: at least four orders, both sides present
  and adding up to the order count, each side's amount at least the minimum wager per order, and
  the root that of the order commitments both members reported.
\<close>

theorem batch_well_formed:
  assumes "finalizeCommitteeAggregates H mkt a b = Inr B"
  shows "4 \<le> cb_orderCount B \<and> 0 < cb_yesCount B \<and> 0 < cb_noCount B
    \<and> cb_yesCount B + cb_noCount B = int (cb_orderCount B)
    \<and> cb_yesCount B * 1000000 \<le> cb_yesAmount B \<and> cb_noCount B * 1000000 \<le> cb_noAmount B
    \<and> cb_yesAmount B + cb_noAmount B < BN254_SCALAR_MODULUS
    \<and> ca_orderCommitments a = ca_orderCommitments b
    \<and> cb_orderCount B = length (ca_orderCommitments a)
    \<and> cb_commitmentRoot B = tree_node H (ca_orderCommitments a) 16 0
    \<and> fst (cb_memberIndices B) \<noteq> snd (cb_memberIndices B)"
  by (rule finalized_batch [OF assms])

theorem batch_well_formed_witness:
  "\<exists>B. finalizeCommitteeAggregates (\<lambda>a b. 3 * a + 5 * b + 1) ''m''
      \<lparr>ca_market = ''m'', ca_memberIndex = 1, ca_orderCount = 4, ca_sideShare = 5,
        ca_yesAmountShare = 3000001, ca_totalAmountShare = 9000002, ca_orderCommitments = [1, 2, 3, 4]\<rparr>
      \<lparr>ca_market = ''m'', ca_memberIndex = 2, ca_orderCount = 4, ca_sideShare = 7,
        ca_yesAmountShare = 3000002, ca_totalAmountShare = 9000004, ca_orderCommitments = [1, 2, 3, 4]\<rparr>
      = Inr B \<and> 0 < cb_yesCount B \<and> cb_yesCount B * 1000000 \<le> cb_yesAmount B"
proof -
  let ?H = "\<lambda>a b. 3 * a + 5 * b + 1 :: int"
  let ?a = "\<lparr>ca_market = ''m'', ca_memberIndex = 1, ca_orderCount = 4, ca_sideShare = 5,
        ca_yesAmountShare = 3000001, ca_totalAmountShare = 9000002, ca_orderCommitments = [1, 2, 3, 4]\<rparr>"
  let ?b = "\<lparr>ca_market = ''m'', ca_memberIndex = 2, ca_orderCount = 4, ca_sideShare = 7,
        ca_yesAmountShare = 3000002, ca_totalAmountShare = 9000004, ca_orderCommitments = [1, 2, 3, 4]\<rparr>"
  have ci: "committee_index 1" "committee_index 2" "(1::int) \<noteq> 2" by (simp_all add: committee_index_def)
  have sh: "createShamirShare 3 2 1 = 5" "createShamirShare 3 2 2 = 7"
    "createShamirShare 3000000 1 1 = 3000001" "createShamirShare 3000000 1 2 = 3000002"
    "createShamirShare 9000000 2 1 = 9000002" "createShamirShare 9000000 2 2 = 9000004"
    by (simp_all add: createShamirShare_def BN254_SCALAR_MODULUS_def)
  have m: "x mod BN254_SCALAR_MODULUS = x" if "x \<in> {3, 3000000, 9000000}" for x
    using that by (auto simp: BN254_SCALAR_MODULUS_def)
  have r: "reconstructIntercept 1 5 2 7 = Inr 3" "reconstructIntercept 1 3000001 2 3000002 = Inr 3000000"
    "reconstructIntercept 1 9000002 2 9000004 = Inr 9000000"
    using shamir_reconstructs [OF ci, of 3 2] shamir_reconstructs [OF ci, of 3000000 1]
      shamir_reconstructs [OF ci, of 9000000 2] by (simp_all add: sh m)
  have l: "rfold (leafStep [1, 2, 3, 4] [1, 2, 3, 4]) [] [0..<4] = Inr [1, 2, 3, 4]"
    using leaf_fold [of 4 "[1, 2, 3, 4]"] by simp
  have "\<exists>B. finalizeCommitteeAggregates ?H ''m'' ?a ?b = Inr B"
    using commitmentRoot_tree [of "[1, 2, 3, 4]" ?H]
    by (simp add: finalizeCommitteeAggregates_def r l MIN_PRIVATE_BATCH_ORDERS_def
        MIN_PRIVATE_WAGER_AMOUNT_def TREE_DEPTH_def del: upt_rec_numeral)
  then obtain B where B: "finalizeCommitteeAggregates ?H ''m'' ?a ?b = Inr B" by blast
  from batch_well_formed [OF B] B show ?thesis by blast
qed

text \<open>
  Claim C7. The first accepted share of an order stays: whatever is submitted before and after, the
  member keeps answering it, or the earlier share of that order that agrees with it in all compared
  fields, and sending an accepted share again changes nothing.
\<close>

theorem accepted_share_stays:
  assumes "member_submit H (member_history H (newMember i) before) s = Inr m"
  shows "(\<exists>w. member_lookup (member_history H (newMember i) (before @ s # later)) (share_key s) = Some w
      \<and> sameShare w s) \<and> member_submit H m s = Inr m"
proof -
  have g: "member_good (newMember i)" by simp
  from assms have s: "member_submit H (member.history H (newMember i) before) s = Inr m"
    by (simp add: member_history_eq)
  from member.accepted_stays [OF g s] member.submit_again [OF member.history_good [OF g] s]
  show ?thesis unfolding member_history_eq by (metis sameShare_refl)
qed

theorem accepted_share_stays_witness:
  "\<exists>m w. member_submit (\<lambda>a b. a + b) (member_history (\<lambda>a b. a + b) (newMember 2) [])
     \<lparr>cs_market = ''m'', cs_orderIndex = JInt 0, cs_orderCommitment = 1, cs_memberIndex = 2,
      cs_sideShare = 3, cs_yesAmountShare = 4, cs_totalAmountShare = 5, cs_salt = 6,
      cs_expectedShareCommitment = 18, cs_placementSignature = ''sig''\<rparr> = Inr m
   \<and> member_lookup m (''m'', 0) = Some w \<and> cs_salt w = 6"
proof -
  let ?s = "\<lparr>cs_market = ''m'', cs_orderIndex = JInt 0, cs_orderCommitment = 1, cs_memberIndex = 2,
      cs_sideShare = 3, cs_yesAmountShare = 4, cs_totalAmountShare = 5, cs_salt = 6,
      cs_expectedShareCommitment = 18, cs_placementSignature = ''sig''\<rparr>"
  let ?H = "\<lambda>a b :: int. a + b"
  have "\<exists>m. member_submit ?H (member_history ?H (newMember 2) []) ?s = Inr m"
    by (simp add: member_submit_def newMember_def shareFields_def BN254_SCALAR_MODULUS_def
        shareCommitment_def safe_int_def MAX_SAFE_INTEGER_def)
  then obtain m where m: "member_submit ?H (member_history ?H (newMember 2) []) ?s = Inr m" by blast
  from accepted_share_stays [OF m, of "[]"] m show ?thesis
    by (auto simp: share_key_def sameShare_def)
qed

text \<open>
  A single member learns nothing: for each member index, every value whatsoever has a
  coefficient in the field that produces the share the member holds.
\<close>

theorem single_share_hides_value:
  assumes "committee_index i"
  shows "\<exists>c'. 0 \<le> c' \<and> c' < BN254_SCALAR_MODULUS
    \<and> createShamirShare v' c' i = createShamirShare v c i"
proof -
  let ?p = BN254_SCALAR_MODULUS
  obtain w where w: "i * w mod ?p = 1"
  proof -
    have "\<exists>w. i * w mod ?p = 1"
    proof (cases "i = 3")
      case True
      have "3 * ((2 * ?p + 1) div 3) mod ?p = 1" by (simp add: BN254_SCALAR_MODULUS_def)
      with True show ?thesis by blast
    next
      case False
      with assms have "i \<in> {1, -1, 2, -2}" by (auto simp: committee_index_def)
      from field_inverse_correct [OF this] show ?thesis by blast
    qed
    with that show thesis by blast
  qed
  define c' where "c' = (c + (v - v') * w) mod ?p"
  have "(v' + c' * i) mod ?p = (v' + (c + (v - v') * w) * i) mod ?p"
    unfolding c'_def by (metis mod_add_right_eq mod_mult_left_eq)
  also have "v' + (c + (v - v') * w) * i = v' + c * i + (v - v') * (i * w)" by (simp add: algebra_simps)
  also have "\<dots> mod ?p = (v' + c * i + (v - v') * (i * w mod ?p)) mod ?p"
    by (metis mod_add_right_eq mod_mult_right_eq)
  also have "\<dots> = (v + c * i) mod ?p" unfolding w by (simp add: algebra_simps)
  finally have "createShamirShare v' c' i = createShamirShare v c i"
    by (simp add: createShamirShare_def)
  then show ?thesis by (intro exI [of _ c']) (simp add: c'_def)
qed

theorem single_share_hides_value_witness:
  "\<exists>c'. 0 \<le> c' \<and> createShamirShare 1 c' 3 = createShamirShare 0 77 3"
  using single_share_hides_value [of 3 1 0 77] by (auto simp: committee_index_def)

end
