(* ===== verification/Json.thy ===== *)
theory Json
  imports JsText JsMap
begin

text \<open>
  JSON values, \<open>JSON.stringify\<close> and \<open>JSON.parse\<close>, and the accesses the code makes to values of
  type \<open>unknown\<close>.  A number is a \<open>jsnum\<close>: the modelled code uses parsed numbers only as
  integers.  Text is below code 256, so an escape above that is refused like a syntax error.  An
  object keeps its keys in insertion order and a repeated key overwrites the earlier entry.

  The parser is a recursive descent with fuel; the length of the text is enough fuel, and the
  round trip below shows it for every printed value.
\<close>

section \<open>Values\<close>

datatype json =
    JNull
  | JBool bool
  | JNumber jsnum
  | JString string
  | JArray "json list"
  | JObject "(string \<times> json) list"

text \<open>\<open>value[key]\<close>: absent on anything but an object with that key.\<close>

fun field :: "json \<Rightarrow> string \<Rightarrow> json option" where
  "field (JObject kvs) k = map_get kvs k"
| "field _ k = None"

fun is_object :: "json \<Rightarrow> bool" where
  "is_object (JObject kvs) = True"
| "is_object _ = False"

fun string_of :: "json option \<Rightarrow> string option" where
  "string_of (Some (JString s)) = Some s"
| "string_of _ = None"

fun num_of :: "json option \<Rightarrow> jsnum option" where
  "num_of (Some (JNumber n)) = Some n"
| "num_of _ = None"

fun bool_of :: "json option \<Rightarrow> bool option" where
  "bool_of (Some (JBool b)) = Some b"
| "bool_of _ = None"

fun array_of :: "json option \<Rightarrow> json list option" where
  "array_of (Some (JArray xs)) = Some xs"
| "array_of _ = None"

text \<open>\<open>a ?? b\<close> on two property reads: null and undefined are skipped.\<close>

definition json_or :: "json option \<Rightarrow> json option \<Rightarrow> json option" where
  "json_or a b = (case a of None \<Rightarrow> b | Some JNull \<Rightarrow> b | Some v \<Rightarrow> Some v)"

section \<open>Printing\<close>

definition hex4 :: "int \<Rightarrow> string" where
  "hex4 i = [digit_char (i div 4096 mod 16), digit_char (i div 256 mod 16),
             digit_char (i div 16 mod 16), digit_char (i mod 16)]"

definition escape_char :: "char \<Rightarrow> string" where
  "escape_char c =
     (let i = char_code c in
      if c = CHR 0x22 then [CHR 0x5C, CHR 0x22]
      else if c = CHR 0x5C then [CHR 0x5C, CHR 0x5C]
      else if i = 8 then [CHR 0x5C, CHR ''b'']
      else if i = 9 then [CHR 0x5C, CHR ''t'']
      else if i = 10 then [CHR 0x5C, CHR ''n'']
      else if i = 12 then [CHR 0x5C, CHR ''f'']
      else if i = 13 then [CHR 0x5C, CHR ''r'']
      else if i < 32 then [CHR 0x5C, CHR ''u''] @ hex4 i
      else [c])"

definition json_quote :: "string \<Rightarrow> string" where
  "json_quote s = CHR 0x22 # concat (map escape_char s) @ [CHR 0x22]"

fun num_str :: "jsnum \<Rightarrow> string" where
  "num_str (JInt i) = int_str i"
| "num_str JNonInt = ''null''"

fun stringify :: "json \<Rightarrow> string"
  and stringify_items :: "json list \<Rightarrow> string"
  and stringify_entries :: "(string \<times> json) list \<Rightarrow> string" where
  "stringify JNull = ''null''"
| "stringify (JBool b) = (if b then ''true'' else ''false'')"
| "stringify (JNumber n) = num_str n"
| "stringify (JString s) = json_quote s"
| "stringify (JArray xs) = CHR 0x5B # stringify_items xs @ [CHR 0x5D]"
| "stringify (JObject kvs) = CHR 0x7B # stringify_entries kvs @ [CHR 0x7D]"
| "stringify_items [] = []"
| "stringify_items [x] = stringify x"
| "stringify_items (x # y # xs) = stringify x @ CHR '','' # stringify_items (y # xs)"
| "stringify_entries [] = []"
| "stringify_entries [(k, v)] = json_quote k @ CHR '':'' # stringify v"
| "stringify_entries ((k, v) # e # kvs) =
     json_quote k @ CHR '':'' # stringify v @ CHR '','' # stringify_entries (e # kvs)"

section \<open>Parsing\<close>

definition json_ws :: "char \<Rightarrow> bool" where
  "json_ws c \<longleftrightarrow> char_code c \<in> {9, 10, 13, 32}"

abbreviation skip_ws :: "string \<Rightarrow> string" where
  "skip_ws s \<equiv> dropWhile json_ws s"

definition unescape :: "char \<Rightarrow> char option" where
  "unescape c =
     (if c = CHR 0x22 \<or> c = CHR 0x5C \<or> c = CHR 0x2F then Some c
      else if c = CHR ''b'' then Some (code_char 8)
      else if c = CHR ''f'' then Some (code_char 12)
      else if c = CHR ''n'' then Some (code_char 10)
      else if c = CHR ''r'' then Some (code_char 13)
      else if c = CHR ''t'' then Some (code_char 9) else None)"

definition cons_fst :: "'a \<Rightarrow> ('a list \<times> 'b) option \<Rightarrow> ('a list \<times> 'b) option" where
  "cons_fst x m = (case m of None \<Rightarrow> None | Some (xs, r) \<Rightarrow> Some (x # xs, r))"

function parse_string :: "string \<Rightarrow> (string \<times> string) option" where
  "parse_string s =
     (case s of
        [] \<Rightarrow> None
      | c # r \<Rightarrow>
          if c = CHR 0x22 then Some ([], r)
          else if char_code c < 32 then None
          else if c \<noteq> CHR 0x5C then cons_fst c (parse_string r)
          else case r of
            [] \<Rightarrow> None
          | d # r' \<Rightarrow>
              (case unescape d of
                 Some x \<Rightarrow> cons_fst x (parse_string r')
               | None \<Rightarrow>
                   if d = CHR ''u'' \<and> 4 \<le> length r' \<and> list_all (is_radix_digit 16) (take 4 r')
                      \<and> radix_val 16 (take 4 r') < 256
                   then cons_fst (code_char (radix_val 16 (take 4 r'))) (parse_string (drop 4 r'))
                   else None))"
  by pat_completeness auto
termination
  by (relation "measure length") auto

declare parse_string.simps [simp del]

text \<open>
  The number \<open>digits.fraction\<close> times ten to the \<open>e\<close>: an integer when it is one and below the
  largest finite double.
\<close>

definition decimal_number :: "bool \<Rightarrow> string \<Rightarrow> string \<Rightarrow> int \<Rightarrow> jsnum" where
  "decimal_number neg digits fraction e =
     (let m = radix_val 10 (digits @ fraction) * (if neg then -1 else 1);
          k = e - int (length fraction)
      in if 0 \<le> k then (if \<bar>m * 10 ^ nat k\<bar> < 2 ^ 1024 then JInt (m * 10 ^ nat k) else JNonInt)
         else if 10 ^ nat (- k) dvd m then JInt (m div 10 ^ nat (- k)) else JNonInt)"

text \<open>The optional fraction and exponent of a number.\<close>

definition take_fraction :: "string \<Rightarrow> (string \<times> string) option" where
  "take_fraction s =
     (if s \<noteq> [] \<and> hd s = CHR ''.''
      then let f = takeWhile is_digit (tl s)
           in if f = [] then None else Some (f, drop (length f) (tl s))
      else Some ([], s))"

definition take_exponent :: "string \<Rightarrow> (int \<times> string) option" where
  "take_exponent s =
     (if s \<noteq> [] \<and> (hd s = CHR ''e'' \<or> hd s = CHR ''E'')
      then let t = tl s;
               neg = (t \<noteq> [] \<and> hd t = CHR ''-'');
               u = (if t \<noteq> [] \<and> (hd t = CHR ''-'' \<or> hd t = CHR ''+'') then tl t else t);
               d = takeWhile is_digit u
           in if d = [] then None
              else Some ((if neg then - radix_val 10 d else radix_val 10 d), drop (length d) u)
      else Some (0, s))"

definition parse_number :: "string \<Rightarrow> (json \<times> string) option" where
  "parse_number s =
     (let neg = (s \<noteq> [] \<and> hd s = CHR ''-'');
          t = (if neg then tl s else s);
          d = takeWhile is_digit t;
          r = drop (length d) t
      in if d = [] \<or> (hd d = CHR ''0'' \<and> 1 < length d) then None
         else case take_fraction r of None \<Rightarrow> None
         | Some (f, r') \<Rightarrow>
             (case take_exponent r' of None \<Rightarrow> None
              | Some (e, r'') \<Rightarrow> Some (JNumber (decimal_number neg d f e), r'')))"

fun parse_value :: "nat \<Rightarrow> string \<Rightarrow> (json \<times> string) option"
  and parse_items :: "nat \<Rightarrow> string \<Rightarrow> (json list \<times> string) option"
  and parse_entries :: "nat \<Rightarrow> string \<Rightarrow> ((string \<times> json) list \<times> string) option" where
  "parse_value 0 s = None"
| "parse_value (Suc n) s =
     (case skip_ws s of
        [] \<Rightarrow> None
      | c # r \<Rightarrow>
          if c = CHR 0x22 then (case parse_string r of None \<Rightarrow> None | Some (t, r') \<Rightarrow> Some (JString t, r'))
          else if c = CHR 0x5B then
            (if skip_ws r \<noteq> [] \<and> hd (skip_ws r) = CHR 0x5D then Some (JArray [], tl (skip_ws r))
             else case parse_items n r of None \<Rightarrow> None | Some (xs, r') \<Rightarrow> Some (JArray xs, r'))
          else if c = CHR 0x7B then
            (if skip_ws r \<noteq> [] \<and> hd (skip_ws r) = CHR 0x7D then Some (JObject [], tl (skip_ws r))
             else case parse_entries n r of None \<Rightarrow> None
                  | Some (kvs, r') \<Rightarrow> Some (JObject (foldl (\<lambda>m (k, v). map_put m k v) [] kvs), r'))
          else if startsWith (c # r) ''null'' then Some (JNull, drop 3 r)
          else if startsWith (c # r) ''true'' then Some (JBool True, drop 3 r)
          else if startsWith (c # r) ''false'' then Some (JBool False, drop 4 r)
          else parse_number (c # r))"
| "parse_items 0 s = None"
| "parse_items (Suc n) s =
     (case parse_value n s of
        None \<Rightarrow> None
      | Some (x, r) \<Rightarrow>
          (case skip_ws r of
             [] \<Rightarrow> None
           | c # r' \<Rightarrow>
               if c = CHR '','' then cons_fst x (parse_items n r')
               else if c = CHR 0x5D then Some ([x], r') else None))"
| "parse_entries 0 s = None"
| "parse_entries (Suc n) s =
     (case skip_ws s of
        [] \<Rightarrow> None
      | q # s' \<Rightarrow>
          if q \<noteq> CHR 0x22 then None
          else case parse_string s' of
            None \<Rightarrow> None
          | Some (k, t) \<Rightarrow>
              (case skip_ws t of
                 [] \<Rightarrow> None
               | d # t' \<Rightarrow>
                   if d \<noteq> CHR '':'' then None
                   else case parse_value n t' of
                     None \<Rightarrow> None
                   | Some (v, r) \<Rightarrow>
                       (case skip_ws r of
                          [] \<Rightarrow> None
                        | c # r' \<Rightarrow>
                            if c = CHR '','' then cons_fst (k, v) (parse_entries n r')
                            else if c = CHR 0x7D then Some ([(k, v)], r') else None)))"

definition json_parse :: "string \<Rightarrow> json res" where
  "json_parse s =
     (case parse_value (2 * length s + 2) s of
        None \<Rightarrow> Inl Syntax_Error
      | Some (v, r) \<Rightarrow> if skip_ws r = [] then Inr v else Inl Syntax_Error)"

lemmas parse_Suc = parse_value.simps(2) parse_items.simps(2) parse_entries.simps(2)

declare parse_Suc [simp del]

section \<open>Enough fuel\<close>

lemma cons_fst_Some [simp]: "cons_fst x m = Some (ys, r) \<longleftrightarrow> (\<exists>xs. m = Some (xs, r) \<and> ys = x # xs)"
  by (auto simp: cons_fst_def split: option.splits)

lemma cons_fst_None [simp]: "cons_fst x None = None"
  by (simp add: cons_fst_def)

lemma parse_string_shorter: "parse_string s = Some (t, r) \<Longrightarrow> length r < length s"
proof (induction s arbitrary: t rule: parse_string.induct)
  case (1 s)
  from "1.prems" obtain c u where s: "s = c # u"
    by (subst (asm) parse_string.simps) (auto split: list.splits)
  show ?case
  proof (cases "c = CHR 0x22 \<or> char_code c < 32 \<or> c \<noteq> CHR 0x5C")
    case True
    with "1.prems" "1.IH"(1) [OF s] show ?thesis
      by (subst (asm) parse_string.simps) (fastforce simp: s split: if_splits)
  next
    case False
    with "1.prems" obtain d w where u: "u = d # w"
      by (subst (asm) parse_string.simps) (auto simp: s split: list.splits)
    show ?thesis
    proof (cases "unescape d")
      case (Some x)
      with False "1.prems" u obtain t' where "parse_string w = Some (t', r)"
        by (subst (asm) parse_string.simps) (auto simp: s)
      with "1.IH"(3) [OF s _ _ _ u Some] False s u show ?thesis by fastforce
    next
      case None
      with False "1.prems" u obtain t' where "parse_string (drop 4 w) = Some (t', r)" "d = CHR ''u'' \<and> 4 \<le> length w \<and> list_all (is_radix_digit 16) (take 4 w)
                      \<and> radix_val 16 (take 4 w) < 256"
        by (subst (asm) parse_string.simps) (auto simp: s split: if_splits)
      with "1.IH"(2) [OF s _ _ _ u None] False s u show ?thesis by fastforce
    qed
  qed
qed

lemma length_dropWhile_less: "dropWhile P s = c # r \<Longrightarrow> length r < length s"
  by (metis length_Cons length_dropWhile_le lessI less_le_trans)

lemma take_fraction_le: "take_fraction s = Some (f, r) \<Longrightarrow> length r \<le> length s"
  by (auto simp: take_fraction_def Let_def split: if_splits)

lemma take_exponent_le: "take_exponent s = Some (e, r) \<Longrightarrow> length r \<le> length s"
  by (auto simp: take_exponent_def Let_def split: if_splits)

lemma parse_number_shorter:
  assumes "parse_number s = Some (v, r)"
  shows "length r < length s"
proof -
  from assms obtain t d f r' e where t: "t = (if s \<noteq> [] \<and> hd s = CHR ''-'' then tl s else s)"
    "d = takeWhile is_digit t" "d \<noteq> []" "take_fraction (drop (length d) t) = Some (f, r')"
    "take_exponent r' = Some (e, r)"
    by (auto simp: parse_number_def Let_def split: if_splits option.splits)
  have "length d \<le> length t" by (simp add: t(2) length_takeWhile_le)
  moreover have "length t \<le> length s" by (simp add: t(1))
  moreover have "length r \<le> length t - length d"
    using take_fraction_le [OF t(4)] take_exponent_le [OF t(5)] by simp
  ultimately show ?thesis using t(3) by (cases d) auto
qed

lemma parse_shorter:
  "parse_value n s = Some (v, r) \<Longrightarrow> length r < length s"
  "parse_items n s = Some (vs, r) \<Longrightarrow> length r < length s"
  "parse_entries n s = Some (kvs, r) \<Longrightarrow> length r < length s"
proof (induction n s and n s and n s arbitrary: v r and vs r and kvs r
    rule: parse_value_parse_items_parse_entries.induct)
  case (2 n s)
  obtain c t where t: "skip_ws s = c # t" using "2.prems" by (cases "skip_ws s") (auto simp: parse_Suc)
  note l = length_dropWhile_less [OF t]
  have tl: "length (tl (skip_ws t)) \<le> length t"
    by (metis diff_le_self le_trans length_dropWhile_le length_tl)
  consider (str) "c = CHR 0x22" | (arr) "c = CHR 0x5B" | (obj) "c = CHR 0x7B"
    | (other) "c \<noteq> CHR 0x22" "c \<noteq> CHR 0x5B" "c \<noteq> CHR 0x7B" by blast
  then show ?case
  proof cases
    case str
    with "2.prems" t l show ?thesis
      by (auto simp: parse_Suc split: option.splits dest!: parse_string_shorter)
  next
    case arr
    show ?thesis
    proof (cases "skip_ws t \<noteq> [] \<and> hd (skip_ws t) = CHR 0x5D")
      case True
      with arr "2.prems" t l tl show ?thesis by (auto simp: parse_Suc)
    next
      case False
      with arr "2.prems" t obtain xs where "parse_items n t = Some (xs, r)"
        by (auto simp: parse_Suc split: option.splits if_splits)
      with "2.IH"(1) [OF t _ arr False] arr l show ?thesis by fastforce
    qed
  next
    case obj
    show ?thesis
    proof (cases "skip_ws t \<noteq> [] \<and> hd (skip_ws t) = CHR 0x7D")
      case True
      with obj "2.prems" t l tl show ?thesis by (auto simp: parse_Suc)
    next
      case False
      with obj "2.prems" t obtain xs where "parse_entries n t = Some (xs, r)"
        by (auto simp: parse_Suc split: option.splits if_splits)
      with "2.IH"(2) [OF t _ _ obj False] obj l show ?thesis by fastforce
    qed
  next
    case other
    have e: "parse_value (Suc n) s = (if startsWith (c # t) ''null'' then Some (JNull, drop 3 t)
          else if startsWith (c # t) ''true'' then Some (JBool True, drop 3 t)
          else if startsWith (c # t) ''false'' then Some (JBool False, drop 4 t)
          else parse_number (c # t))"
      using other t by (simp add: parse_Suc)
    show ?thesis
    proof (cases "parse_number (c # t) = Some (v, r)")
      case True
      with parse_number_shorter [OF True] l show ?thesis by simp
    next
      case False
      with "2.prems" l show ?thesis unfolding e by (auto split: if_splits)
    qed
  qed
next
  case (4 n s)
  obtain x t where p: "parse_value n s = Some (x, t)"
    using "4.prems" by (cases "parse_value n s") (auto simp: parse_Suc)
  obtain c u where u: "skip_ws t = c # u"
    using "4.prems" p by (cases "skip_ws t") (auto simp: parse_Suc)
  have e: "parse_items (Suc n) s = (if c = CHR '','' then cons_fst x (parse_items n u)
      else if c = CHR 0x5D then Some ([x], u) else None)"
    by (simp add: parse_Suc p u)
  have l: "length u < length s" using "4.IH"(1) [OF p] length_dropWhile_less [OF u] by simp
  show ?case
  proof (cases "c = CHR '',''")
    case True
    with "4.prems" obtain xs where "parse_items n u = Some (xs, r)" unfolding e by auto
    with "4.IH"(2) [OF p refl u True] l show ?thesis by fastforce
  next
    case False
    with "4.prems" l show ?thesis unfolding e by (auto split: if_splits)
  qed
next
  case (6 n s)
  obtain q s' where q: "skip_ws s = q # s'"
    using "6.prems" by (cases "skip_ws s") (auto simp: parse_Suc)
  have q': "q = CHR 0x22" using "6.prems" q by (auto simp: parse_Suc split: if_splits)
  obtain k t where k: "parse_string s' = Some (k, t)"
    using "6.prems" q q' by (cases "parse_string s'") (auto simp: parse_Suc)
  obtain d t' where d: "skip_ws t = d # t'"
    using "6.prems" q q' k by (cases "skip_ws t") (auto simp: parse_Suc)
  have d': "d = CHR '':''" using "6.prems" q q' k d by (auto simp: parse_Suc split: if_splits)
  obtain x u where x: "parse_value n t' = Some (x, u)"
    using "6.prems" q q' k d d' by (cases "parse_value n t'") (auto simp: parse_Suc)
  obtain c w where c: "skip_ws u = c # w"
    using "6.prems" q q' k d d' x by (cases "skip_ws u") (auto simp: parse_Suc)
  have e: "parse_entries (Suc n) s = (if c = CHR '','' then cons_fst (k, x) (parse_entries n w)
      else if c = CHR 0x7D then Some ([(k, x)], w) else None)"
    by (simp add: parse_Suc q q' k d d' x c)
  have l: "length w < length s"
    using length_dropWhile_less [OF q] parse_string_shorter [OF k] length_dropWhile_less [OF d]
      "6.IH"(1) [OF q _ k refl d _ x] length_dropWhile_less [OF c] q' d' x
    by (metis (no_types, lifting) "6.IH"(1) order.strict_trans)
  show ?case
  proof (cases "c = CHR '',''")
    case True
    with "6.prems" obtain xs where xs: "parse_entries n w = Some (xs, r)" unfolding e by auto
    have "length r < length w" using "6.IH"(2) q q' k d d' x c True xs by blast
    with l show ?thesis by simp
  next
    case False
    with "6.prems" l show ?thesis unfolding e by (auto split: if_splits)
  qed
qed simp_all

lemma fuel_step:
  "(\<forall>s. 2 * length s < n \<longrightarrow> parse_value (Suc n) s = parse_value n s)
   \<and> (\<forall>s. 2 * length s + 1 < n \<longrightarrow> parse_items (Suc n) s = parse_items n s)
   \<and> (\<forall>s. 2 * length s + 1 < n \<longrightarrow> parse_entries (Suc n) s = parse_entries n s)"
proof (induction n)
  case 0
  then show ?case by simp
next
  case (Suc n)
  then have IH: "\<And>s. 2 * length s < n \<Longrightarrow> parse_value (Suc n) s = parse_value n s"
    "\<And>s. 2 * length s + 1 < n \<Longrightarrow> parse_items (Suc n) s = parse_items n s"
    "\<And>s. 2 * length s + 1 < n \<Longrightarrow> parse_entries (Suc n) s = parse_entries n s" by auto
  have v: "parse_value (Suc (Suc n)) s = parse_value (Suc n) s" if "2 * length s < Suc n" for s
  proof (cases "skip_ws s")
    case (Cons c r)
    then have "2 * length r + 1 < n" using that length_dropWhile_less [OF Cons] by simp
    from IH(2,3) [OF this] Cons show ?thesis by (simp add: parse_value.simps(2))
  next
    case Nil
    show ?thesis by (simp only: parse_value.simps(2) Nil list.case)
  qed
  have i: "parse_items (Suc (Suc n)) s = parse_items (Suc n) s" if len: "2 * length s + 1 < Suc n" for s
  proof (cases "parse_value n s")
    case None
    with IH(1) [of s] len show ?thesis by (simp add: parse_items.simps(2))
  next
    case (Some p)
    then obtain x t where p: "parse_value n s = Some (x, t)" by (cases p) auto
    have "parse_items (Suc n) u = parse_items n u" if "skip_ws t = c # u" for c u
      using parse_shorter(1) [OF p] length_dropWhile_less [OF that] len by (intro IH(2)) simp
    then show ?thesis
      using IH(1) [of s] len p
      by (simp add: parse_items.simps(2) [of "Suc n"] parse_items.simps(2) [of n s]
        del: dropWhile_eq_Nil_conv split: list.split)
  qed
  have e: "parse_entries (Suc (Suc n)) s = parse_entries (Suc n) s"
    if len: "2 * length s + 1 < Suc n" for s
  proof -
    have a: "parse_value (Suc n) t' = parse_value n t'"
      if "skip_ws s = q # s'" "parse_string s' = Some (k, t)" "skip_ws t = d # t'" for q s' k t d t'
      using length_dropWhile_less [OF that(1)] parse_string_shorter [OF that(2)]
        length_dropWhile_less [OF that(3)] len by (intro IH(1)) simp
    have b: "parse_entries (Suc n) w = parse_entries n w"
      if "skip_ws s = q # s'" "parse_string s' = Some (k, t)" "skip_ws t = d # t'"
        "parse_value n t' = Some (x, u)" "skip_ws u = c # w" for q s' k t d t' x u c w
      using length_dropWhile_less [OF that(1)] parse_string_shorter [OF that(2)]
        length_dropWhile_less [OF that(3)] parse_shorter(1) [OF that(4)]
        length_dropWhile_less [OF that(5)] len by (intro IH(3)) simp
    show ?thesis
      unfolding parse_entries.simps(2) [of "Suc n" s] parse_entries.simps(2) [of n s]
      by (auto split: list.split option.split simp: a b simp del: dropWhile_eq_Nil_conv)
  qed
  from v i e show ?case by blast
qed

lemma fuel_enough:
  assumes "parse_value n s = Some r" "\<And>m. n \<le> m \<Longrightarrow> parse_value m s = Some r"
  shows "parse_value (2 * length s + 2) s = Some r"
proof -
  have "parse_value (2 * length s + 2 + k) s = parse_value (2 * length s + 2) s" for k
    by (induction k) (use fuel_step in auto)
  from this [of n] assms(2) show ?thesis by (metis add.commute le_add1)
qed

section \<open>Printed values parse back\<close>

text \<open>The values the round trip is stated for: integers of finite size, keys without repetition.\<close>

fun plain :: "json \<Rightarrow> bool" where
  "plain JNull = True"
| "plain (JBool b) = True"
| "plain (JNumber n) = (case n of JInt i \<Rightarrow> \<bar>i\<bar> < 2 ^ 1024 | JNonInt \<Rightarrow> False)"
| "plain (JString s) = True"
| "plain (JArray xs) = (\<forall>x\<in>set xs. plain x)"
| "plain (JObject kvs) = (map_ok kvs \<and> (\<forall>p\<in>set kvs. plain (snd p)))"

lemma radix_val_hex4:
  assumes "0 \<le> i" "i < 256"
  shows "radix_val 16 (hex4 i) = i"
proof -
  have d: "i div 4096 = 0" "i div 256 = 0" using assms by simp_all
  have m: "i div 16 mod 16 = i div 16" using assms by simp
  have "radix_val 16 (hex4 i) = i div 16 * 16 + i mod 16"
    unfolding hex4_def d m radix_val_def
    using assms by simp
  then show ?thesis by simp
qed

lemma hex4_digits: "list_all (is_radix_digit 16) (hex4 i)" "length (hex4 i) = 4"
  by (simp_all add: hex4_def)

lemma parse_string_quote: "parse_string (CHR 0x22 # r) = Some ([], r)"
  by (subst parse_string.simps) simp

lemma code_char_eq: "char_code c = i \<Longrightarrow> code_char i = c"
  by auto

lemma parse_string_slash:
  assumes "unescape d = Some x"
  shows "parse_string (CHR 0x5C # d # u) = cons_fst x (parse_string u)"
proof -
  have "\<not> char_code CHR 0x5C < 32" by code_simp
  with assms show ?thesis by (subst parse_string.simps) simp
qed

lemma parse_string_plain:
  assumes "c \<noteq> CHR 0x22" "c \<noteq> CHR 0x5C" "\<not> char_code c < 32"
  shows "parse_string (c # u) = cons_fst c (parse_string u)"
  using assms by (subst parse_string.simps) simp

lemma parse_string_hex:
  assumes "char_code c < 32"
  shows "parse_string (CHR 0x5C # CHR ''u'' # hex4 (char_code c) @ u) = cons_fst c (parse_string u)"
proof -
  have b: "\<not> char_code CHR 0x5C < 32" "unescape CHR ''u'' = None" by code_simp+
  have t: "take 4 (hex4 (char_code c) @ u) = hex4 (char_code c)"
    "drop 4 (hex4 (char_code c) @ u) = u" "4 \<le> length (hex4 (char_code c) @ u)"
    by (simp_all add: hex4_digits)
  have v: "radix_val 16 (hex4 (char_code c)) = char_code c"
    using assms char_code_range [of c] by (intro radix_val_hex4) simp_all
  have "CHR 0x5C \<noteq> CHR 0x22" by simp
  with b t v assms hex4_digits(1) [of "char_code c"] show ?thesis
    by (subst parse_string.simps) simp
qed

lemma escape_named:
  "char_code c = 8 \<Longrightarrow> escape_char c = [CHR 0x5C, CHR ''b'']"
  "char_code c = 9 \<Longrightarrow> escape_char c = [CHR 0x5C, CHR ''t'']"
  "char_code c = 10 \<Longrightarrow> escape_char c = [CHR 0x5C, CHR ''n'']"
  "char_code c = 12 \<Longrightarrow> escape_char c = [CHR 0x5C, CHR ''f'']"
  "char_code c = 13 \<Longrightarrow> escape_char c = [CHR 0x5C, CHR ''r'']"
proof -
  have "char_code CHR 0x22 = 34" "char_code CHR 0x5C = 92" by code_simp+
  then have n: "c \<noteq> CHR 0x22 \<and> c \<noteq> CHR 0x5C" if "char_code c < 32" for c
    using that by auto
  show "char_code c = 8 \<Longrightarrow> escape_char c = [CHR 0x5C, CHR ''b'']"
    "char_code c = 9 \<Longrightarrow> escape_char c = [CHR 0x5C, CHR ''t'']"
    "char_code c = 10 \<Longrightarrow> escape_char c = [CHR 0x5C, CHR ''n'']"
    "char_code c = 12 \<Longrightarrow> escape_char c = [CHR 0x5C, CHR ''f'']"
    "char_code c = 13 \<Longrightarrow> escape_char c = [CHR 0x5C, CHR ''r'']"
    using n [of c] by (simp_all add: escape_char_def Let_def)
qed

lemma unescape_named:
  "unescape CHR ''b'' = Some (code_char 8)" "unescape CHR ''t'' = Some (code_char 9)"
  "unescape CHR ''n'' = Some (code_char 10)" "unescape CHR ''f'' = Some (code_char 12)"
  "unescape CHR ''r'' = Some (code_char 13)"
  by (simp_all add: unescape_def)

lemma parse_string_escape: "parse_string (escape_char c @ u) = cons_fst c (parse_string u)"
proof -
  consider (quote) "c = CHR 0x22" | (slash) "c = CHR 0x5C"
    | (eight) "char_code c = 8" | (nine) "char_code c = 9" | (ten) "char_code c = 10"
    | (twelve) "char_code c = 12" | (thirteen) "char_code c = 13"
    | (other) "c \<noteq> CHR 0x22" "c \<noteq> CHR 0x5C" "char_code c \<notin> {8, 9, 10, 12, 13}"
    by blast
  then show ?thesis
  proof cases
    case quote
    have "escape_char CHR 0x22 = [CHR 0x5C, CHR 0x22]" "unescape CHR 0x22 = Some CHR 0x22"
      by (simp_all add: escape_char_def unescape_def)
    with quote parse_string_slash show ?thesis by simp
  next
    case slash
    have "escape_char CHR 0x5C = [CHR 0x5C, CHR 0x5C]" "unescape CHR 0x5C = Some CHR 0x5C"
      by (simp_all add: escape_char_def unescape_def)
    with slash parse_string_slash show ?thesis by simp
  next
    case eight
    with parse_string_slash [OF unescape_named(1)] show ?thesis
      by (simp add: escape_named code_char_eq)
  next
    case nine
    with parse_string_slash [OF unescape_named(2)] show ?thesis
      by (simp add: escape_named code_char_eq)
  next
    case ten
    with parse_string_slash [OF unescape_named(3)] show ?thesis
      by (simp add: escape_named code_char_eq)
  next
    case twelve
    with parse_string_slash [OF unescape_named(4)] show ?thesis
      by (simp add: escape_named code_char_eq)
  next
    case thirteen
    with parse_string_slash [OF unescape_named(5)] show ?thesis
      by (simp add: escape_named code_char_eq)
  next
    case other
    then have "escape_char c = (if char_code c < 32 then [CHR 0x5C, CHR ''u''] @ hex4 (char_code c) else [c])"
      by (simp add: escape_char_def Let_def)
    with other parse_string_plain parse_string_hex show ?thesis by simp
  qed
qed

lemma parse_string_quoted: "parse_string (concat (map escape_char s) @ CHR 0x22 # r) = Some (s, r)"
proof (induction s)
  case (Cons c s)
  then show ?case by (simp add: parse_string_escape)
qed (simp add: parse_string_quote)

text \<open>What may follow a number.\<close>

definition num_stop :: "string \<Rightarrow> bool" where
  "num_stop r \<longleftrightarrow> r = [] \<or> hd r \<in> {CHR '','', CHR 0x5D, CHR 0x7D, LF}"

lemma num_stop_digits:
  assumes "num_stop r" "list_all is_digit d"
  shows "takeWhile is_digit (d @ r) = d"
proof -
  have n: "\<not> is_digit CHR '',''" "\<not> is_digit CHR 0x5D" "\<not> is_digit CHR 0x7D" "\<not> is_digit LF" by code_simp+
  from assms have "r = [] \<or> \<not> is_digit (hd r)" by (auto simp: num_stop_def n)
  then have "takeWhile is_digit r = []" by (cases r) auto
  with assms(2) show ?thesis by (simp add: takeWhile_append2 list_all_iff)
qed

lemma num_stop_tail:
  assumes "num_stop r"
  shows "take_fraction r = Some ([], r)" "take_exponent r = Some (0, r)"
  using assms by (auto simp: num_stop_def take_fraction_def take_exponent_def)

lemma parse_number_int:
  assumes "num_stop r" "\<bar>i\<bar> < 2 ^ 1024"
  shows "parse_number (int_str i @ r) = Some (JNumber (JInt i), r)"
proof -
  define d where "d = radix_str 10 \<bar>i\<bar>"
  have dig: "list_all is_digit d" "d \<noteq> []" "radix_val 10 d = \<bar>i\<bar>"
    using radix_str_digits [of 10 "\<bar>i\<bar>"] by (simp_all add: d_def all_digits_def is_digit_iff list_all_iff)
  have canon: "\<not> (hd d = CHR ''0'' \<and> 1 < length d)"
  proof (cases "i = 0")
    case True
    then show ?thesis by (simp add: d_def radix_str_small)
  next
    case False
    then show ?thesis using hd_radix_str [of 10 "\<bar>i\<bar>"] by (simp add: d_def)
  qed
  have tw: "takeWhile is_digit (d @ r) = d"
    using num_stop_digits [OF assms(1) dig(1)] .
  have nd: "\<not> is_digit CHR ''-''" by code_simp
  have minus: "hd d \<noteq> CHR ''-''"
    using dig(1,2) nd by (cases d) auto
  have s: "int_str i = (if i < 0 then CHR ''-'' # d else d)"
    by (simp add: toString_radix_def d_def)
  have num: "decimal_number (i < 0) d [] 0 = JInt i"
    using assms(2) dig(3) by (auto simp: decimal_number_def Let_def)
  show ?thesis
    using num dig(2) canon tw minus num_stop_tail [OF assms(1)]
    by (cases "i < 0") (simp_all add: parse_number_def s Let_def hd_append)
qed

text \<open>The first character of a printed value decides how it is read.\<close>

definition value_start :: "char \<Rightarrow> bool" where
  "value_start c \<longleftrightarrow> \<not> json_ws c \<and> c \<noteq> CHR 0x5D \<and> c \<noteq> CHR 0x7D \<and> c \<noteq> CHR '','' \<and> c \<noteq> CHR '':''"

definition number_start :: "char \<Rightarrow> bool" where
  "number_start c \<longleftrightarrow> c = CHR ''-'' \<or> is_digit c"

lemma number_start_other:
  assumes "number_start c"
  shows "value_start c" "c \<noteq> CHR 0x22" "c \<noteq> CHR 0x5B" "c \<noteq> CHR 0x7B"
    "c \<noteq> CHR ''n''" "c \<noteq> CHR ''t''" "c \<noteq> CHR ''f''"
proof -
  have n: "\<not> number_start CHR 0x22" "\<not> number_start CHR 0x5B" "\<not> number_start CHR 0x7B"
    "\<not> number_start CHR ''n''" "\<not> number_start CHR ''t''" "\<not> number_start CHR ''f''"
    "\<not> number_start CHR 0x5D" "\<not> number_start CHR 0x7D" "\<not> number_start CHR '',''"
    "\<not> number_start CHR '':''" "char_code CHR ''-'' = 45" by code_simp+
  then show "c \<noteq> CHR 0x22" "c \<noteq> CHR 0x5B" "c \<noteq> CHR 0x7B"
    "c \<noteq> CHR ''n''" "c \<noteq> CHR ''t''" "c \<noteq> CHR ''f''" using assms by auto
  have "char_code CHR ''0'' = 48" by code_simp
  then have "\<not> json_ws c" using assms n(11)
    by (auto simp: number_start_def json_ws_def is_digit_def)
  then show "value_start c" using n assms by (auto simp: value_start_def)
qed

lemma int_str_start: "int_str i \<noteq> [] \<and> number_start (hd (int_str i))"
proof -
  have "list_all is_digit (radix_str 10 \<bar>i\<bar>)"
    using radix_str_digits [of 10 "\<bar>i\<bar>"] by (simp add: all_digits_def is_digit_iff list_all_iff)
  moreover have "radix_str 10 \<bar>i\<bar> \<noteq> []" by simp
  ultimately have "is_digit (hd (radix_str 10 \<bar>i\<bar>))" by (metis hd_in_set list_all_iff)
  then show ?thesis by (cases "i < 0") (simp_all add: toString_radix_def number_start_def)
qed

lemma stringify_start: "stringify v \<noteq> [] \<and> value_start (hd (stringify v))"
proof -
  have n: "value_start CHR ''n''" "value_start CHR ''t''" "value_start CHR ''f''"
    "value_start CHR 0x22" "value_start CHR 0x5B" "value_start CHR 0x7B" by code_simp+
  show ?thesis
  proof (cases v)
    case (JNumber x)
    then show ?thesis using int_str_start number_start_other(1) n by (cases x) auto
  qed (auto simp: n json_quote_def)
qed

lemma skip_ws_start: "s \<noteq> [] \<Longrightarrow> value_start (hd s) \<Longrightarrow> skip_ws (s @ r) = s @ r"
  by (cases s) (auto simp: value_start_def)

lemma skip_ws_stringify [simp]: "skip_ws (stringify v @ r) = stringify v @ r"
  using stringify_start skip_ws_start by blast

lemma skip_ws_fixed:
  "skip_ws (CHR 0x22 # r) = CHR 0x22 # r" "skip_ws (CHR '','' # r) = CHR '','' # r"
  "skip_ws (CHR '':'' # r) = CHR '':'' # r" "skip_ws (CHR 0x5D # r) = CHR 0x5D # r"
  "skip_ws (CHR 0x7D # r) = CHR 0x7D # r" "skip_ws (CHR 0x5B # r) = CHR 0x5B # r"
  "skip_ws (CHR 0x7B # r) = CHR 0x7B # r"
proof -
  have "\<not> json_ws CHR 0x22" "\<not> json_ws CHR '',''" "\<not> json_ws CHR '':''" "\<not> json_ws CHR 0x5D"
    "\<not> json_ws CHR 0x7D" "\<not> json_ws CHR 0x5B" "\<not> json_ws CHR 0x7B" by code_simp+
  then show "skip_ws (CHR 0x22 # r) = CHR 0x22 # r" "skip_ws (CHR '','' # r) = CHR '','' # r"
    "skip_ws (CHR '':'' # r) = CHR '':'' # r" "skip_ws (CHR 0x5D # r) = CHR 0x5D # r"
    "skip_ws (CHR 0x7D # r) = CHR 0x7D # r" "skip_ws (CHR 0x5B # r) = CHR 0x5B # r"
    "skip_ws (CHR 0x7B # r) = CHR 0x7B # r" by simp_all
qed

lemma num_stop_fixed [simp]:
  "num_stop (CHR '','' # r)" "num_stop (CHR 0x5D # r)" "num_stop (CHR 0x7D # r)" "num_stop []"
  by (simp_all add: num_stop_def)

lemma foldl_map_put: "map_ok (m @ kvs) \<Longrightarrow> foldl (\<lambda>m (k, v). map_put m k v) m kvs = m @ kvs"
proof (induction kvs arbitrary: m)
  case (Cons p kvs)
  obtain k v where p: "p = (k, v)" by (cases p)
  have "map_get m k = None" using Cons.prems by (auto simp: p map_ok_def map_get_def map_of_eq_None_iff)
  with Cons.IH [of "m @ [p]"] Cons.prems show ?case by (simp add: p map_put_new)
qed simp

lemma parse_value_number:
  assumes "num_stop r" "\<bar>i\<bar> < 2 ^ 1024"
  shows "parse_value (Suc n) (int_str i @ r) = Some (JNumber (JInt i), r)"
proof -
  obtain c t where c: "int_str i = c # t" "number_start c"
    using int_str_start [of i] by (cases "int_str i") auto
  note o = number_start_other [OF c(2)]
  have w: "skip_ws (c # t @ r) = c # t @ r"
    using skip_ws_start [of "c # t" r] o(1) by simp
  have "parse_number (c # t @ r) = Some (JNumber (JInt i), r)"
    using parse_number_int [OF assms] c(1) by simp
  with w o(2-7) show ?thesis unfolding c(1) append_Cons parse_value.simps(2)
    by (simp add: startsWith_def del: dropWhile.simps dropWhile_eq_Nil_conv)
qed

definition reads :: "(nat \<Rightarrow> string \<Rightarrow> ('a \<times> string) option) \<Rightarrow> string \<Rightarrow> 'a \<Rightarrow> string \<Rightarrow> bool" where
  "reads p s v r \<longleftrightarrow> (\<exists>n0. \<forall>n\<ge>n0. p n s = Some (v, r))"

lemma readsE:
  assumes "reads p s v r"
  obtains n0 where "\<And>n. n0 \<le> n \<Longrightarrow> p n s = Some (v, r)"
  using assms unfolding reads_def by blast

lemma readsI:
  assumes "\<And>n. n0 \<le> n \<Longrightarrow> p (Suc n) s = Some (v, r)"
  shows "reads p s v r"
  unfolding reads_def
proof (intro exI allI impI)
  fix n assume "Suc n0 \<le> n"
  then obtain m where "n = Suc m" "n0 \<le> m" by (cases n) auto
  with assms show "p n s = Some (v, r)" by simp
qed

lemma parse_value_fixed:
  "parse_value (Suc n) (''null'' @ r) = Some (JNull, r)"
  "parse_value (Suc n) (''true'' @ r) = Some (JBool True, r)"
  "parse_value (Suc n) (''false'' @ r) = Some (JBool False, r)"
proof -
  have "\<not> json_ws CHR ''n''" "\<not> json_ws CHR ''t''" "\<not> json_ws CHR ''f''" by code_simp+
  then show "parse_value (Suc n) (''null'' @ r) = Some (JNull, r)"
    "parse_value (Suc n) (''true'' @ r) = Some (JBool True, r)"
    "parse_value (Suc n) (''false'' @ r) = Some (JBool False, r)"
    by (simp_all add: parse_value.simps(2) startsWith_def)
qed

lemma parse_value_quoted: "parse_value (Suc n) (json_quote s @ r) = Some (JString s, r)"
  by (simp add: parse_value.simps(2) json_quote_def skip_ws_fixed parse_string_quoted
      del: dropWhile.simps dropWhile_eq_Nil_conv)

lemma reads_items_cons:
  assumes "reads parse_value (stringify x @ CHR '','' # s) x (CHR '','' # s)"
    and "reads parse_items s xs r"
  shows "reads parse_items (stringify x @ CHR '','' # s) (x # xs) r"
proof -
  obtain n1 n2 where n: "\<And>n. n1 \<le> n \<Longrightarrow> parse_value n (stringify x @ CHR '','' # s) = Some (x, CHR '','' # s)"
    "\<And>n. n2 \<le> n \<Longrightarrow> parse_items n s = Some (xs, r)"
    using assms by (elim readsE) metis
  show ?thesis
    by (rule readsI [of "max n1 n2"])
      (simp add: parse_items.simps(2) n skip_ws_fixed cons_fst_def del: dropWhile.simps dropWhile_eq_Nil_conv)
qed

lemma reads_entries_value:
  assumes "reads parse_value (stringify x @ t) x t" "skip_ws t = c # r'"
    and "c = CHR 0x7D \<and> xs = [] \<and> r = r' \<or> c = CHR '','' \<and> reads parse_entries r' xs r"
  shows "reads parse_entries (json_quote k @ CHR '':'' # stringify x @ t) ((k, x) # xs) r"
proof -
  obtain n1 where n1: "\<And>n. n1 \<le> n \<Longrightarrow> parse_value n (stringify x @ t) = Some (x, t)"
    using assms(1) by (elim readsE) metis
  obtain n2 where n2: "\<And>n. c = CHR '','' \<Longrightarrow> n2 \<le> n \<Longrightarrow> parse_entries n r' = Some (xs, r)"
  proof (cases "c = CHR '',''")
    case True
    then have "CHR 0x7D \<noteq> c" by simp
    with assms(3) have "reads parse_entries r' xs r" by blast
    then show thesis using that by (elim readsE) blast
  qed (use that in blast)
  have s: "skip_ws (json_quote k @ CHR '':'' # stringify x @ t)
      = CHR 0x22 # concat (map escape_char k) @ CHR 0x22 # CHR '':'' # stringify x @ t"
    by (simp add: json_quote_def skip_ws_fixed del: dropWhile.simps dropWhile_eq_Nil_conv)
  show ?thesis
  proof (rule readsI [of "max n1 n2"])
    fix n assume "max n1 n2 \<le> n"
    then have m: "n1 \<le> n" "n2 \<le> n" by simp_all
    show "parse_entries (Suc n) (json_quote k @ CHR '':'' # stringify x @ t) = Some ((k, x) # xs, r)"
    proof (cases "c = CHR '',''")
      case True
      with assms(3) n2 m have "parse_entries n r' = Some (xs, r)" by simp
      then show ?thesis unfolding parse_entries.simps(2) s
        by (simp add: parse_string_quoted skip_ws_fixed n1 m assms(2) True cons_fst_def
            del: dropWhile.simps dropWhile_eq_Nil_conv)
    next
      case False
      with assms(3) have "c = CHR 0x7D" "xs = []" "r = r'" by simp_all
      then show ?thesis unfolding parse_entries.simps(2) s
        by (simp add: parse_string_quoted skip_ws_fixed n1 m assms(2)
            del: dropWhile.simps dropWhile_eq_Nil_conv)
    qed
  qed
qed

lemma print_parse:
  "plain v \<Longrightarrow> num_stop r \<Longrightarrow> reads parse_value (stringify v @ r) v r"
  "xs \<noteq> [] \<Longrightarrow> \<forall>x\<in>set xs. plain x \<Longrightarrow> reads parse_items (stringify_items xs @ CHR 0x5D # s) xs s"
  "kvs \<noteq> [] \<Longrightarrow> \<forall>p\<in>set kvs. plain (snd p)
     \<Longrightarrow> reads parse_entries (stringify_entries kvs @ CHR 0x7D # t) kvs t"
proof (induction v and xs and kvs arbitrary: r and s and t rule: stringify_stringify_items_stringify_entries.induct)
  case 1 show ?case by (rule readsI) (simp only: parse_value_fixed stringify.simps)
next
  case (2 b) show ?case by (cases b; rule readsI) (simp_all only: parse_value_fixed stringify.simps if_True if_False)
next
  case (3 n)
  then obtain i where "n = JInt i" "\<bar>i\<bar> < 2 ^ 1024" by (cases n) auto
  with 3 show ?case by (auto intro!: readsI [of 0] simp: parse_value_number)
next
  case (4 q) show ?case by (rule readsI) (simp only: parse_value_quoted stringify.simps)
next
  case (5 xs)
  show ?case
  proof (cases "xs = []")
    case True
    then show ?thesis by (intro readsI) (simp add: parse_value.simps(2) skip_ws_fixed del: dropWhile.simps dropWhile_eq_Nil_conv)
  next
    case False
    with 5 have "reads parse_items (stringify_items xs @ CHR 0x5D # r) xs r" by auto
    then obtain n0 where n0: "\<And>n. n0 \<le> n \<Longrightarrow> parse_items n (stringify_items xs @ CHR 0x5D # r) = Some (xs, r)"
      by (elim readsE) metis
    obtain u where u: "stringify_items xs = stringify (hd xs) @ u"
      using False by (cases xs rule: list.exhaust; cases "tl xs") auto
    have "skip_ws (stringify_items xs @ w) = stringify_items xs @ w"
      "hd (stringify_items xs @ w) \<noteq> CHR 0x5D" for w
      using stringify_start [of "hd xs"] by (auto simp: u value_start_def)
    with n0 show ?thesis
      by (intro readsI [of n0]) (simp add: parse_value.simps(2) skip_ws_fixed del: dropWhile.simps dropWhile_eq_Nil_conv)
  qed
next
  case (6 kvs)
  show ?case
  proof (cases "kvs = []")
    case True
    then show ?thesis by (intro readsI) (simp add: parse_value.simps(2) skip_ws_fixed del: dropWhile.simps dropWhile_eq_Nil_conv)
  next
    case False
    with 6 have "reads parse_entries (stringify_entries kvs @ CHR 0x7D # r) kvs r" by auto
    then obtain n0 where n0: "\<And>n. n0 \<le> n \<Longrightarrow> parse_entries n (stringify_entries kvs @ CHR 0x7D # r) = Some (kvs, r)"
      by (elim readsE) metis
    obtain u where u: "stringify_entries kvs = CHR 0x22 # u"
      using False by (cases kvs rule: stringify_entries.cases) (auto simp: json_quote_def)
    have "foldl (\<lambda>m (k, v). map_put m k v) [] kvs = kvs" using foldl_map_put [of "[]" kvs] 6 by simp
    with n0 show ?thesis
      by (intro readsI [of n0]) (simp add: parse_value.simps(2) skip_ws_fixed u del: dropWhile.simps dropWhile_eq_Nil_conv)
  qed
next
  case 7 then show ?case by simp
next
  case (8 x)
  then have "reads parse_value (stringify x @ CHR 0x5D # s) x (CHR 0x5D # s)" by simp
  then obtain n0 where "\<And>n. n0 \<le> n \<Longrightarrow> parse_value n (stringify x @ CHR 0x5D # s) = Some (x, CHR 0x5D # s)"
    by (elim readsE) metis
  then show ?case
    by (intro readsI [of n0]) (simp add: parse_items.simps(2) skip_ws_fixed del: dropWhile.simps dropWhile_eq_Nil_conv)
next
  case (9 x y xs)
  then show ?case using reads_items_cons by simp
next
  case 10 then show ?case by simp
next
  case (11 k v)
  then show ?case using reads_entries_value [of v "CHR 0x7D # t" "CHR 0x7D" t "[]" t k]
    by (simp add: skip_ws_fixed del: dropWhile.simps dropWhile_eq_Nil_conv)
next
  case (12 k v e kvs)
  then show ?case
    using reads_entries_value [of v "CHR '','' # stringify_entries (e # kvs) @ CHR 0x7D # t" "CHR '',''"
        "stringify_entries (e # kvs) @ CHR 0x7D # t" "e # kvs" t k]
    by (simp add: skip_ws_fixed del: dropWhile.simps dropWhile_eq_Nil_conv)
qed

section \<open>The round trip\<close>

text \<open>
  \<open>JSON.parse(JSON.stringify(v))\<close> is \<open>v\<close> for every value whose numbers are finite
  integers and whose objects have no repeated key: the bodies the services send each other, and
  the state the committee writes and reads back, arrive as they were sent.
\<close>

lemma json_parse_printed:
  assumes "plain v" "num_stop r" "skip_ws r = []"
  shows "json_parse (stringify v @ r) = Inr v"
proof -
  have "reads parse_value (stringify v @ r) v r" by (rule print_parse(1) [OF assms(1,2)])
  then obtain n where n: "\<And>m. n \<le> m \<Longrightarrow> parse_value m (stringify v @ r) = Some (v, r)"
    by (elim readsE) metis
  then have "parse_value (2 * length (stringify v @ r) + 2) (stringify v @ r) = Some (v, r)"
    by (intro fuel_enough [of n]) simp_all
  then show ?thesis by (simp only: json_parse_def option.case prod.case assms(3) if_True simp_thms)
qed

lemma json_round_trip: "plain v \<Longrightarrow> json_parse (stringify v) = Inr v"
  using json_parse_printed [of v "[]"] by simp

lemma json_round_trip_line:
  assumes "plain v"
  shows "json_parse (stringify v @ [LF]) = Inr v"
proof -
  have "json_ws LF" by code_simp
  with json_parse_printed [OF assms, of "[LF]"] show ?thesis by (simp add: num_stop_def)
qed

end
