(* ===== verification/JsArray.thy ===== *)
theory JsArray
  imports Prelude
begin

text \<open>
  The array operations of JavaScript the code uses beyond the list library: the stable
  \<open>sort\<close> with a comparator and the removal of repetitions by a key, with their laws.
\<close>

section \<open>Sorting with a comparator\<close>

text \<open>
  \<open>xs.sort(cmp)\<close> is stable: of two elements the comparator does not separate, the earlier one
  stays first.  A comparator is consistent when \<open>cmp x y <= 0\<close> is a total preorder; only then
  does the language promise a sorted result.
\<close>

primrec js_insert :: "('a \<Rightarrow> 'a \<Rightarrow> int) \<Rightarrow> 'a \<Rightarrow> 'a list \<Rightarrow> 'a list" where
  "js_insert cmp x [] = [x]"
| "js_insert cmp x (y # ys) = (if cmp x y \<le> 0 then x # y # ys else y # js_insert cmp x ys)"

definition js_sort :: "('a \<Rightarrow> 'a \<Rightarrow> int) \<Rightarrow> 'a list \<Rightarrow> 'a list" where
  "js_sort cmp xs = foldr (js_insert cmp) xs []"

definition consistent :: "('a \<Rightarrow> 'a \<Rightarrow> int) \<Rightarrow> bool" where
  "consistent cmp \<longleftrightarrow> (\<forall>x y. cmp x y \<le> 0 \<or> cmp y x \<le> 0)
     \<and> (\<forall>x y z. cmp x y \<le> 0 \<longrightarrow> cmp y z \<le> 0 \<longrightarrow> cmp x z \<le> 0)"

lemma set_js_insert [simp]: "set (js_insert cmp x ys) = insert x (set ys)"
  by (induction ys) auto

lemma set_js_sort [simp]: "set (js_sort cmp xs) = set xs"
  unfolding js_sort_def by (induction xs) auto

lemma length_js_insert [simp]: "length (js_insert cmp x ys) = Suc (length ys)"
  by (induction ys) auto

lemma length_js_sort [simp]: "length (js_sort cmp xs) = length xs"
  unfolding js_sort_def by (induction xs) auto

lemma distinct_map_js_insert:
  "distinct (map f (js_insert cmp x ys)) \<longleftrightarrow> f x \<notin> f ` set ys \<and> distinct (map f ys)"
  by (induction ys) auto

lemma distinct_map_js_sort [simp]: "distinct (map f (js_sort cmp xs)) = distinct (map f xs)"
  unfolding js_sort_def
proof (induction xs)
  case (Cons x xs)
  have "set (foldr (js_insert cmp) xs []) = set xs" using set_js_sort [of cmp xs] by (simp add: js_sort_def)
  with Cons show ?case by (simp add: distinct_map_js_insert)
qed simp

lemma sorted_js_insert:
  assumes "consistent cmp" "sorted_wrt (\<lambda>x y. cmp x y \<le> 0) ys"
  shows "sorted_wrt (\<lambda>x y. cmp x y \<le> 0) (js_insert cmp x ys)"
  using assms(2)
proof (induction ys)
  case (Cons y ys)
  with assms(1) show ?case unfolding consistent_def by simp blast
qed simp

lemma sorted_js_sort:
  assumes "consistent cmp"
  shows "sorted_wrt (\<lambda>x y. cmp x y \<le> 0) (js_sort cmp xs)"
  unfolding js_sort_def by (induction xs) (simp_all add: sorted_js_insert [OF assms])

section \<open>Keeping the first of each key\<close>

text \<open>A filter over a \<open>Set\<close> of the keys seen so far.\<close>

fun first_by :: "('a \<Rightarrow> 'k) \<Rightarrow> 'k list \<Rightarrow> 'a list \<Rightarrow> 'a list" where
  "first_by key seen [] = []"
| "first_by key seen (x # xs) =
     (if key x \<in> set seen then first_by key seen xs else x # first_by key (key x # seen) xs)"

lemma first_by_distinct:
  "distinct (map key (first_by key seen xs)) \<and> key ` set (first_by key seen xs) \<inter> set seen = {}
   \<and> set (first_by key seen xs) \<subseteq> set xs"
  by (induction key seen xs rule: first_by.induct) (auto simp: insert_Diff_if)

lemma first_by_keys: "key ` set (first_by key seen xs) \<union> set seen = key ` set xs \<union> set seen"
  by (induction key seen xs rule: first_by.induct) auto

lemma distinct_map_filter: "distinct (map f xs) \<Longrightarrow> distinct (map f (filter P xs))"
  by (induction xs) auto

lemma distinct_map_take: "distinct (map f xs) \<Longrightarrow> distinct (map f (take n xs))"
  by (metis distinct_take take_map)

end
