(* ===== verification/Oracles.thy ===== *)
theory Oracles
  imports Json JsArray
begin

text \<open>
  The oracle sources of \<open>client/src/oracles.ts\<close>, the addresses of \<open>client/src/market-engine.ts\<close>
  and the evidence rules of \<open>client/src/optimistic.ts\<close>: the feed catalogue and its search, the
  source identifiers of the resolvers, the parsing of thresholds at an exponent, market
  identifiers, and the seeds of the program addresses.

  Parameters of the model: \<open>findProgramAddress\<close> (the address derivation of the Solana client),
  \<open>localeCompare\<close>, the URL parser of the platform and its SHA-256.
\<close>

section \<open>The feed catalogue\<close>

definition PYTH_RECEIVER_PROGRAM_ADDRESS :: string where
  "PYTH_RECEIVER_PROGRAM_ADDRESS = ''rec5EKMGg6MxZYaMdyBfgwp4d5rB9T1VQH5pJv5LtFJ''"
definition PYTH_PUSH_ORACLE_PROGRAM_ADDRESS :: string where
  "PYTH_PUSH_ORACLE_PROGRAM_ADDRESS = ''pythWSnswVUd12oZpeFP8e9CVaEqJg25g1Vtc2biRsT''"
definition SWITCHBOARD_QUOTE_PROGRAM_ADDRESS :: string where
  "SWITCHBOARD_QUOTE_PROGRAM_ADDRESS = ''orac1eFjzWL5R3RbbdMV68K9H6TaCVVcL6LjvQQWAbz''"
definition SWITCHBOARD_DEVNET_QUEUE_ADDRESS :: string where
  "SWITCHBOARD_DEVNET_QUEUE_ADDRESS = ''EYiAmGSdsQTuCw413V5BzaruWuCCSDgTPtBGvLkXHbe7''"
definition STORK_ORACLE_PROGRAM_ADDRESS :: string where
  "STORK_ORACLE_PROGRAM_ADDRESS = ''stork1JUZMKYgjNagHiK2KdMmb42iTnYe9bYUCDUk8n''"

datatype PythAssetType =
    Asset_Crypto | Asset_Crypto_Redemption_Rate | Asset_Crypto_Index | Asset_Crypto_NAV
  | Asset_Equity | Asset_FX | Asset_Metal | Asset_Rates | Asset_Commodities | Asset_ECO

datatype PythCategory = Category_crypto | Category_economics

datatype PythDelivery = Sponsored_push | Hermes_pull

record PythFeed =
  pf_id :: string
  pf_symbol :: string
  pf_base :: string
  pf_quoteCurrency :: string
  pf_description :: string
  pf_schedule :: "string option"
  pf_assetType :: PythAssetType
  pf_category :: PythCategory
  pf_delivery :: PythDelivery
  pf_heartbeatSeconds :: "int option"

definition SPONSORED_PYTH_FEEDS :: "(string \<times> string \<times> int) list" where
  "SPONSORED_PYTH_FEEDS =
    [(''BTC/USD'', ''e62df6c8b4a85fe1a67db44dc12de5db330f7ac66b72dc658afedf0f4a415b43'', 60),
     (''ETH/USD'', ''ff61491a931112ddf1bd8147cd1b641375f79f5825126d665480874634fd0ace'', 60),
     (''SOL/USD'', ''ef0d8b6fda2ceba41da15d4095d1da392a0d2f8ed0c6c7bc0f4cfac8c280b56d'', 60),
     (''MSOL/USD'', ''c2289a6a43d2ce91c6f55caec370f4acc38a2ed477f58813334c6d03749ff2a4'', 60),
     (''BSOL/USD'', ''89875379e70f8fbadc17aef315adf3a8d5d160b811435537e03c97e8aac97d9c'', 60),
     (''SSOL/SOL'', ''add6499a420f809bbebc0b22fbf68acb8c119023897f6ea801688e0d6e391af4'', 60),
     (''BONK/USD'', ''72b021217ca3fe68922a19aaf990109cb9d84e9ad004b4d2025ad6f529314419'', 60),
     (''W/USD'', ''eff7446475e218517566ea99e72a4abec2e1bd8498b43b7d8331e29dcb059389'', 60),
     (''MEW/USD'', ''514aed52ca5294177f20187ae883cec4a018619772ddce41efcc36a6448f5d5d'', 60),
     (''USDC/USD'', ''eaa020c61cc479712813461ce153894a96a6c00b21ed0cfc2798d1f9a9e9c94a'', 60),
     (''USDT/USD'', ''2b89b9dc8fdf9f34709a5b106b472f0f39bb6ca9ce04b0fd7f2e971688e2e53b'', 60),
     (''JUP/USD'', ''0a0408d619e9380abad35060f9192039ed5042fa6f82301d0e48bb52be830996'', 60),
     (''PYTH/USD'', ''0bbf28e9a841a1cc788f6a361b17ca072d0ea3098a1e5df1c3922d06719579ff'', 60),
     (''HNT/USD'', ''649fdd7ec08e8e2a20f425729854e90293dcbe2376abc47197a14da6ff339756'', 60),
     (''ORCA/USD'', ''37505261e557e251290b8c8899453064e8d760ed5c65a779726f2490980da74c'', 60),
     (''SAMO/USD'', ''49601625e1a342c1f90c3fe6a03ae0251991a1d76e480d2741524c29037be28a'', 60),
     (''WIF/USD'', ''4ca4beeca86f0d164160323817a4e42b10010a724c2217c6ee41b54cd4cc61fc'', 60),
     (''INF/USD'', ''f51570985c642c49c2d6e50156390fdba80bb6d5f7fa389d2f012ced4f7d208f'', 60),
     (''MNDE/USD'', ''3607bf4d7b78666bd3736c7aacaf2fd2bc56caa8667d3224971ebe3c0623292a'', 60),
     (''NEON/USD'', ''d82183dd487bef3208a227bb25d748930db58862c5121198e723ed0976eb92b7'', 60),
     (''JLP/USD'', ''c811abc82b4bad1f9bd711a2773ccaa935b03ecef974236942cec5e0eb845a3a'', 60),
     (''WBTC/USD'', ''c9d8b075a5c69303365ae23633d4e085199bf5c520a3b90fed1322a0342ffc33'', 60),
     (''PENGU/USD'', ''bed3097008b9b5e3c93bec20be79cb43986b85a996475589351a21e67bae9b61'', 60),
     (''TRUMP/USD'', ''879551021853eec7a7dc827578e8e69da7e4fa8148339aa0d3d5296405be4b1a'', 60),
     (''FARTCOIN/USD'', ''58cd29ef0e714c5affc44f269b2c1899a52da4169d7acc147b9da692e6953608'', 60),
     (''ACRED/USD'', ''40ac3329933a6b5b65cf31496018c5764ac0567316146f7d0de00095886b480d'', 60),
     (''PUMP/USD'', ''7a01fca212788bba7c5bf8c9efd576a8a722f070d2c17596ff7bb609b8d5c3b9'', 60),
     (''JUPSOL/SOL.RR'', ''f8d8d6b6c866c8b2624fb5b679ae846738725e5fc887fa8e927c8d8645018a2b'', 60),
     (''NAV.USTB/USD'', ''dea78edd10cd7ae4524cc1744216788746306623bc3553014eeab6062860795d'', 60),
     (''NAV.USCC/USD'', ''5d73a5953dc86c4773adc778c30e8a6dfc94c5c3a74d7ebb56dd5e70350f044a'', 60),
     (''ZBTC/USD'', ''3d824c7f7c26ed1c85421ecec8c754e6b52d66a4e45de20a9c9ea91de8b396f9'', 60),
     (''LBTC/USD'', ''8f257aab6e7698bb92b15511915e593d6f8eae914452f781874754b03d0c612b'', 60),
     (''INF/SOL.RR'', ''3e9961b890c4e77e9009c1a6d81dc556e24a3c190b02d1682c8f545c53b1d4a2'', 60),
     (''INDEX.FORD/USD'', ''84d8c84bfbe6f71af527493f9aaee09950ee3e09c8460b2b781ce65ea341c10a'', 60),
     (''INDEX.GLXY/USD'', ''c59735498fa594a63e36382c12656e4313a7269ea1a1ed8fa583008e277f9cdb'', 60),
     (''SYRUPUSDC/USDC.RR'', ''2ad31d1c4a85fbf2156ce57fab4104124c5ef76a6386375ecfc8da1ed5ce1486'', 60),
     (''ORE/USD'', ''142b804c658e14ff60886783e46e5a51bdf398b4871d9d8f7c28aa1585cad504'', 60),
     (''NOPAL/USD.RR'', ''8858dfaa8998ff44681aa145a8aa5b7772979b1d044a1bbf3cf5d971168baa85'', 60),
     (''NTBILL/USD.RR'', ''f03015f29e6c90d5fe62da7d1a13c912c8bf7523d90c981387f82ee0c83332bd'', 60),
     (''NBASIS/USD.RR'', ''fd9397e6dfc968ff8eaa652c6e4b7dfdeb6fdc940afe90c23ca5acfa45d408e1'', 60),
     (''NWISDOM/USD.RR'', ''384986c9655ec6887dbd7f7430d864992f872db2c77ba5781a26b78dad277adc'', 60),
     (''NALPHA/USD.RR'', ''57d1e11bea1316c2f7263a39c2780685691585aae34eff39300f5db564501b17'', 60),
     (''NFALCON/USD.RR'', ''323647322045edff1a0928dca6628169a57afdea43a5f0d948115e3dcae9c1fb'', 60),
     (''CASH/RD.RR'', ''64c74ffd61574170cfaee65c54c8810adcf83f6c31f3c256d9a290dcbf4ff1a9'', 30),
     (''CASH/USD'', ''df3320ef0f4617337b8dbb924f2aaa4f9db08f522a5435b44f9066c1ac4c7f95'', 30),
     (''PST/USDC.RR'', ''675e36f84a6be779ed793c71eb5c03151e1866c125767f46933626e0610af84d'', 240),
     (''JUPUSD/USD'', ''8ed858a2214e892c9371694fb6c8a9037b6ed4052c4edf209f8cb988484e81d9'', 60)]"

definition SPONSORED_PYTH_FEED_IDS :: "string list" where
  "SPONSORED_PYTH_FEED_IDS = map (\<lambda>(_, i, _). i) SPONSORED_PYTH_FEEDS"

fun asset_name :: "PythAssetType \<Rightarrow> string" where
  "asset_name Asset_Crypto = ''Crypto''"
| "asset_name Asset_Crypto_Redemption_Rate = ''Crypto Redemption Rate''"
| "asset_name Asset_Crypto_Index = ''Crypto Index''"
| "asset_name Asset_Crypto_NAV = ''Crypto NAV''"
| "asset_name Asset_Equity = ''Equity''"
| "asset_name Asset_FX = ''FX''"
| "asset_name Asset_Metal = ''Metal''"
| "asset_name Asset_Rates = ''Rates''"
| "asset_name Asset_Commodities = ''Commodities''"
| "asset_name Asset_ECO = ''ECO''"

definition PYTH_ASSET_TYPES :: "PythAssetType list" where
  "PYTH_ASSET_TYPES = [Asset_Crypto, Asset_Crypto_Redemption_Rate, Asset_Crypto_Index,
     Asset_Crypto_NAV, Asset_Equity, Asset_FX, Asset_Metal, Asset_Rates, Asset_Commodities, Asset_ECO]"

text \<open>A string that is one of the listed asset types, as that asset type.\<close>

definition asset_of :: "string \<Rightarrow> PythAssetType option" where
  "asset_of s = find (\<lambda>a. asset_name a = s) PYTH_ASSET_TYPES"

definition pythAssetCategory :: "PythAssetType \<Rightarrow> PythCategory" where
  "pythAssetCategory a = (if startsWith (asset_name a) ''Crypto'' then Category_crypto else Category_economics)"

definition strip_RR :: "string \<Rightarrow> string" where
  "strip_RR s = (if endsWith s ''.RR'' then take (length s - 3) s else s)"

definition sponsoredFeed :: "string \<times> string \<times> int \<Rightarrow> PythFeed" where
  "sponsoredFeed row = (case row of (symbol, i, heartbeatSeconds) \<Rightarrow>
     let parts = split_char CHR ''/'' symbol;
         base = at_or parts 0 symbol;
         quote = at_or parts 1 ''USD'';
         assetType = (if js_includes symbol ''.RR'' then Asset_Crypto_Redemption_Rate
                      else if startsWith symbol ''NAV.'' then Asset_Crypto_NAV
                      else if startsWith symbol ''INDEX.'' then Asset_Crypto_Index
                      else Asset_Crypto)
     in \<lparr>pf_id = i, pf_symbol = symbol, pf_base = base, pf_quoteCurrency = strip_RR quote,
         pf_description = symbol @ '' sponsored Solana price feed'', pf_schedule = None,
         pf_assetType = assetType, pf_category = Category_crypto, pf_delivery = Sponsored_push,
         pf_heartbeatSeconds = Some heartbeatSeconds\<rparr>)"

definition PYTH_PRICE_FEEDS :: "PythFeed list" where
  "PYTH_PRICE_FEEDS = map sponsoredFeed SPONSORED_PYTH_FEEDS"

section \<open>Normalising and searching feeds\<close>

definition stringAttribute :: "json \<Rightarrow> string \<Rightarrow> string" where
  "stringAttribute attributes key =
     (case string_of (field attributes key) of Some s \<Rightarrow> trim s | None \<Rightarrow> [])"

definition normalizePythFeed :: "json \<Rightarrow> PythFeed option" where
  "normalizePythFeed v =
     (if \<not> is_object v then None
      else
        let i = (case string_of (field v ''id'') of
                   Some s \<Rightarrow> strip_0x (toLowerCase s) | None \<Rightarrow> []);
            attributes = (case field v ''attributes'' of Some a \<Rightarrow> a | None \<Rightarrow> JNull);
            assetType = asset_of (stringAttribute attributes ''asset_type'');
            symbol = stringAttribute attributes ''display_symbol'';
            base = stringAttribute attributes ''base'';
            quoteCurrency = stringAttribute attributes ''quote_currency'';
            description = stringAttribute attributes ''description'';
            schedule = stringAttribute attributes ''schedule''
        in if \<not> is_hex_string 64 i \<or> assetType = None \<or> symbol = [] \<or> base = []
              \<or> quoteCurrency = [] \<or> description = []
              \<or> js_includes (toLowerCase (symbol @ '' '' @ description)) ''deprecated''
           then None
           else
             let sponsored = (i \<in> set SPONSORED_PYTH_FEED_IDS);
                 fallback = (if sponsored then find (\<lambda>f. pf_id f = i) PYTH_PRICE_FEEDS else None)
             in Some \<lparr>pf_id = i, pf_symbol = symbol, pf_base = base, pf_quoteCurrency = quoteCurrency,
                  pf_description = description,
                  pf_schedule = (if schedule = [] then None else Some schedule),
                  pf_assetType = the assetType, pf_category = pythAssetCategory (the assetType),
                  pf_delivery = (if sponsored then Sponsored_push else Hermes_pull),
                  pf_heartbeatSeconds = Option.bind fallback pf_heartbeatSeconds\<rparr>)"

definition feedOrder :: "(string \<Rightarrow> string \<Rightarrow> int) \<Rightarrow> PythFeed \<Rightarrow> PythFeed \<Rightarrow> int" where
  "feedOrder localeCompare left right =
     (if pf_delivery left \<noteq> pf_delivery right
      then (if pf_delivery left = Sponsored_push then -1 else 1)
      else localeCompare (pf_symbol left) (pf_symbol right))"

definition feedMatches :: "string \<Rightarrow> PythFeed \<Rightarrow> bool" where
  "feedMatches query f \<longleftrightarrow> query = []
     \<or> js_includes (toLowerCase (pf_symbol f @ '' '' @ pf_description f @ '' '' @ asset_name (pf_assetType f))) query"

text \<open>The category \<open>all\<close> is \<open>None\<close>; the limit is an integer.\<close>

definition searchPythFeeds ::
    "(string \<Rightarrow> string \<Rightarrow> int) \<Rightarrow> json list \<Rightarrow> string option \<Rightarrow> PythCategory option \<Rightarrow> int option
     \<Rightarrow> PythFeed list" where
  "searchPythFeeds localeCompare values query category limit =
     (let q = (case query of Some s \<Rightarrow> toLowerCase (trim s) | None \<Rightarrow> []);
          n = min (max (case limit of Some l \<Rightarrow> l | None \<Rightarrow> 50) 1) 100;
          feeds = first_by pf_id [] (List.map_filter normalizePythFeed values)
      in take (nat n) (js_sort (feedOrder localeCompare)
           (filter (feedMatches q) (filter (\<lambda>f. category = None \<or> category = Some (pf_category f)) feeds))))"

section \<open>Source identifiers, thresholds and market identifiers\<close>

definition I64_MAX :: int where "I64_MAX = 2 ^ 63 - 1"
definition I128_MIN :: int where "I128_MIN = - (2 ^ 127)"
definition I128_MAX :: int where "I128_MAX = 2 ^ 127 - 1"

definition oracleSourceIdBytes :: "string \<Rightarrow> int list res" where
  "oracleSourceIdBytes v =
     (let normalized = strip_0x (toLowerCase v)
      in if \<not> is_hex_string 64 normalized
         then Inl (Error ''Oracle source ID must be an exact 32-byte hexadecimal value'')
         else Inr (bytes_to_numbers (hex_bytes normalized)))"

definition txlineFixtureSourceId :: "int \<Rightarrow> int list res" where
  "txlineFixtureSourceId fixtureId =
     (if fixtureId \<le> 0 \<or> fixtureId > I64_MAX
      then Inl (Error ''TxLINE fixture ID must fit a positive signed 64-bit integer'')
      else Inr (bytes_to_numbers (int_le_bytes 8 fixtureId @ replicate 24 0)))"

text \<open>The match of \<open>/^(-?)(\d+)(?:\.(\d+))?$/\<close>: the sign, the whole digits and the fraction.\<close>

definition decimal_match :: "string \<Rightarrow> (bool \<times> string \<times> string) option" where
  "decimal_match v =
     (let neg = (v \<noteq> [] \<and> hd v = CHR ''-'');
          t = (if neg then tl v else v);
          whole = takeWhile is_digit t;
          r = dropWhile is_digit t
      in if whole = [] then None
         else if r = [] then Some (neg, whole, [])
         else if hd r = CHR ''.'' \<and> tl r \<noteq> [] \<and> list_all is_digit (tl r) then Some (neg, whole, tl r)
         else None)"

definition parseDecimalAtExponent :: "string \<Rightarrow> jsnum \<Rightarrow> int res" where
  "parseDecimalAtExponent v expo =
     (if \<not> is_safe_integer expo \<or> num_int expo > 0 \<or> num_int expo < -18
      then Inl (Error ''Oracle exponent must be an integer from -18 through 0'')
      else case decimal_match v of
        None \<Rightarrow> Inl (Error ''Oracle threshold must be a plain decimal number'')
      | Some (neg, whole, fraction) \<Rightarrow>
          let precision = nat (- num_int expo)
          in if length fraction > precision
             then Inl (Error (''Oracle threshold supports at most '' @ int_str (int precision) @ '' decimal places''))
             else rbind (js_BigInt (whole @ padEnd precision CHR ''0'' fraction)) (\<lambda>magnitude.
               let result = (if neg then - magnitude else magnitude)
               in if result < I128_MIN \<or> result > I128_MAX
                  then Inl (Error ''Oracle threshold exceeds the signed 128-bit range'')
                  else Inr result))"

definition marketIdFromEntropy :: "byte list \<Rightarrow> int res" where
  "marketIdFromEntropy entropy =
     (if length entropy \<noteq> 8 then Inl (Error ''Market ID entropy must contain exactly eight bytes'')
      else let marketId = le_bytes_int entropy
           in if marketId = 0 then Inl (Error ''Market ID cannot be zero'') else Inr marketId)"

text \<open>The keeper's reading of a TxLINE source identifier.\<close>

definition fixtureIdFromSource :: "int list \<Rightarrow> int res" where
  "fixtureIdFromSource sourceId =
     (let bytes = buffer_from sourceId
      in if length bytes \<noteq> 32 \<or> list_ex (\<lambda>b. b \<noteq> 0) (drop 8 bytes)
         then Inl (Error ''TxLINE source ID is not a canonical fixture ID'')
         else let fixtureId = sint (word_of_int (le_bytes_int (take 8 bytes)) :: 64 word)
              in if fixtureId \<le> 0 \<or> fixtureId > MAX_SAFE_INTEGER
                 then Inl (Error ''TxLINE fixture ID is outside the supported range'')
                 else Inr fixtureId)"

section \<open>Program addresses\<close>

text \<open>A public key is its bytes.  A derivation takes the seeds and the program.\<close>

type_synonym pubkey = "byte list"
type_synonym derivation = "byte list list \<Rightarrow> pubkey \<Rightarrow> pubkey"

definition U64_MAX :: int where "U64_MAX = 2 ^ 64 - 1"

definition u64Le :: "int \<Rightarrow> byte list res" where
  "u64Le v = (if v < 0 \<or> v > U64_MAX then Inl (Error ''value must fit an unsigned 64-bit integer'')
              else Inr (int_le_bytes 8 v))"

definition pda :: "derivation \<Rightarrow> byte list list \<Rightarrow> pubkey \<Rightarrow> pubkey" where
  "pda findProgramAddress seeds programId = findProgramAddress seeds programId"

definition enginePda :: "derivation \<Rightarrow> pubkey \<Rightarrow> pubkey" where
  "enginePda D programId = pda D [utf8 ''engine''] programId"

definition hybridMarketPda :: "derivation \<Rightarrow> pubkey \<Rightarrow> int \<Rightarrow> pubkey \<Rightarrow> pubkey res" where
  "hybridMarketPda D creator marketId programId =
     rbind (u64Le marketId) (\<lambda>m. Inr (pda D [utf8 ''hybrid-market'', creator, m] programId))"

definition hybridVaultPda :: "derivation \<Rightarrow> pubkey \<Rightarrow> pubkey \<Rightarrow> pubkey" where
  "hybridVaultPda D market programId = pda D [utf8 ''hybrid-vault'', market] programId"

definition oracleConfigPda :: "derivation \<Rightarrow> pubkey \<Rightarrow> pubkey \<Rightarrow> pubkey" where
  "oracleConfigPda D market programId = pda D [utf8 ''oracle-config'', market] programId"

definition positionPda :: "derivation \<Rightarrow> pubkey \<Rightarrow> pubkey \<Rightarrow> pubkey \<Rightarrow> pubkey" where
  "positionPda D market owner programId = pda D [utf8 ''position'', market, owner] programId"

definition resolutionReceiptPda :: "derivation \<Rightarrow> pubkey \<Rightarrow> pubkey \<Rightarrow> pubkey" where
  "resolutionReceiptPda D market programId = pda D [utf8 ''resolution-receipt'', market] programId"

definition optimisticProposalPda :: "derivation \<Rightarrow> pubkey \<Rightarrow> pubkey \<Rightarrow> pubkey" where
  "optimisticProposalPda D market programId = pda D [utf8 ''optimistic-proposal'', market] programId"

definition optimisticBondVaultPda :: "derivation \<Rightarrow> pubkey \<Rightarrow> pubkey \<Rightarrow> pubkey" where
  "optimisticBondVaultPda D market programId = pda D [utf8 ''optimistic-bond-vault'', market] programId"

definition hybridMetadataPda :: "derivation \<Rightarrow> pubkey \<Rightarrow> pubkey \<Rightarrow> pubkey" where
  "hybridMetadataPda D market programId = pda D [utf8 ''hybrid-metadata'', market] programId"

definition normalizeFeedId :: "string \<Rightarrow> string res" where
  "normalizeFeedId feedId =
     (let normalized = strip_0x (toLowerCase feedId)
      in if \<not> is_hex_string 64 normalized
         then Inl (Error ''Pyth feed ID must be an exact 32-byte hexadecimal value'')
         else Inr normalized)"

section \<open>Optimistic evidence\<close>

definition MAX_OPTIMISTIC_EVIDENCE_URI_BYTES :: nat where
  "MAX_OPTIMISTIC_EVIDENCE_URI_BYTES = 160"

datatype OptimisticEvidenceRole = Role_assertion | Role_challenge

fun DOMAINS :: "OptimisticEvidenceRole \<Rightarrow> string" where
  "DOMAINS Role_assertion = ''nortia-optimistic-assertion''"
| "DOMAINS Role_challenge = ''nortia-optimistic-challenge''"

text \<open>What the URL parser of the platform reports: host name, user name and password.\<close>

record url =
  url_hostname :: string
  url_username :: string
  url_password :: string

definition normalizeEvidenceUri :: "(string \<Rightarrow> url option) \<Rightarrow> string \<Rightarrow> string res" where
  "normalizeEvidenceUri parseUrl v =
     (if v = [] \<or> trim v \<noteq> v then Inl (Error ''Evidence URI must use canonical spacing'')
      else if length (utf8 v) > MAX_OPTIMISTIC_EVIDENCE_URI_BYTES
      then Inl (Error ''Evidence URI cannot exceed 160 bytes'')
      else if list_ex (\<lambda>c. char_code c < 32 \<or> char_code c = 127) v
      then Inl (Error ''Evidence URI cannot contain control characters'')
      else if \<not> list_all (\<lambda>c. 32 \<le> char_code c \<and> char_code c \<le> 126) v
      then Inl (Error ''Evidence URI must use printable ASCII characters'')
      else if \<not> startsWith v ''https://'' \<and> \<not> startsWith v ''ipfs://'' \<and> \<not> startsWith v ''ar://''
      then Inl (Error ''Evidence URI must use an HTTPS, IPFS, or Arweave scheme'')
      else case parseUrl v of
        None \<Rightarrow> Inl (Error ''Evidence URI is invalid'')
      | Some parsed \<Rightarrow>
          if url_hostname parsed = [] \<or> url_username parsed \<noteq> [] \<or> url_password parsed \<noteq> []
          then Inl (Error ''Evidence URI is invalid'') else Inr v)"

definition evidencePayload :: "OptimisticEvidenceRole \<Rightarrow> pubkey \<Rightarrow> byte \<Rightarrow> string \<Rightarrow> byte list" where
  "evidencePayload role market outc uri =
     concat [utf8 (DOMAINS role), market, [outc], utf8 uri]"

definition optimisticEvidenceHash ::
    "(byte list \<Rightarrow> byte list) \<Rightarrow> (string \<Rightarrow> url option) \<Rightarrow> OptimisticEvidenceRole \<Rightarrow> pubkey \<Rightarrow> byte
     \<Rightarrow> string \<Rightarrow> byte list res" where
  "optimisticEvidenceHash sha256 parseUrl role market outc evidenceUri =
     rbind (normalizeEvidenceUri parseUrl evidenceUri) (\<lambda>uri.
       Inr (sha256 (evidencePayload role market outc uri)))"

section \<open>Lemmas\<close>

subsection \<open>Feeds\<close>

lemma normalizePythFeed_SomeD:
  assumes "normalizePythFeed v = Some f"
  shows "is_hex_string 64 (pf_id f)" "pf_category f = pythAssetCategory (pf_assetType f)"
    "pf_delivery f = Sponsored_push \<longleftrightarrow> pf_id f \<in> set SPONSORED_PYTH_FEED_IDS"
    "pf_heartbeatSeconds f \<noteq> None \<Longrightarrow> pf_delivery f = Sponsored_push"
    "pf_symbol f \<noteq> [] \<and> pf_description f \<noteq> []"
proof -
  define i where "i = (case string_of (field v ''id'') of Some s \<Rightarrow> strip_0x (toLowerCase s) | None \<Rightarrow> [])"
  define attributes where "attributes = (case field v ''attributes'' of Some a \<Rightarrow> a | None \<Rightarrow> JNull)"
  define assetType where "assetType = asset_of (stringAttribute attributes ''asset_type'')"
  define symbol where "symbol = stringAttribute attributes ''display_symbol''"
  define description where "description = stringAttribute attributes ''description''"
  define fallback where "fallback = (if i \<in> set SPONSORED_PYTH_FEED_IDS
    then find (\<lambda>f. pf_id f = i) PYTH_PRICE_FEEDS else None)"
  have "is_hex_string 64 i \<and> symbol \<noteq> [] \<and> description \<noteq> [] \<and> pf_id f = i \<and> pf_symbol f = symbol
    \<and> pf_description f = description \<and> pf_assetType f = the assetType
    \<and> pf_category f = pythAssetCategory (the assetType)
    \<and> pf_delivery f = (if i \<in> set SPONSORED_PYTH_FEED_IDS then Sponsored_push else Hermes_pull)
    \<and> pf_heartbeatSeconds f = Option.bind fallback pf_heartbeatSeconds"
    using assms unfolding normalizePythFeed_def Let_def i_def [symmetric] attributes_def [symmetric]
      assetType_def [symmetric] symbol_def [symmetric] description_def [symmetric] fallback_def [symmetric]
    by (force split: if_splits)
  then show "is_hex_string 64 (pf_id f)" "pf_category f = pythAssetCategory (pf_assetType f)"
    "pf_delivery f = Sponsored_push \<longleftrightarrow> pf_id f \<in> set SPONSORED_PYTH_FEED_IDS"
    "pf_heartbeatSeconds f \<noteq> None \<Longrightarrow> pf_delivery f = Sponsored_push"
    "pf_symbol f \<noteq> [] \<and> pf_description f \<noteq> []"
    by (auto simp: fallback_def split: if_splits)
qed

lemma set_map_filter: "set (List.map_filter f xs) = {y. \<exists>x\<in>set xs. f x = Some y}"
  by (induction xs) (auto simp: List.map_filter_simps split: option.splits)

lemma consistent_feedOrder: "consistent localeCompare \<Longrightarrow> consistent (feedOrder localeCompare)"
  unfolding consistent_def feedOrder_def
  by (smt (verit) PythDelivery.exhaust)

lemma searched_feed:
  assumes "f \<in> set (searchPythFeeds localeCompare values query category limit)"
  shows "\<exists>v\<in>set values. normalizePythFeed v = Some f" "\<And>c. category = Some c \<Longrightarrow> pf_category f = c"
  using assms first_by_distinct [of pf_id "[]" "List.map_filter normalizePythFeed values"]
  by (fastforce simp: searchPythFeeds_def Let_def set_map_filter dest!: in_set_takeD)+

subsection \<open>Decimal text\<close>

definition decimal_text :: "bool \<Rightarrow> string \<Rightarrow> string \<Rightarrow> string" where
  "decimal_text neg whole fraction =
     (if neg then ''-'' else []) @ whole @ (if fraction = [] then [] else CHR ''.'' # fraction)"

lemma not_digit_sign [simp]: "\<not> is_digit CHR ''-''" "\<not> is_digit CHR ''.''"
  by code_simp+

lemma digits_dot:
  assumes "list_all is_digit whole" "rest = [] \<or> \<not> is_digit (hd rest)"
  shows "takeWhile is_digit (whole @ rest) = whole" "dropWhile is_digit (whole @ rest) = rest"
proof -
  have "takeWhile is_digit rest = []" "dropWhile is_digit rest = rest" using assms(2) by (cases rest; auto)+
  then show "takeWhile is_digit (whole @ rest) = whole" "dropWhile is_digit (whole @ rest) = rest"
    using assms(1) by (simp_all add: takeWhile_append2 dropWhile_append2 list_all_iff)
qed

lemma decimal_match_text:
  assumes "all_digits 10 whole" "list_all is_digit fraction"
  shows "decimal_match (decimal_text neg whole fraction) = Some (neg, whole, fraction)"
proof -
  have w: "whole \<noteq> []" "list_all is_digit whole"
    using assms(1) by (simp_all add: all_digits_def is_digit_iff list_all_iff)
  then have h: "hd whole \<noteq> CHR ''-''" using not_digit_sign(1) by (cases whole) auto
  let ?r = "if fraction = [] then [] else CHR ''.'' # fraction"
  have d: "takeWhile is_digit (whole @ ?r) = whole" "dropWhile is_digit (whole @ ?r) = ?r"
    using digits_dot [OF w(2), of ?r] by simp_all
  have t: "(decimal_text neg whole fraction \<noteq> [] \<and> hd (decimal_text neg whole fraction) = CHR ''-'') = neg"
    using w(1) h by (auto simp: decimal_text_def)
  have u: "(if neg then tl (decimal_text neg whole fraction) else decimal_text neg whole fraction) = whole @ ?r"
    by (simp add: decimal_text_def)
  show ?thesis unfolding decimal_match_def Let_def t u d using assms(2) w by simp
qed

lemma decimal_match_SomeD:
  assumes "decimal_match v = Some (neg, whole, fraction)"
  shows "v = decimal_text neg whole fraction" "all_digits 10 whole" "list_all is_digit fraction"
proof -
  define n where "n = (v \<noteq> [] \<and> hd v = CHR ''-'')"
  define t where "t = (if n then tl v else v)"
  define w where "w = takeWhile is_digit t"
  define r where "r = dropWhile is_digit t"
  have "decimal_match v = (if w = [] then None else if r = [] then Some (n, w, [])
    else if hd r = CHR ''.'' \<and> tl r \<noteq> [] \<and> list_all is_digit (tl r) then Some (n, w, tl r) else None)"
    unfolding decimal_match_def Let_def w_def r_def t_def n_def ..
  with assms have f: "w \<noteq> []" "neg = n" "whole = w"
    "r = [] \<and> fraction = [] \<or> hd r = CHR ''.'' \<and> r \<noteq> [] \<and> fraction = tl r \<and> fraction \<noteq> []
      \<and> list_all is_digit fraction"
    by (simp_all split: if_splits)
  have r: "r = (if fraction = [] then [] else CHR ''.'' # fraction)"
    using f(4) by (cases r) auto
  have t: "t = w @ r" by (simp add: w_def r_def)
  have v: "v = (if n then ''-'' else []) @ t" by (cases v) (simp_all add: t_def n_def)
  show "v = decimal_text neg whole fraction"
    using v t r f(2,3) by (simp add: decimal_text_def)
  show "list_all is_digit fraction" using f(4) by auto
  show "all_digits 10 whole"
    using f(1,3) set_takeWhileD [of _ is_digit t] by (auto simp: w_def all_digits_def list_all_iff is_digit_iff)
qed

lemma padded_value:
  assumes "all_digits 10 whole" "list_all is_digit fraction" "length fraction \<le> p"
  shows "js_BigInt (whole @ padEnd p CHR ''0'' fraction)
    = Inr (radix_val 10 whole * 10 ^ p + radix_val 10 fraction * 10 ^ (p - length fraction))"
proof -
  let ?f = "padEnd p CHR ''0'' fraction"
  have z: "is_radix_digit 10 CHR ''0''" by code_simp
  have "all_digits 10 (whole @ ?f)"
    using assms z by (auto simp: all_digits_def padEnd_def is_digit_iff list_all_iff)
  moreover have "length ?f = p" using assms(3) by (simp add: padEnd_def)
  moreover have "radix_val 10 ?f = radix_val 10 fraction * 10 ^ (p - length fraction)"
    by (simp add: padEnd_def radix_val_zeros_end)
  ultimately show ?thesis by (simp add: js_BigInt_digits radix_val_append)
qed

subsection \<open>Addresses\<close>

datatype account =
    Engine
  | Hybrid_market pubkey int
  | Hybrid_vault pubkey
  | Oracle_config pubkey
  | Position pubkey pubkey
  | Resolution_receipt pubkey
  | Optimistic_proposal pubkey
  | Optimistic_bond_vault pubkey
  | Hybrid_metadata pubkey

fun account_address :: "derivation \<Rightarrow> pubkey \<Rightarrow> account \<Rightarrow> pubkey res" where
  "account_address D prog Engine = Inr (enginePda D prog)"
| "account_address D prog (Hybrid_market creator i) = hybridMarketPda D creator i prog"
| "account_address D prog (Hybrid_vault m) = Inr (hybridVaultPda D m prog)"
| "account_address D prog (Oracle_config m) = Inr (oracleConfigPda D m prog)"
| "account_address D prog (Position m owner) = Inr (positionPda D m owner prog)"
| "account_address D prog (Resolution_receipt m) = Inr (resolutionReceiptPda D m prog)"
| "account_address D prog (Optimistic_proposal m) = Inr (optimisticProposalPda D m prog)"
| "account_address D prog (Optimistic_bond_vault m) = Inr (optimisticBondVaultPda D m prog)"
| "account_address D prog (Hybrid_metadata m) = Inr (hybridMetadataPda D m prog)"

fun account_keys :: "account \<Rightarrow> pubkey list" where
  "account_keys Engine = []"
| "account_keys (Hybrid_market creator i) = [creator]"
| "account_keys (Hybrid_vault m) = [m]"
| "account_keys (Oracle_config m) = [m]"
| "account_keys (Position m owner) = [m, owner]"
| "account_keys (Resolution_receipt m) = [m]"
| "account_keys (Optimistic_proposal m) = [m]"
| "account_keys (Optimistic_bond_vault m) = [m]"
| "account_keys (Hybrid_metadata m) = [m]"

fun account_seed :: "account \<Rightarrow> byte list" where
  "account_seed Engine = utf8 ''engine''"
| "account_seed (Hybrid_market creator i) = utf8 ''hybrid-market'' @ creator @ int_le_bytes 8 i"
| "account_seed (Hybrid_vault m) = utf8 ''hybrid-vault'' @ m"
| "account_seed (Oracle_config m) = utf8 ''oracle-config'' @ m"
| "account_seed (Position m owner) = utf8 ''position'' @ m @ owner"
| "account_seed (Resolution_receipt m) = utf8 ''resolution-receipt'' @ m"
| "account_seed (Optimistic_proposal m) = utf8 ''optimistic-proposal'' @ m"
| "account_seed (Optimistic_bond_vault m) = utf8 ''optimistic-bond-vault'' @ m"
| "account_seed (Hybrid_metadata m) = utf8 ''hybrid-metadata'' @ m"

lemmas pda_defs = pda_def enginePda_def hybridMarketPda_def hybridVaultPda_def oracleConfigPda_def
  positionPda_def resolutionReceiptPda_def optimisticProposalPda_def optimisticBondVaultPda_def
  hybridMetadataPda_def

lemma u64Le_iff: "u64Le v = Inr b \<longleftrightarrow> 0 \<le> v \<and> v < 2 ^ 64 \<and> b = int_le_bytes 8 v"
  by (auto simp: u64Le_def U64_MAX_def)

lemma account_address_seed:
  assumes "account_address D prog a = Inr x"
  shows "\<exists>seeds. x = D seeds prog \<and> concat seeds = account_seed a
    \<and> (\<forall>creator i. a = Hybrid_market creator i \<longrightarrow> 0 \<le> i \<and> i < 2 ^ 64)"
  using assms by (cases a) (auto simp: pda_defs u64Le_iff rbind_eq_Inr intro!: exI)

lemma seed_tags:
  "utf8 ''engine'' = [101, 110, 103, 105, 110, 101]"
  "utf8 ''hybrid-market'' = [104, 121, 98, 114, 105, 100, 45, 109, 97, 114, 107, 101, 116]"
  "utf8 ''hybrid-vault'' = [104, 121, 98, 114, 105, 100, 45, 118, 97, 117, 108, 116]"
  "utf8 ''oracle-config'' = [111, 114, 97, 99, 108, 101, 45, 99, 111, 110, 102, 105, 103]"
  "utf8 ''position'' = [112, 111, 115, 105, 116, 105, 111, 110]"
  "utf8 ''resolution-receipt'' = [114, 101, 115, 111, 108, 117, 116, 105, 111, 110, 45, 114, 101, 99, 101, 105, 112, 116]"
  "utf8 ''optimistic-proposal'' = [111, 112, 116, 105, 109, 105, 115, 116, 105, 99, 45, 112, 114, 111, 112, 111, 115, 97, 108]"
  "utf8 ''optimistic-bond-vault'' = [111, 112, 116, 105, 109, 105, 115, 116, 105, 99, 45, 98, 111, 110, 100, 45, 118, 97, 117, 108, 116]"
  "utf8 ''hybrid-metadata'' = [104, 121, 98, 114, 105, 100, 45, 109, 101, 116, 97, 100, 97, 116, 97]"
  by code_simp+

lemma int_le_bytes_inject:
  assumes "int_le_bytes 8 i = int_le_bytes 8 j" "0 \<le> i" "i < 2 ^ 64" "0 \<le> j" "j < 2 ^ 64"
  shows "i = j"
proof -
  have p: "(256::int) ^ 8 = 2 ^ 64" by simp
  have "le_bytes_int (int_le_bytes 8 i) = i" "le_bytes_int (int_le_bytes 8 j) = j"
    using assms(2-5) by (auto intro!: le_bytes_int_of_int simp only: p)
  with assms(1) show ?thesis by metis
qed

lemma account_seed_inject:
  assumes "account_seed a = account_seed b"
    and "\<forall>k\<in>set (account_keys a). length k = 32" "\<forall>k\<in>set (account_keys b). length k = 32"
    and "\<forall>creator i. a = Hybrid_market creator i \<longrightarrow> 0 \<le> i \<and> i < 2 ^ 64"
    and "\<forall>creator i. b = Hybrid_market creator i \<longrightarrow> 0 \<le> i \<and> i < 2 ^ 64"
  shows "a = b"
  using assms by (cases a; cases b) (auto simp: seed_tags intro: int_le_bytes_inject)

subsection \<open>Source identifiers\<close>

lemma bytes_numbers [simp]: "buffer_from (bytes_to_numbers bs) = bs"
  by (simp add: buffer_from_def bytes_to_numbers_def comp_def)

lemma lower_char_hex: "is_lower_hex c \<Longrightarrow> lower_char c = c"
  by (auto simp: is_lower_hex_def lower_char_def Let_def)

lemma toLowerCase_hex: "list_all is_lower_hex s \<Longrightarrow> toLowerCase s = s"
  unfolding toLowerCase_def by (induction s) (auto simp: lower_char_hex)

lemma strip_0x_hex: "list_all is_lower_hex s \<Longrightarrow> strip_0x s = s"
proof -
  assume a: "list_all is_lower_hex s"
  have "\<not> is_lower_hex CHR ''x''" by code_simp
  with a have "\<not> startsWith s ''0x''" by (auto simp: startsWith_iff)
  then show ?thesis by (simp add: strip_0x_def)
qed

lemma strip_0x_prefix: "strip_0x (''0x'' @ s) = s"
  by (simp add: strip_0x_def startsWith_def)

lemma lower_0x: "toLowerCase (''0x'' @ s) = ''0x'' @ toLowerCase s"
proof -
  have "lower_char CHR ''0'' = CHR ''0''" "lower_char CHR ''x'' = CHR ''x''" by code_simp+
  then show ?thesis by (simp add: toLowerCase_def)
qed

section \<open>Properties\<close>

text \<open>
  Every program address the client derives names one account: with a derivation that
  does not collide on different seed bytes, two equal addresses have the same kind of account, the
  same keys and the same market identifier, although the derivation only sees the concatenation of
  the seeds.
\<close>

theorem account_addresses_distinct:
  assumes "\<And>s t. D s prog = D t prog \<Longrightarrow> concat s = concat t"
    and "account_address D prog a = Inr x" "account_address D prog b = Inr x"
    and "\<forall>k\<in>set (account_keys a). length k = 32" "\<forall>k\<in>set (account_keys b). length k = 32"
  shows "a = b"
proof -
  from account_address_seed [OF assms(2)] account_address_seed [OF assms(3)] assms(1)
  have "account_seed a = account_seed b"
    "\<forall>creator i. a = Hybrid_market creator i \<longrightarrow> 0 \<le> i \<and> i < 2 ^ 64"
    "\<forall>creator i. b = Hybrid_market creator i \<longrightarrow> 0 \<le> i \<and> i < 2 ^ 64" by metis+
  with assms(4,5) show ?thesis by (intro account_seed_inject)
qed

theorem account_addresses_distinct_witness:
  "Hybrid_market (replicate 32 7) 258 = Hybrid_market (replicate 32 7) 258"
  by (rule account_addresses_distinct [where D = "\<lambda>s p. concat s" and prog = "[]"
        and x = "account_seed (Hybrid_market (replicate 32 7) 258)"])
    (simp_all add: hybridMarketPda_def u64Le_def U64_MAX_def pda_def)

text \<open>
  A threshold is accepted exactly when it is a plain decimal with at most the places of
  the exponent and a scaled value in the signed 128-bit range; the result is the decimal value
  scaled by the exponent, exactly.
\<close>

theorem threshold_is_exact:
  "parseDecimalAtExponent v (JInt e) = Inr r \<longleftrightarrow>
     -18 \<le> e \<and> e \<le> 0 \<and> I128_MIN \<le> r \<and> r \<le> I128_MAX
     \<and> (\<exists>neg whole fraction. v = decimal_text neg whole fraction
        \<and> all_digits 10 whole \<and> list_all is_digit fraction \<and> length fraction \<le> nat (- e)
        \<and> r = (if neg then -1 else 1) * (radix_val 10 whole * 10 ^ nat (- e)
                + radix_val 10 fraction * 10 ^ (nat (- e) - length fraction)))"
    (is "?L \<longleftrightarrow> ?R")
proof
  assume L: ?L
  then have e: "-18 \<le> e" "e \<le> 0" by (auto simp: parseDecimalAtExponent_def split: if_splits)
  obtain neg whole fraction where m: "decimal_match v = Some (neg, whole, fraction)"
    using L by (auto simp: parseDecimalAtExponent_def split: if_splits option.splits)
  note d = decimal_match_SomeD [OF m]
  have len: "length fraction \<le> nat (- e)"
    using L by (auto simp: parseDecimalAtExponent_def m Let_def split: if_splits)
  from L padded_value [OF d(2,3) len]
  have "I128_MIN \<le> r \<and> r \<le> I128_MAX \<and> r = (if neg then -1 else 1) * (radix_val 10 whole * 10 ^ nat (- e)
                + radix_val 10 fraction * 10 ^ (nat (- e) - length fraction))"
    by (simp add: parseDecimalAtExponent_def m Let_def split: if_splits)
  with e d len show ?R by blast
next
  assume ?R
  then obtain neg whole fraction where r: "-18 \<le> e" "e \<le> 0" "I128_MIN \<le> r" "r \<le> I128_MAX"
    "v = decimal_text neg whole fraction" "all_digits 10 whole" "list_all is_digit fraction"
    "length fraction \<le> nat (- e)"
    "r = (if neg then -1 else 1) * (radix_val 10 whole * 10 ^ nat (- e)
        + radix_val 10 fraction * 10 ^ (nat (- e) - length fraction))" by blast
  have "safe_int e" using r(1,2) by (simp add: safe_int_def MAX_SAFE_INTEGER_def)
  with r padded_value [OF r(6,7,8)] decimal_match_text [OF r(6,7), of neg] show ?L
    by (cases neg) (simp_all add: parseDecimalAtExponent_def Let_def not_less)
qed

text \<open>
  The feed search returns at most the limit, each feed once and only normalised entries
  of the requested category, and lists every sponsored feed before every pulled one; sponsored
  means listed in the catalogue.
\<close>

theorem feed_search_sound:
  assumes "consistent localeCompare"
    and "fs = searchPythFeeds localeCompare values query category limit"
  shows "length fs \<le> 100 \<and> distinct (map pf_id fs)
    \<and> (\<forall>f\<in>set fs. (\<exists>v\<in>set values. normalizePythFeed v = Some f) \<and> category \<in> {None, Some (pf_category f)}
         \<and> (pf_delivery f = Sponsored_push) = (pf_id f \<in> set SPONSORED_PYTH_FEED_IDS))
    \<and> sorted_wrt (\<lambda>f g. pf_delivery f = Sponsored_push \<or> pf_delivery g = Hermes_pull) fs"
proof -
  let ?F = "first_by pf_id [] (List.map_filter normalizePythFeed values)"
  have "length fs \<le> 100" by (simp add: assms(2) searchPythFeeds_def Let_def)
  moreover have "distinct (map pf_id ?F)" using first_by_distinct by blast
  then have "distinct (map pf_id fs)"
    by (simp add: assms(2) searchPythFeeds_def Let_def distinct_map_take distinct_map_filter)
  moreover have "(\<exists>v\<in>set values. normalizePythFeed v = Some f) \<and> category \<in> {None, Some (pf_category f)}
      \<and> (pf_delivery f = Sponsored_push) = (pf_id f \<in> set SPONSORED_PYTH_FEED_IDS)" if "f \<in> set fs" for f
  proof -
    note g = searched_feed [of f localeCompare "values" query category limit]
    from g(1) that assms(2) obtain v where v: "v \<in> set values" "normalizePythFeed v = Some f" by blast
    have "category \<in> {None, Some (pf_category f)}" using g(2) that assms(2) by (cases category) simp_all
    with v normalizePythFeed_SomeD(3) [OF v(2)] show ?thesis by blast
  qed
  moreover have "sorted_wrt (\<lambda>x y. feedOrder localeCompare x y \<le> 0) fs"
    using sorted_js_sort [OF consistent_feedOrder [OF assms(1)]]
    by (simp add: assms(2) searchPythFeeds_def Let_def sorted_wrt_take)
  then have "sorted_wrt (\<lambda>f g. pf_delivery f = Sponsored_push \<or> pf_delivery g = Hermes_pull) fs"
  proof (rule sorted_wrt_mono_rel [rotated])
    fix f g assume "feedOrder localeCompare f g \<le> 0"
    then show "pf_delivery f = Sponsored_push \<or> pf_delivery g = Hermes_pull"
      by (cases "pf_delivery f"; cases "pf_delivery g") (simp_all add: feedOrder_def)
  qed
  ultimately show ?thesis by blast
qed

theorem feed_search_sound_witness:
  "length (searchPythFeeds (\<lambda>a b. int (length a) - int (length b)) [JNull] None None None) \<le> 100"
proof -
  have "consistent (\<lambda>a b. int (length a) - int (length b))" by (auto simp: consistent_def)
  from feed_search_sound [OF this refl] show ?thesis by blast
qed

text \<open>
  A fixture identifier survives the source identifier it is stored as: the keeper reads
  back exactly the identifier the client wrote, for every identifier a number holds exactly, and
  refuses the larger ones.
\<close>

theorem fixture_source_round_trip:
  assumes "txlineFixtureSourceId fixtureId = Inr source"
  shows "length source = 32 \<and> fixtureIdFromSource source =
    (if fixtureId \<le> MAX_SAFE_INTEGER then Inr fixtureId
     else Inl (Error ''TxLINE fixture ID is outside the supported range''))"
proof -
  have f: "0 < fixtureId" "fixtureId < 2 ^ 63"
    and s: "source = bytes_to_numbers (int_le_bytes 8 fixtureId @ replicate 24 0)"
    using assms by (auto simp: txlineFixtureSourceId_def I64_MAX_def split: if_splits)
  have "(256::int) ^ 8 = 2 ^ 64" by simp
  then have v: "le_bytes_int (int_le_bytes 8 fixtureId) = fixtureId"
    using f by (intro le_bytes_int_of_int) simp_all
  have "sint (word_of_int fixtureId :: 64 word) = fixtureId"
    using f by (simp add: sint_sbintrunc' signed_take_bit_int_eq_self)
  then show ?thesis
    using f unfolding s fixtureIdFromSource_def Let_def bytes_numbers
    by (simp add: v bytes_to_numbers_def list_ex_iff)
qed

theorem fixture_source_round_trip_witness:
  "\<exists>source. txlineFixtureSourceId 17588229 = Inr source \<and> fixtureIdFromSource source = Inr 17588229"
proof -
  obtain source where s: "txlineFixtureSourceId 17588229 = Inr source"
    by (simp add: txlineFixtureSourceId_def I64_MAX_def)
  with fixture_source_round_trip [OF s] show ?thesis by (simp add: MAX_SAFE_INTEGER_def)
qed

end
