(* ===== verification/Effects.thy ===== *)
theory Effects
  imports Oracles
begin

text \<open>
  The effects of the services: a program that reads and changes a world and may throw.  The world
  holds the transactions sent, the lines logged, the pacing state of the Pyth client and the rest,
  which only the parameters of the model (RPC node, HTTP providers, clock) read and change.

  Statements run in the order of the code; a thrown error keeps the changes made before it.
\<close>

section \<open>Programs with effects\<close>

type_synonym ('w, 'a) io = "'w \<Rightarrow> 'a res \<times> 'w"

definition io_return :: "'a \<Rightarrow> ('w, 'a) io" where
  "io_return x = (\<lambda>w. (Inr x, w))"

definition io_throw :: "error \<Rightarrow> ('w, 'a) io" where
  "io_throw e = (\<lambda>w. (Inl e, w))"

definition io_lift :: "'a res \<Rightarrow> ('w, 'a) io" where
  "io_lift r = (\<lambda>w. (r, w))"

definition io_bind :: "('w, 'a) io \<Rightarrow> ('a \<Rightarrow> ('w, 'b) io) \<Rightarrow> ('w, 'b) io" where
  "io_bind m f = (\<lambda>w. case m w of (Inl e, w') \<Rightarrow> (Inl e, w') | (Inr x, w') \<Rightarrow> f x w')"

definition io_catch :: "('w, 'a) io \<Rightarrow> (error \<Rightarrow> ('w, 'a) io) \<Rightarrow> ('w, 'a) io" where
  "io_catch m h = (\<lambda>w. case m w of (Inl e, w') \<Rightarrow> h e w' | (Inr x, w') \<Rightarrow> (Inr x, w'))"

primrec io_for :: "('a \<Rightarrow> ('w, unit) io) \<Rightarrow> 'a list \<Rightarrow> ('w, unit) io" where
  "io_for f [] = io_return ()"
| "io_for f (x # xs) = io_bind (f x) (\<lambda>_. io_for f xs)"

primrec io_map :: "('a \<Rightarrow> ('w, 'b) io) \<Rightarrow> 'a list \<Rightarrow> ('w, 'b list) io" where
  "io_map f [] = io_return []"
| "io_map f (x # xs) = io_bind (f x) (\<lambda>y. io_bind (io_map f xs) (\<lambda>ys. io_return (y # ys)))"

definition io_guard :: "bool \<Rightarrow> string \<Rightarrow> ('w, unit) io" where
  "io_guard b message = (if b then io_throw (Error message) else io_return ())"

text \<open>
  The text of a caught error.  That of an engine error is the engine's; its class stands for it.
\<close>

fun error_message :: "error \<Rightarrow> string" where
  "error_message (Error s) = s"
| "error_message (Ineligible_Private_Batch s) = s"
| "error_message Syntax_Error = ''SyntaxError''"
| "error_message Range_Error = ''RangeError''"
| "error_message Type_Error = ''TypeError''"

section \<open>Transactions and the world of the services\<close>

datatype arg =
    A_null
  | A_int int
  | A_bool bool
  | A_text string
  | A_bytes "int list"
  | A_key pubkey
  | A_list "arg list"
  | A_struct "(string \<times> arg) list"

datatype pre_instruction =
    Compute_unit_limit int
  | Create_token_account pubkey pubkey pubkey pubkey
  | Provider_instruction "byte list"

record tx =
  tx_method :: string
  tx_args :: "arg list"
  tx_accounts :: "(string \<times> pubkey) list"
  tx_pre :: "pre_instruction list"
  tx_signers :: "pubkey list"

definition call_tx :: "string \<Rightarrow> arg list \<Rightarrow> (string \<times> pubkey) list \<Rightarrow> tx" where
  "call_tx m as accounts =
     \<lparr>tx_method = m, tx_args = as, tx_accounts = accounts, tx_pre = [], tx_signers = []\<rparr>"

type_synonym log_line = "(string \<times> json) list"

record 'x world =
  w_sent :: "tx list"
  w_log :: "log_line list"
  w_nextRequestAt :: int
  w_rest :: 'x

type_synonym ('x, 'a) outside = "('x, 'a) io"

definition outside :: "('x, 'a) outside \<Rightarrow> ('x world, 'a) io" where
  "outside m = (\<lambda>w. case m (w_rest w) of (r, x) \<Rightarrow> (r, w\<lparr>w_rest := x\<rparr>))"

text \<open>Sending a transaction: the attempt is recorded, then the node answers.\<close>

definition send_tx :: "(tx \<Rightarrow> ('x, 'a) outside) \<Rightarrow> tx \<Rightarrow> ('x world, 'a) io" where
  "send_tx rpc t = (\<lambda>w. outside (rpc t) (w\<lparr>w_sent := w_sent w @ [t]\<rparr>))"

definition log_event :: "log_line \<Rightarrow> ('x world, unit) io" where
  "log_event l = (\<lambda>w. (Inr (), w\<lparr>w_log := w_log w @ [l]\<rparr>))"

section \<open>Lemmas\<close>

lemma io_bind_return [simp]: "io_bind (io_return x) f = f x"
  by (simp add: io_bind_def io_return_def)

lemma io_bind_throw [simp]: "io_bind (io_throw e) f = io_throw e"
  by (simp add: io_bind_def io_throw_def)

lemma io_bind_lift: "io_bind (io_lift r) f = (case r of Inl e \<Rightarrow> io_throw e | Inr x \<Rightarrow> f x)"
  by (auto simp: io_bind_def io_lift_def io_throw_def split: sum.split)

lemma io_bind_assoc: "io_bind (io_bind m f) g = io_bind m (\<lambda>x. io_bind (f x) g)"
  by (rule ext) (auto simp: io_bind_def split: prod.split sum.split)

subsection \<open>The transactions a program sends\<close>

text \<open>
  \<open>sends P m\<close>: in every world \<open>m\<close> sends at most one transaction, and one that satisfies \<open>P\<close>;
  \<open>silent m\<close>: it sends none.
\<close>

definition silent :: "('x world, 'a) io \<Rightarrow> bool" where
  "silent m \<longleftrightarrow> (\<forall>w. w_sent (snd (m w)) = w_sent w)"

definition sends :: "(tx \<Rightarrow> bool) \<Rightarrow> ('x world, 'a) io \<Rightarrow> bool" where
  "sends P m \<longleftrightarrow> (\<forall>w. w_sent (snd (m w)) = w_sent w \<or> (\<exists>t. P t \<and> w_sent (snd (m w)) = w_sent w @ [t]))"

named_theorems sends_intros \<open>which transactions a program sends\<close>

lemma silent_sends: "silent m \<Longrightarrow> sends P m"
  by (simp add: silent_def sends_def)

lemma silent_return [sends_intros]: "silent (io_return x)"
  by (simp add: silent_def io_return_def)

lemma silent_throw [sends_intros]: "silent (io_throw e)"
  by (simp add: silent_def io_throw_def)

lemma silent_lift [sends_intros]: "silent (io_lift r)"
  by (simp add: silent_def io_lift_def)

lemma silent_guard [sends_intros]: "silent (io_guard b s)"
  by (simp add: io_guard_def silent_throw silent_return)

lemma silent_outside [sends_intros]: "silent (outside m)"
  by (simp add: silent_def outside_def split: prod.split)

lemma silent_log [sends_intros]: "silent (log_event l)"
  by (simp add: silent_def log_event_def)

lemma silent_bind [sends_intros]: "silent m \<Longrightarrow> (\<And>x. silent (f x)) \<Longrightarrow> silent (io_bind m f)"
  by (auto simp: silent_def io_bind_def split: prod.splits sum.splits) (metis snd_conv)+

lemma silent_if [sends_intros]: "(b \<Longrightarrow> silent m) \<Longrightarrow> (\<not> b \<Longrightarrow> silent n) \<Longrightarrow> silent (if b then m else n)"
  by simp

lemma sends_send_tx [sends_intros]: "P t \<Longrightarrow> sends P (send_tx rpc t)"
  by (auto simp: sends_def send_tx_def outside_def split: prod.split)

lemma sends_after_silent: "silent m \<Longrightarrow> (\<And>x. sends P (f x)) \<Longrightarrow> sends P (io_bind m f)"
  by (auto simp: silent_def sends_def io_bind_def split: prod.splits sum.splits) (metis snd_conv)+

lemma sends_before_silent: "sends P m \<Longrightarrow> (\<And>x. silent (f x)) \<Longrightarrow> sends P (io_bind m f)"
  unfolding silent_def sends_def io_bind_def
  by (auto split: prod.splits sum.splits) (metis snd_conv)+

lemma sends_catch: "sends P m \<Longrightarrow> (\<And>e. silent (h e)) \<Longrightarrow> sends P (io_catch m h)"
  unfolding silent_def sends_def io_catch_def
  by (auto split: prod.splits sum.splits) (metis snd_conv)+

lemma sends_if [sends_intros]:
  "(b \<Longrightarrow> sends P m) \<Longrightarrow> (\<not> b \<Longrightarrow> sends P n) \<Longrightarrow> sends P (if b then m else n)"
  by simp

lemma silent_catch: "silent m \<Longrightarrow> (\<And>e. silent (h e)) \<Longrightarrow> silent (io_catch m h)"
  unfolding silent_def io_catch_def
  by (auto split: prod.splits sum.splits) (metis snd_conv)+

text \<open>A program that always returns, whatever the world.\<close>

definition always_returns :: "('w, 'a) io \<Rightarrow> bool" where
  "always_returns m \<longleftrightarrow> (\<forall>w. \<exists>x w'. m w = (Inr x, w'))"

lemma always_returns_catch: "(\<And>e. always_returns (h e)) \<Longrightarrow> always_returns (io_catch m h)"
  unfolding always_returns_def io_catch_def by (auto split: prod.split sum.split)

lemma always_returns_bind:
  "always_returns m \<Longrightarrow> (\<And>x. always_returns (f x)) \<Longrightarrow> always_returns (io_bind m f)"
  unfolding always_returns_def io_bind_def
  by (auto split: prod.split sum.split) (metis Pair_inject sum.distinct(1))

lemma always_returns_return: "always_returns (io_return x)"
  by (simp add: always_returns_def io_return_def)

lemma always_returns_log: "always_returns (log_event l)"
  by (simp add: always_returns_def log_event_def)

lemma always_returns_for: "(\<And>x. always_returns (f x)) \<Longrightarrow> always_returns (io_for f xs)"
  by (induction xs) (simp_all add: always_returns_return always_returns_bind)

text \<open>A loop sends at most one transaction per element, in order.\<close>

inductive one_each :: "('a \<Rightarrow> tx \<Rightarrow> bool) \<Rightarrow> 'a list \<Rightarrow> tx list \<Rightarrow> bool" where
  one_each_Nil: "one_each P [] []"
| one_each_skip: "one_each P xs ts \<Longrightarrow> one_each P (x # xs) ts"
| one_each_send: "P x t \<Longrightarrow> one_each P xs ts \<Longrightarrow> one_each P (x # xs) (t # ts)"

inductive_cases one_each_ConsE: "one_each P (x # xs) ts"

lemma one_each_length: "one_each P xs ts \<Longrightarrow> length ts \<le> length xs"
  by (induction rule: one_each.induct) auto

lemma io_for_sends:
  assumes "\<And>x. sends (P x) (f x)" "\<And>x. always_returns (f x)"
  shows "\<exists>ts. w_sent (snd (io_for f xs w)) = w_sent w @ ts \<and> one_each P xs ts"
proof (induction xs arbitrary: w)
  case Nil
  then show ?case by (auto simp: io_return_def intro: one_each.intros)
next
  case (Cons x xs)
  obtain u w' where m: "f x w = (Inr u, w')" using assms(2) unfolding always_returns_def by metis
  have s: "w_sent w' = w_sent w \<or> (\<exists>t. P x t \<and> w_sent w' = w_sent w @ [t])"
    using assms(1) [of x] m unfolding sends_def by (metis snd_conv)
  obtain ts where ts: "w_sent (snd (io_for f xs w')) = w_sent w' @ ts" "one_each P xs ts"
    using Cons by blast
  have "io_for f (x # xs) w = io_for f xs w'" by (simp add: io_bind_def m)
  with s ts show ?case by (auto intro: one_each.intros)
qed

end
