(* ===== verification/Base64.thy ===== *)
theory Base64
  imports JsText
begin

text \<open>
  \<open>Buffer.toString('base64')\<close>, \<open>btoa\<close> and \<open>Buffer.from(s, 'base64')\<close>.  The decoder of Node
  stops at the padding, skips characters outside the alphabet, accepts the URL-safe alphabet too and
  drops an incomplete last byte, so it has many preimages; the encoder gives the canonical one.
\<close>

section \<open>Encoding\<close>

definition b64_char :: "int \<Rightarrow> char" where
  "b64_char i =
     code_char (if i < 26 then 65 + i else if i < 52 then 71 + i else if i < 62 then i - 4
                else if i = 62 then 43 else 47)"

fun base64_encode :: "byte list \<Rightarrow> string" where
  "base64_encode (a # b # c # r) =
     (let n = uint a * 65536 + uint b * 256 + uint c
      in [b64_char (n div 262144), b64_char (n div 4096 mod 64), b64_char (n div 64 mod 64), b64_char (n mod 64)])
     @ base64_encode r"
| "base64_encode [a, b] =
     (let n = uint a * 65536 + uint b * 256
      in [b64_char (n div 262144), b64_char (n div 4096 mod 64), b64_char (n div 64 mod 64), CHR ''=''])"
| "base64_encode [a] =
     (let n = uint a * 65536 in [b64_char (n div 262144), b64_char (n div 4096 mod 64), CHR ''='', CHR ''=''])"
| "base64_encode [] = []"

section \<open>Decoding\<close>

definition b64_val :: "char \<Rightarrow> int option" where
  "b64_val c =
     (let i = char_code c in
      if 65 \<le> i \<and> i \<le> 90 then Some (i - 65)
      else if 97 \<le> i \<and> i \<le> 122 then Some (i - 71)
      else if 48 \<le> i \<and> i \<le> 57 then Some (i + 4)
      else if i = 43 \<or> i = 45 then Some 62
      else if i = 47 \<or> i = 95 then Some 63 else None)"

fun sextets_bytes :: "int list \<Rightarrow> byte list" where
  "sextets_bytes (a # b # c # d # r) =
     (let n = a * 262144 + b * 4096 + c * 64 + d
      in [word_of_int (n div 65536), word_of_int (n div 256 mod 256), word_of_int (n mod 256)]) @ sextets_bytes r"
| "sextets_bytes [a, b, c] =
     (let n = a * 262144 + b * 4096 + c * 64 in [word_of_int (n div 65536), word_of_int (n div 256 mod 256)])"
| "sextets_bytes [a, b] = (let n = a * 262144 + b * 4096 in [word_of_int (n div 65536)])"
| "sextets_bytes _ = []"

definition base64_decode :: "string \<Rightarrow> byte list" where
  "base64_decode s = sextets_bytes (List.map_filter b64_val (takeWhile (\<lambda>c. c \<noteq> CHR ''='') s))"

section \<open>The encoder's text decodes to the bytes\<close>

lemma b64_val_char:
  assumes "0 \<le> i" "i < 64"
  shows "b64_val (b64_char i) = Some i" "b64_char i \<noteq> CHR ''=''"
proof -
  let ?j = "if i < 26 then 65 + i else if i < 52 then 71 + i else if i < 62 then i - 4
                else if i = 62 then 43 else 47"
  have c: "char_code (b64_char i) = ?j" using assms by (simp add: b64_char_def)
  then show "b64_val (b64_char i) = Some i" using assms by (auto simp: b64_val_def Let_def)
  have "char_code CHR ''='' = 61" by code_simp
  with c show "b64_char i \<noteq> CHR ''=''" using assms by (auto split: if_splits)
qed

lemma uint_byte_range: "0 \<le> uint (b :: byte)" "uint (b :: byte) < 256"
  using uint_lt2p [of b] by simp_all

lemma triple_sextets:
  fixes n :: int
  assumes "0 \<le> n" "n < 16777216"
  shows "0 \<le> n div 262144 \<and> n div 262144 < 64"
    and "0 \<le> n div 4096 mod 64 \<and> n div 4096 mod 64 < 64"
    and "0 \<le> n div 64 mod 64 \<and> n div 64 mod 64 < 64" and "0 \<le> n mod 64 \<and> n mod 64 < 64"
    and "n div 262144 * 262144 + n div 4096 mod 64 * 4096 + n div 64 mod 64 * 64 + n mod 64 = n"
proof -
  have "n div 262144 < 64" using assms by (simp add: div_less_iff_less_mult)
  then show "0 \<le> n div 262144 \<and> n div 262144 < 64" using assms by simp
  show "0 \<le> n div 4096 mod 64 \<and> n div 4096 mod 64 < 64" "0 \<le> n div 64 mod 64 \<and> n div 64 mod 64 < 64"
    "0 \<le> n mod 64 \<and> n mod 64 < 64" by simp_all
  have a: "n div 4096 = n div 64 div 64" "n div 262144 = n div 64 div 64 div 64"
    by (simp_all add: div_mult2_eq [symmetric])
  show "n div 262144 * 262144 + n div 4096 mod 64 * 4096 + n div 64 mod 64 * 64 + n mod 64 = n"
    unfolding a using div_mult_mod_eq [of "n div 64 div 64" 64] div_mult_mod_eq [of "n div 64" 64]
      div_mult_mod_eq [of n 64] by linarith
qed

lemma triple_bytes:
  fixes a b c :: byte
  shows "word_of_int ((uint a * 65536 + uint b * 256 + uint c) div 65536) = a"
    and "word_of_int ((uint a * 65536 + uint b * 256 + uint c) div 256 mod 256) = b"
    and "word_of_int ((uint a * 65536 + uint b * 256 + uint c) mod 256) = c"
proof -
  have r: "0 \<le> uint b" "uint b < 256" "0 \<le> uint c" "uint c < 256" by (simp_all add: uint_byte_range)
  have "(uint a * 65536 + uint b * 256 + uint c) div 65536 = uint a"
    using r int_div_pos_eq [of "uint a * 65536 + uint b * 256 + uint c" 65536 "uint a" "uint b * 256 + uint c"]
    by simp
  moreover have d: "(uint a * 65536 + uint b * 256 + uint c) div 256 = uint a * 256 + uint b"
    using r int_div_pos_eq [of "uint a * 65536 + uint b * 256 + uint c" 256 "uint a * 256 + uint b" "uint c"]
    by simp
  moreover have "(uint a * 256 + uint b) mod 256 = uint b" using r by simp
  moreover have "(uint a * 65536 + uint b * 256 + uint c) mod 256 = uint c"
    using r int_mod_pos_eq [of "uint a * 65536 + uint b * 256 + uint c" 256 "uint a * 256 + uint b" "uint c"]
    by simp
  ultimately show "word_of_int ((uint a * 65536 + uint b * 256 + uint c) div 65536) = a"
    "word_of_int ((uint a * 65536 + uint b * 256 + uint c) div 256 mod 256) = b"
    "word_of_int ((uint a * 65536 + uint b * 256 + uint c) mod 256) = c" by simp_all
qed

definition n24 :: "byte \<Rightarrow> byte \<Rightarrow> byte \<Rightarrow> int" where
  "n24 a b c = uint a * 65536 + uint b * 256 + uint c"

lemma n24_range: "0 \<le> n24 a b c" "n24 a b c < 16777216"
  using uint_byte_range [of a] uint_byte_range [of b] uint_byte_range [of c] by (simp_all add: n24_def)

lemma base64_decode_four:
  assumes "0 \<le> v \<and> v < 64" "0 \<le> w \<and> w < 64" "0 \<le> x \<and> x < 64" "0 \<le> y \<and> y < 64"
  shows "base64_decode (b64_char v # b64_char w # b64_char x # b64_char y # s)
    = [word_of_int ((v * 262144 + w * 4096 + x * 64 + y) div 65536),
       word_of_int ((v * 262144 + w * 4096 + x * 64 + y) div 256 mod 256),
       word_of_int ((v * 262144 + w * 4096 + x * 64 + y) mod 256)] @ base64_decode s"
  using assms by (simp add: base64_decode_def b64_val_char List.map_filter_simps Let_def)

lemma base64_decode_encode [simp]: "base64_decode (base64_encode bs) = bs"
proof (induction bs rule: base64_encode.induct)
  case (1 a b c r)
  let ?n = "n24 a b c"
  note t = triple_sextets [OF n24_range [of a b c]]
  have "base64_encode (a # b # c # r) = b64_char (?n div 262144) # b64_char (?n div 4096 mod 64)
      # b64_char (?n div 64 mod 64) # b64_char (?n mod 64) # base64_encode r"
    by (simp add: n24_def Let_def)
  then show ?case
    using triple_bytes [of a b c]
    by (simp only: base64_decode_four [OF t(1-4)] t(5)) (simp add: n24_def 1)
next
  case (2 a b)
  let ?n = "n24 a b 0"
  note t = triple_sextets [OF n24_range [of a b 0]]
  have m: "?n mod 64 = 0" by (simp add: n24_def mod_add_eq [symmetric] mod_mult_right_eq [symmetric])
  have e: "base64_encode [a, b] = [b64_char (?n div 262144), b64_char (?n div 4096 mod 64),
      b64_char (?n div 64 mod 64), CHR ''='']"
    by (simp add: n24_def Let_def)
  have s: "?n div 262144 * 262144 + ?n div 4096 mod 64 * 4096 + ?n div 64 mod 64 * 64 = ?n"
    using t(5) unfolding m by linarith
  have "base64_decode (base64_encode [a, b])
      = sextets_bytes [?n div 262144, ?n div 4096 mod 64, ?n div 64 mod 64]"
    unfolding e base64_decode_def
    by (simp only: takeWhile.simps b64_val_char [OF conjunct1 [OF t(1)] conjunct2 [OF t(1)]]
      b64_val_char [OF conjunct1 [OF t(2)] conjunct2 [OF t(2)]]
      b64_val_char [OF conjunct1 [OF t(3)] conjunct2 [OF t(3)]] List.map_filter_simps option.case
      if_True if_False simp_thms)
  also have "\<dots> = [word_of_int (?n div 65536), word_of_int (?n div 256 mod 256)]"
    using s by (simp only: sextets_bytes.simps Let_def)
  also have "\<dots> = [a, b]" using triple_bytes(1,2) [of a b 0] by (simp add: n24_def)
  finally show ?case .
next
  case (3 a)
  let ?n = "n24 a 0 0"
  note t = triple_sextets [OF n24_range [of a 0 0]]
  have m: "?n div 64 mod 64 = 0" "?n mod 64 = 0"
  proof -
    have "?n = uint a * 1024 * 64" by (simp add: n24_def)
    moreover have "uint a * 1024 * 64 div 64 = uint a * 16 * 64" by simp
    ultimately show "?n div 64 mod 64 = 0" "?n mod 64 = 0" by simp_all
  qed
  have e: "base64_encode [a] = [b64_char (?n div 262144), b64_char (?n div 4096 mod 64), CHR ''='', CHR ''='']"
    by (simp add: n24_def Let_def)
  have "base64_decode (base64_encode [a]) = sextets_bytes [?n div 262144, ?n div 4096 mod 64]"
    unfolding e base64_decode_def
    by (simp only: takeWhile.simps b64_val_char [OF conjunct1 [OF t(1)] conjunct2 [OF t(1)]]
      b64_val_char [OF conjunct1 [OF t(2)] conjunct2 [OF t(2)]] List.map_filter_simps option.case
      if_True if_False simp_thms)
  also have "\<dots> = [word_of_int (?n div 65536)]"
    using t(5) m by (simp only: sextets_bytes.simps Let_def) simp
  also have "\<dots> = [a]" using triple_bytes(1) [of a 0 0] by (simp add: n24_def)
  finally show ?case .
next
  case 4
  show ?case by (simp add: base64_decode_def List.map_filter_simps)
qed

lemma base64_encode_inject: "base64_encode a = base64_encode b \<Longrightarrow> a = b"
  by (metis base64_decode_encode)

lemma length_base64_encode: "length (base64_encode bs) = 4 * ((length bs + 2) div 3)"
  by (induction bs rule: base64_encode.induct) (simp_all add: Let_def, presburger)

end
