(* ===== verification/Txline.thy ===== *)
theory Txline
  imports Effects Base64
begin

text \<open>
  The TxLINE score provider: the body parser of \<open>client/src/txline.ts\<close>, the choice of the final
  score, the requests and the score stream of \<open>services/src/txline/client.ts\<close>, and the proof
  payload of \<open>services/src/txline/validation.ts\<close>.

  The HTTP exchange is a parameter: a request path gives a status and a body.  The stream is given
  by the decoded text of its chunks.
\<close>

section \<open>Bodies\<close>

text \<open>The values of the \<open>data:\<close> lines of a block, joined.\<close>

definition block_data :: "string \<Rightarrow> string" where
  "block_data block =
     js_join [LF] (map (\<lambda>line. trimStart (drop 5 line))
       (filter (\<lambda>line. startsWith line ''data:'') (split_char LF block)))"

definition pushParsed :: "json list \<Rightarrow> json \<Rightarrow> json list" where
  "pushParsed vs parsed = (case parsed of JArray xs \<Rightarrow> vs @ xs | v \<Rightarrow> vs @ [v])"

definition blockStep :: "json list \<Rightarrow> string \<Rightarrow> json list res" where
  "blockStep vs block =
     (let dat = block_data block
      in if dat = [] \<or> dat = ''[DONE]'' then Inr vs
         else rbind (json_parse dat) (\<lambda>parsed. Inr (pushParsed vs parsed)))"

definition parseTxlineResponse :: "string \<Rightarrow> json res" where
  "parseTxlineResponse body =
     (let normalized = crlf_to_lf (trim body)
      in if normalized = [] then Inr (JArray [])
         else if startsWith normalized ''{'' \<or> startsWith normalized ''['' then json_parse normalized
         else rbind (rfold blockStep [] (split_pair LF LF normalized)) (\<lambda>vs. Inr (JArray vs)))"

section \<open>The final score\<close>

text \<open>\<open>record.key\<close> on a value: null has no properties.\<close>

definition read :: "json \<Rightarrow> string \<Rightarrow> json option res" where
  "read v k = (if v = JNull then Inl Type_Error else Inr (field v k))"

definition read_or :: "json \<Rightarrow> string \<Rightarrow> string \<Rightarrow> json option res" where
  "read_or v k k' = rbind (read v k) (\<lambda>a. rbind (read v k') (\<lambda>b. Inr (json_or a b)))"

fun scoreKeys :: "json \<Rightarrow> string list \<Rightarrow> json list" where
  "scoreKeys v [] = []"
| "scoreKeys v (k # ks) = (case field v k of Some (JArray xs) \<Rightarrow> xs | _ \<Rightarrow> scoreKeys v ks)"

definition scoreRecords :: "json \<Rightarrow> json list" where
  "scoreRecords v =
     (case v of
        JArray xs \<Rightarrow> xs
      | JObject kvs \<Rightarrow> scoreKeys v [''data'', ''records'', ''updates'', ''scores'']
      | _ \<Rightarrow> [])"

definition seq_of :: "json \<Rightarrow> int" where
  "seq_of record = (case json_or (field record ''seq'') (field record ''Seq'') of
     Some (JNumber n) \<Rightarrow> num_int n | _ \<Rightarrow> 0)"

definition isFinalScore :: "json \<Rightarrow> bool res" where
  "isFinalScore record =
     rbind (read_or record ''action'' ''Action'') (\<lambda>action.
     rbind (read_or record ''statusId'' ''StatusId'') (\<lambda>statusId.
     rbind (read_or record ''period'' ''Period'') (\<lambda>period.
     rbind (read_or record ''seq'' ''Seq'') (\<lambda>sq.
       Inr (action = Some (JString ''game_finalised'') \<and> statusId = Some (JNumber (JInt 100))
            \<and> (period = None \<or> period = Some (JNumber (JInt 100)))
            \<and> (case sq of Some (JNumber (JInt s)) \<Rightarrow> s \<ge> 1 | _ \<Rightarrow> False))))))"

primrec rfilter :: "('a \<Rightarrow> bool res) \<Rightarrow> 'a list \<Rightarrow> 'a list res" where
  "rfilter p [] = Inr []"
| "rfilter p (x # xs) = rbind (p x) (\<lambda>b. rbind (rfilter p xs) (\<lambda>ys. Inr (if b then x # ys else ys)))"

definition latestFinalScore :: "json \<Rightarrow> json option res" where
  "latestFinalScore v =
     rbind (rfilter isFinalScore (scoreRecords v)) (\<lambda>finals.
       Inr (case js_sort (\<lambda>left right. seq_of right - seq_of left) finals of [] \<Rightarrow> None | r # _ \<Rightarrow> Some r))"

section \<open>Requests\<close>

record TxlineCredentials =
  tc_origin :: string
  tc_jwt :: string
  tc_apiToken :: string

definition strip_slash :: "string \<Rightarrow> string" where
  "strip_slash s = (if endsWith s ''/'' then butlast s else s)"

definition newTxlineClient :: "TxlineCredentials \<Rightarrow> TxlineCredentials" where
  "newTxlineClient c = c\<lparr>tc_origin := strip_slash (tc_origin c)\<rparr>"

definition txlineHeaders :: "TxlineCredentials \<Rightarrow> string \<Rightarrow> (string \<times> string) list" where
  "txlineHeaders c accept =
     [(''Accept'', accept), (''Authorization'', ''Bearer '' @ tc_jwt c), (''X-Api-Token'', tc_apiToken c)]"

text \<open>A response: its status and its text; \<open>ok\<close> is a status from 200 to 299.\<close>

type_synonym 'x fetch = "string \<Rightarrow> (string \<times> string) list \<Rightarrow> ('x, int \<times> string) outside"

definition response_ok :: "int \<Rightarrow> bool" where
  "response_ok status \<longleftrightarrow> 200 \<le> status \<and> status \<le> 299"

definition txline_get :: "'x fetch \<Rightarrow> TxlineCredentials \<Rightarrow> string \<Rightarrow> ('x, json) outside" where
  "txline_get fetch c path =
     io_bind (fetch (tc_origin c @ ''/api'' @ path) (txlineHeaders c ''application/json'')) (\<lambda>(status, body).
       if \<not> response_ok status
       then io_throw (Error (''TxLINE '' @ path @ '' failed with '' @ int_str status))
       else io_lift (parseTxlineResponse body))"

definition txline_snapshot :: "'x fetch \<Rightarrow> TxlineCredentials \<Rightarrow> int \<Rightarrow> int \<Rightarrow> ('x, json) outside" where
  "txline_snapshot fetch c fixtureId asOf =
     txline_get fetch c (''/scores/snapshot/'' @ int_str fixtureId @ ''?asOf='' @ int_str asOf)"

definition txline_historical :: "'x fetch \<Rightarrow> TxlineCredentials \<Rightarrow> int \<Rightarrow> ('x, json) outside" where
  "txline_historical fetch c fixtureId = txline_get fetch c (''/scores/historical/'' @ int_str fixtureId)"

definition txline_updates ::
    "'x fetch \<Rightarrow> TxlineCredentials \<Rightarrow> int \<Rightarrow> int \<Rightarrow> int \<Rightarrow> int option \<Rightarrow> ('x, json) outside" where
  "txline_updates fetch c epochDay hourOfDay interval fixtureId =
     txline_get fetch c (''/scores/updates/'' @ int_str epochDay @ ''/'' @ int_str hourOfDay @ ''/''
       @ int_str interval
       @ (case fixtureId of None \<Rightarrow> [] | Some f \<Rightarrow> if f = 0 then [] else ''?fixtureId='' @ int_str f))"

text \<open>\<open>URLSearchParams\<close> writes a comma as \<open>%2C\<close>.\<close>

definition txline_validationProof ::
    "'x fetch \<Rightarrow> TxlineCredentials \<Rightarrow> int \<Rightarrow> jsnum \<Rightarrow> int list \<Rightarrow> ('x, json) outside" where
  "txline_validationProof fetch c fixtureId sq statKeys =
     (if sq = JNonInt \<or> num_int sq < 1 then io_throw (Error ''TxLINE score sequence must be at least 1'')
      else if statKeys = [] then io_throw (Error ''At least one TxLINE stat key is required'')
      else txline_get fetch c (''/scores/stat-validation?fixtureId='' @ int_str fixtureId
             @ ''&seq='' @ int_str (num_int sq) @ ''&statKeys='' @ js_join ''%2C'' (map int_str statKeys)))"

section \<open>The score stream\<close>

record SseMessage =
  sse_event :: "string option"
  sse_data :: string

definition lineStep :: "string option \<times> string list \<Rightarrow> string \<Rightarrow> string option \<times> string list" where
  "lineStep st line =
     (case st of (event, dat) \<Rightarrow>
       (if startsWith line ''event:'' then Some (trim (drop 6 line)) else event,
        if startsWith line ''data:'' then dat @ [trimStart (drop 5 line)] else dat))"

definition blockMessage :: "string \<Rightarrow> SseMessage list" where
  "blockMessage block =
     (case foldl lineStep (None, []) (split_char LF block) of (event, dat) \<Rightarrow>
       if dat = [] then [] else [\<lparr>sse_event = event, sse_data = js_join [LF] dat\<rparr>])"

text \<open>\<open>buffer.indexOf('\n\n')\<close> and the two slices around it.\<close>

fun next_block :: "string \<Rightarrow> (string \<times> string) option" where
  "next_block (c # d # s) =
     (if c = LF \<and> d = LF then Some ([], s)
      else case next_block (d # s) of None \<Rightarrow> None | Some (b, r) \<Rightarrow> Some (c # b, r))"
| "next_block _ = None"

lemma next_block_length: "next_block s = Some (b, r) \<Longrightarrow> length s = length b + length r + 2"
  by (induction s arbitrary: b rule: next_block.induct) (auto split: if_splits option.splits)

function drain :: "string \<Rightarrow> SseMessage list \<times> string" where
  "drain buffer =
     (case next_block buffer of
        None \<Rightarrow> ([], buffer)
      | Some (block, r) \<Rightarrow> (case drain r of (ms, r') \<Rightarrow> (blockMessage block @ ms, r')))"
  by pat_completeness auto
termination
  by (relation "measure length") (auto dest: next_block_length)

declare drain.simps [simp del]

definition chunkStep :: "SseMessage list \<times> string \<Rightarrow> string \<Rightarrow> SseMessage list \<times> string" where
  "chunkStep st chunk =
     (case st of (ms, buffer) \<Rightarrow> case drain (buffer @ crlf_to_lf chunk) of (ms', r) \<Rightarrow> (ms @ ms', r))"

definition scoreStream :: "string list \<Rightarrow> SseMessage list" where
  "scoreStream chunks = fst (foldl chunkStep ([], []) chunks)"

section \<open>Validation payloads\<close>

datatype Bytes32Source = Source_text string | Source_numbers "int list" | Source_bytes "byte list"

definition toBytes32 :: "Bytes32Source \<Rightarrow> int list res" where
  "toBytes32 v =
     (let bytes = (case v of
                     Source_numbers ns \<Rightarrow> buffer_from ns
                   | Source_bytes bs \<Rightarrow> bs
                   | Source_text t \<Rightarrow> if startsWith t ''0x'' then hex_bytes (drop 2 t) else base64_decode t)
      in if length bytes \<noteq> 32
         then Inl (Error (''Expected 32 bytes, received '' @ int_str (int (length bytes))))
         else Inr (bytes_to_numbers bytes))"

record TxlineProofNode =
  pn_hash :: Bytes32Source
  pn_isRightSibling :: bool

record TxlineStat =
  st_key :: int
  st_value :: int
  st_period :: int

record TxlineValidationResponse =
  tv_fixtureId :: int
  tv_updateCount :: int
  tv_minTimestamp :: int
  tv_maxTimestamp :: int
  tv_eventStatsSubTreeRoot :: Bytes32Source
  tv_subTreeProof :: "TxlineProofNode list"
  tv_mainTreeProof :: "TxlineProofNode list"
  tv_eventStatRoot :: Bytes32Source
  tv_statsToProve :: "TxlineStat list"
  tv_statProofs :: "TxlineProofNode list list"

record ProofNode =
  node_hash :: "int list"
  node_isRightSibling :: bool

record ValidationPayload =
  vp_ts :: int
  vp_fixtureId :: int
  vp_updateCount :: int
  vp_minTimestamp :: int
  vp_maxTimestamp :: int
  vp_eventsSubTreeRoot :: "int list"
  vp_fixtureProof :: "ProofNode list"
  vp_mainTreeProof :: "ProofNode list"
  vp_eventStatRoot :: "int list"
  vp_stats :: "(TxlineStat \<times> ProofNode list) list"

definition proofNodes :: "TxlineProofNode list \<Rightarrow> ProofNode list res" where
  "proofNodes nodes =
     rmap_list (\<lambda>node. rbind (toBytes32 (pn_hash node)) (\<lambda>h.
       Inr \<lparr>node_hash = h, node_isRightSibling = pn_isRightSibling node\<rparr>)) nodes"

definition validationPayload :: "TxlineValidationResponse \<Rightarrow> ValidationPayload res" where
  "validationPayload v =
     (if length (tv_statsToProve v) \<noteq> length (tv_statProofs v)
      then Inl (Error ''TxLINE stat and proof counts do not match'')
      else
        rbind (toBytes32 (tv_eventStatsSubTreeRoot v)) (\<lambda>eventsSubTreeRoot.
        rbind (proofNodes (tv_subTreeProof v)) (\<lambda>fixtureProof.
        rbind (proofNodes (tv_mainTreeProof v)) (\<lambda>mainTreeProof.
        rbind (toBytes32 (tv_eventStatRoot v)) (\<lambda>eventStatRoot.
        rbind (rmap_list (\<lambda>(stat, index). rbind (proofNodes (at_or (tv_statProofs v) index []))
                 (\<lambda>p. Inr (stat, p)))
               (zip (tv_statsToProve v) [0..<length (tv_statsToProve v)])) (\<lambda>stats.
          Inr \<lparr>vp_ts = tv_minTimestamp v, vp_fixtureId = tv_fixtureId v,
               vp_updateCount = tv_updateCount v, vp_minTimestamp = tv_minTimestamp v,
               vp_maxTimestamp = tv_maxTimestamp v, vp_eventsSubTreeRoot = eventsSubTreeRoot,
               vp_fixtureProof = fixtureProof, vp_mainTreeProof = mainTreeProof,
               vp_eventStatRoot = eventStatRoot, vp_stats = stats\<rparr>))))))"

section \<open>Lemmas\<close>

subsection \<open>Final scores\<close>

lemma rfilter_Inr:
  assumes "rfilter p xs = Inr ys"
  shows "ys = filter (\<lambda>x. p x = Inr True) xs" "\<forall>x\<in>set xs. \<exists>b. p x = Inr b"
proof -
  have "ys = filter (\<lambda>x. p x = Inr True) xs \<and> (\<forall>x\<in>set xs. \<exists>b. p x = Inr b)"
    using assms by (induction xs arbitrary: ys) (auto split: if_splits)
  then show "ys = filter (\<lambda>x. p x = Inr True) xs" "\<forall>x\<in>set xs. \<exists>b. p x = Inr b" by auto
qed

lemma consistent_descending: "consistent (\<lambda>left right. f right - f left)"
  by (auto simp: consistent_def)

subsection \<open>Blocks of the stream\<close>

lemma crlf_append: "a = [] \<or> last a \<noteq> CR \<Longrightarrow> crlf_to_lf (a @ b) = crlf_to_lf a @ crlf_to_lf b"
proof (induction a rule: crlf_to_lf.induct)
  case (2 c)
  then show ?case by (cases b) auto
qed (auto split: if_splits)

lemma crlf_id: "CR \<notin> set s \<Longrightarrow> crlf_to_lf s = s"
  by (induction s rule: crlf_to_lf.induct) auto

lemma next_block_append: "next_block s = Some (b, r) \<Longrightarrow> next_block (s @ t) = Some (b, r @ t)"
  by (induction s arbitrary: b rule: next_block.induct) (auto split: if_splits option.splits)

lemma drain_append:
  "drain (s @ t) = (fst (drain s) @ fst (drain (snd (drain s) @ t)), snd (drain (snd (drain s) @ t)))"
proof (induction s rule: drain.induct)
  case (1 s)
  show ?case
  proof (cases "next_block s")
    case None
    then have "drain s = ([], s)" by (simp add: drain.simps [of s])
    then show ?thesis by simp
  next
    case (Some p)
    then obtain b r where p: "next_block s = Some (b, r)" by (cases p) auto
    have "drain s = (blockMessage b @ fst (drain r), snd (drain r))"
      using p by (simp add: drain.simps [of s] split: prod.split)
    moreover have "drain (s @ t) = (blockMessage b @ fst (drain (r @ t)), snd (drain (r @ t)))"
      using next_block_append [OF p] by (simp add: drain.simps [of "s @ t"] split: prod.split)
    ultimately show ?thesis using "1.IH" [OF p refl] by simp
  qed
qed

lemma chunks_drain: "foldl chunkStep (drain u) chunks = drain (u @ concat (map crlf_to_lf chunks))"
proof (induction chunks arbitrary: u)
  case (Cons c chunks)
  have "chunkStep (drain u) c = drain (u @ crlf_to_lf c)"
    by (simp add: chunkStep_def drain_append [of u] split: prod.split)
  with Cons [of "u @ crlf_to_lf c"] show ?case by simp
qed simp

lemma scoreStream_drain: "scoreStream chunks = fst (drain (concat (map crlf_to_lf chunks)))"
proof -
  have "drain [] = ([], [])" by (simp add: drain.simps)
  with chunks_drain [of "[]" chunks] show ?thesis by (simp add: scoreStream_def)
qed

lemma concat_crlf: "\<forall>c\<in>set chunks. c = [] \<or> last c \<noteq> CR
    \<Longrightarrow> concat (map crlf_to_lf chunks) = crlf_to_lf (concat chunks)"
  by (induction chunks) (auto simp: crlf_append)

subsection \<open>Printed values in a body\<close>

definition visible :: "char \<Rightarrow> bool" where
  "visible c \<longleftrightarrow> 33 \<le> char_code c \<and> char_code c \<le> 126"

lemma visible_chars:
  "visible CHR ''n''" "visible CHR ''t''" "visible CHR ''f''" "visible CHR 0x22" "visible CHR 0x5B"
  "visible CHR 0x7B" "visible CHR ''-''" "visible CHR 0x5D" "visible CHR 0x7D" "visible CHR ''l''"
  "visible CHR ''e''" "visible CHR '',''" "visible CHR '':''" "visible CHR ''u''" "visible CHR ''d''"
  "visible CHR ''r''" "visible CHR ''a''" "visible CHR ''s''" "visible CHR 0x5C" "visible CHR ''b''"
  by code_simp+

lemma visible_digit: "is_digit c \<Longrightarrow> visible c"
  by (simp add: is_digit_def visible_def)

lemma visible_not_space: "visible c \<Longrightarrow> \<not> is_space c"
  by (auto simp: visible_def is_space_def)

lemma visible_int_str: "list_all visible (int_str i)"
proof -
  have d: "list_all is_digit (radix_str 10 j)" if "0 \<le> j" for j
    using radix_str_digits [of 10 j] that by (simp add: all_digits_def is_digit_iff list_all_iff)
  show ?thesis
    using d [of i] d [of "- i"] visible_chars(7)
    by (cases "i < 0") (auto simp: toString_radix_def list_all_iff visible_digit)
qed

definition printable :: "char \<Rightarrow> bool" where
  "printable c \<longleftrightarrow> 32 \<le> char_code c"

lemma visible_printable: "visible c \<Longrightarrow> printable c"
  by (simp add: visible_def printable_def)

lemma hex4_visible: "list_all visible (hex4 i)"
proof -
  have "visible (digit_char (j mod 16))" for j
  proof -
    have "0 \<le> j mod 16" "j mod 16 < 16" by simp_all
    then show ?thesis by (auto simp: visible_def digit_char_def)
  qed
  then show ?thesis by (simp add: hex4_def)
qed

lemma escape_printable: "list_all printable (escape_char c)"
proof -
  have "list_all printable (hex4 (char_code c))"
    using hex4_visible [of "char_code c"] by (auto simp: list_all_iff visible_printable)
  then show ?thesis
    using visible_chars visible_printable
    by (auto simp: escape_char_def Let_def printable_def)
qed

lemma quote_printable: "list_all printable (json_quote s)"
  using escape_printable visible_printable visible_chars(4)
  by (fastforce simp: json_quote_def list_all_iff)

lemma stringify_printable:
  "list_all printable (stringify v)" "list_all printable (stringify_items xs)"
  "list_all printable (stringify_entries kvs)"
proof (induction v and xs and kvs rule: stringify_stringify_items_stringify_entries.induct)
  case (3 n)
  show ?case
  proof (cases n)
    case (JInt i)
    then show ?thesis using visible_int_str [of i] by (auto simp: list_all_iff visible_printable)
  qed (use visible_chars visible_printable in simp)
qed (use quote_printable visible_chars visible_printable in auto)

lemma stringify_ends:
  assumes "plain v"
  shows "visible (hd (stringify v)) \<and> visible (last (stringify v))"
proof (cases v)
  case (JNumber n)
  with assms obtain i where "stringify v = int_str i" by (cases n) auto
  then show ?thesis using visible_int_str [of i] int_str_start [of i] by (auto simp: list_all_iff)
qed (use visible_chars in \<open>auto simp: json_quote_def\<close>)

lemma printable_no_lf: "list_all printable s \<Longrightarrow> LF \<notin> set s \<and> CR \<notin> set s"
proof -
  assume a: "list_all printable s"
  have "\<not> printable LF" "\<not> printable CR" by code_simp+
  with a show ?thesis by (auto simp: list_all_iff)
qed

subsection \<open>Joined blocks\<close>

lemma split_pair_single: "LF \<notin> set x \<Longrightarrow> split_pair LF LF x = [x]"
  by (induction "LF :: char" "LF :: char" x rule: split_pair.induct) auto

lemma split_pair_cons: "LF \<notin> set x \<Longrightarrow> split_pair LF LF (x @ LF # LF # s) = x # split_pair LF LF s"
proof (induction x)
  case (Cons c x)
  obtain d y where "x @ LF # LF # s = d # y" by (cases x) auto
  moreover have "c \<noteq> LF" using Cons.prems by auto
  ultimately show ?case using Cons by simp
qed simp

lemma split_pair_join:
  "xs \<noteq> [] \<Longrightarrow> \<forall>x\<in>set xs. LF \<notin> set x \<Longrightarrow> split_pair LF LF (js_join [LF, LF] xs) = xs"
proof (induction xs)
  case (Cons x xs)
  then show ?case by (cases xs) (simp_all add: split_pair_single split_pair_cons)
qed simp

definition data_line :: "json \<Rightarrow> string" where
  "data_line v = ''data: '' @ stringify v"

lemma block_data_line:
  assumes "plain v"
  shows "block_data (data_line v) = stringify v"
proof -
  have "LF \<notin> set ''data: ''" by code_simp
  then have n: "LF \<notin> set (data_line v)"
    using printable_no_lf [OF stringify_printable(1)] by (auto simp: data_line_def)
  have s: "is_space CHR '' ''" by code_simp
  have "trimStart (CHR '' '' # stringify v) = stringify v"
    using s stringify_ends [OF assms] stringify_start [of v] visible_not_space
    by (cases "stringify v") (auto simp: trimStart_def)
  then show ?thesis using split_char_no_sep [OF n]
    by (simp add: block_data_def) (simp add: data_line_def startsWith_def)
qed

lemma blockStep_line:
  assumes "plain v"
  shows "blockStep vs (data_line v) = Inr (pushParsed vs v)"
proof -
  have "stringify v \<noteq> ''[DONE]''"
  proof
    assume "stringify v = ''[DONE]''"
    with json_round_trip [OF assms] have "json_parse ''[DONE]'' = Inr v" by simp
    moreover have "json_parse ''[DONE]'' = Inl Syntax_Error" by code_simp
    ultimately show False by simp
  qed
  with stringify_start [of v] json_round_trip [OF assms] show ?thesis
    by (simp add: blockStep_def block_data_line [OF assms])
qed

fun spread :: "json \<Rightarrow> json list" where
  "spread (JArray xs) = xs"
| "spread v = [v]"

lemma pushParsed_spread: "pushParsed vs v = vs @ spread v"
  by (cases v) (simp_all add: pushParsed_def)

lemma blockSteps: "\<forall>v\<in>set vs. plain v \<Longrightarrow> rfold blockStep ws (map data_line vs) = Inr (ws @ concat (map spread vs))"
  by (induction vs arbitrary: ws) (simp_all add: blockStep_line pushParsed_spread)

lemma last_join: "xs \<noteq> [] \<Longrightarrow> \<forall>x\<in>set xs. x \<noteq> [] \<Longrightarrow> last (js_join d xs) = last (last xs) \<and> js_join d xs \<noteq> []"
  by (induction xs) (auto simp: js_join_cons neq_Nil_conv)

lemma set_join: "set (js_join d xs) \<subseteq> set d \<union> \<Union> (set ` set xs)"
  by (induction d xs rule: js_join.induct) auto

section \<open>Properties\<close>

text \<open>
  Claim C19. The final score the keeper resolves with is a final record of the response and none of
  its final records has a higher sequence number; no score is reported exactly when no record is
  final.
\<close>

theorem final_score_is_latest:
  assumes "latestFinalScore v = Inr r"
  shows "case r of
      None \<Rightarrow> \<forall>x\<in>set (scoreRecords v). isFinalScore x = Inr False
    | Some f \<Rightarrow> f \<in> set (scoreRecords v) \<and> isFinalScore f = Inr True
        \<and> (\<forall>x\<in>set (scoreRecords v). isFinalScore x = Inr True \<longrightarrow> seq_of x \<le> seq_of f)"
proof -
  let ?cmp = "\<lambda>left right. seq_of right - seq_of left"
  obtain finals where f: "rfilter isFinalScore (scoreRecords v) = Inr finals"
    and r: "r = (case js_sort ?cmp finals of [] \<Rightarrow> None | x # _ \<Rightarrow> Some x)"
    using assms by (auto simp: latestFinalScore_def)
  note d = rfilter_Inr [OF f]
  show ?thesis
  proof (cases "js_sort ?cmp finals")
    case Nil
    then have "finals = []" using length_js_sort [of ?cmp finals] by simp
    then have "\<forall>x\<in>set (scoreRecords v). isFinalScore x \<noteq> Inr True" using d(1) by (auto simp: filter_empty_conv)
    then have "\<forall>x\<in>set (scoreRecords v). isFinalScore x = Inr False" using d(2) by (metis (full_types))
    with Nil show ?thesis by (simp add: r)
  next
    case (Cons x xs)
    have "sorted_wrt (\<lambda>a b. ?cmp a b \<le> 0) (x # xs)"
      using sorted_js_sort [OF consistent_descending [of seq_of], of finals] Cons by simp
    moreover have "set (x # xs) = set finals" using set_js_sort [of ?cmp finals] Cons by simp
    ultimately have "x \<in> set finals" "\<forall>y\<in>set finals. seq_of y \<le> seq_of x" by auto
    moreover have "r = Some x" by (simp add: r Cons)
    ultimately show ?thesis using d(1) by auto
  qed
qed

definition score_example :: json where
  "score_example = JArray
     [JObject [(''Action'', JString ''game_finalised''), (''StatusId'', JNumber (JInt 100)),
        (''Period'', JNumber (JInt 100)), (''Seq'', JNumber (JInt 4))],
      JObject [(''action'', JString ''game_finalised''), (''statusId'', JNumber (JInt 100)),
        (''seq'', JNumber (JInt 9))],
      JObject [(''action'', JString ''score_update''), (''seq'', JNumber (JInt 12))]]"

theorem final_score_is_latest_witness:
  "\<exists>f. latestFinalScore score_example = Inr (Some f) \<and> seq_of f = 9 \<and> isFinalScore f = Inr True"
proof -
  let ?f = "JObject [(''action'', JString ''game_finalised''), (''statusId'', JNumber (JInt 100)),
        (''seq'', JNumber (JInt 9))]"
  have e: "latestFinalScore score_example = Inr (Some ?f)" by code_simp
  from final_score_is_latest [OF e] have "isFinalScore ?f = Inr True" by simp
  moreover have "seq_of ?f = 9" by code_simp
  ultimately show ?thesis using e by blast
qed

text \<open>
  Claim C20. A server-sent body that carries printed JSON values one per block parses to those
  values in order, an array being spread into its elements; the terminator, line ends and padding
  of the format are no part of any value.
\<close>

theorem sse_body_round_trip:
  assumes "\<forall>v\<in>set vs. plain v"
  shows "parseTxlineResponse (js_join [LF, LF] (map data_line vs)) = Inr (JArray (concat (map spread vs)))"
proof (cases "vs = []")
  case True
  then show ?thesis by (simp add: parseTxlineResponse_def trim_def)
next
  case False
  let ?b = "js_join [LF, LF] (map data_line vs)"
  have lines: "LF \<notin> set (data_line v) \<and> CR \<notin> set (data_line v)" for v
  proof -
    have "LF \<notin> set ''data: '' \<and> CR \<notin> set ''data: ''" by code_simp
    then show ?thesis using printable_no_lf [OF stringify_printable(1) [of v]] by (auto simp: data_line_def)
  qed
  have ne: "\<forall>x\<in>set (map data_line vs). x \<noteq> []" by (simp add: data_line_def)
  have hd: "hd ?b = CHR ''d''" using False by (cases vs; cases "tl vs") (auto simp: data_line_def)
  have last: "last ?b = last (stringify (last vs))" "?b \<noteq> []"
    using last_join [OF _ ne, of "[LF, LF]"] False stringify_start [of "last vs"]
    by (auto simp: last_map data_line_def)
  have "\<not> is_space (hd ?b)" "\<not> is_space (last ?b)"
    using stringify_ends [of "last vs"] visible_not_space visible_chars(15) assms False
    unfolding hd last(1) by auto
  then have trim: "trim ?b = ?b" by (intro trim_unchanged) auto
  have "CR \<noteq> LF" by simp
  then have "CR \<notin> set ?b" using set_join [of "[LF, LF]" "map data_line vs"] lines by auto
  then have "crlf_to_lf (trim ?b) = ?b" by (simp add: trim crlf_id)
  moreover have "\<not> startsWith ?b ''{''" "\<not> startsWith ?b ''[''"
    using hd last(2) by (cases ?b; simp add: startsWith_def)+
  moreover have "split_pair LF LF ?b = map data_line vs"
    using False lines by (intro split_pair_join) auto
  ultimately show ?thesis
    using last(2) blockSteps [OF assms, of "[]"] by (simp add: parseTxlineResponse_def Let_def)
qed

theorem sse_body_round_trip_witness:
  "parseTxlineResponse (js_join [LF, LF] (map data_line [JNumber (JInt 7), JArray [JNull, JBool True]]))
   = Inr (JArray [JNumber (JInt 7), JNull, JBool True])"
  using sse_body_round_trip [of "[JNumber (JInt 7), JArray [JNull, JBool True]]"] by simp

text \<open>
  Claim C21. The messages of the score stream do not depend on how the network cut the text into
  chunks, as long as no chunk ends inside a carriage-return line-feed pair.
\<close>

theorem stream_ignores_chunking:
  assumes "\<forall>c\<in>set chunks. c = [] \<or> last c \<noteq> CR"
  shows "scoreStream chunks = scoreStream [concat chunks]"
  using concat_crlf [OF assms] by (simp add: scoreStream_drain)

theorem stream_ignores_chunking_witness:
  "scoreStream [''data: 1'', [LF], [LF] @ ''data: 2'', [LF, LF]]
   = scoreStream [concat [''data: 1'', [LF], [LF] @ ''data: 2'', [LF, LF]]]"
  by (rule stream_ignores_chunking) simp

text \<open>When a chunk does end there, a message is lost.\<close>

lemma stream_split_inside_crlf:
  "scoreStream [''data: 1'' @ [CR, LF, CR], [LF] @ ''data: 2'' @ [CR, LF, CR, LF]]
   \<noteq> scoreStream [concat [''data: 1'' @ [CR, LF, CR], [LF] @ ''data: 2'' @ [CR, LF, CR, LF]]]"
  by code_simp

end
