(* ===== verification/Lifecycle.thy ===== *)
theory Lifecycle
  imports Json
begin

text \<open>
  The planners of the keeper: \<open>services/src/lifecycle.ts\<close> for private markets,
  \<open>services/src/hybrid-lifecycle.ts\<close> for hybrid markets, and the readers of
  \<open>services/src/solana.ts\<close> that turn the program's enumerations into their names.

  The second half is the Solana program's side of a hybrid market (\<open>programs/nortia/src/lib.rs\<close>): the
  instructions the keeper calls with their guards, and a step relation for everything that may
  happen to a market between them.  The planner is proved against it in every reachable state.
\<close>

section \<open>Names\<close>

datatype MarketPhaseName = Market_open | Market_batched | Market_resolved | Market_refunding | Market_closed

datatype HybridPhase =
    Phase_open | Phase_locked | Phase_resolving | Phase_disputed | Phase_resolved | Phase_closed

datatype HybridResolver =
    Txline_stat | Pyth_price | Switchboard_quote | Optimistic | Uma_wormhole | Chainlink_report
  | Stork_price

text \<open>
  An enumeration of the program arrives as an object with one key.  \<open>Object.keys(o)[0]\<close>.
\<close>

definition first_key :: "(string \<times> json) list \<Rightarrow> string option" where
  "first_key obj = (case obj of [] \<Rightarrow> None | (k, v) # _ \<Rightarrow> Some k)"

definition phaseName :: "(string \<times> json) list \<Rightarrow> MarketPhaseName res" where
  "phaseName phase =
     (case first_key phase of
        None \<Rightarrow> Inl (Error ''Unknown Nortia market phase'')
      | Some name \<Rightarrow>
          if name = ''open'' then Inr Market_open
          else if name = ''batched'' then Inr Market_batched
          else if name = ''resolved'' then Inr Market_resolved
          else if name = ''refunding'' then Inr Market_refunding
          else if name = ''closed'' then Inr Market_closed
          else Inl (Error ''Unknown Nortia market phase''))"

definition hybridPhaseName :: "(string \<times> json) list \<Rightarrow> HybridPhase res" where
  "hybridPhaseName phase =
     (case first_key phase of
        None \<Rightarrow> Inl (Error ''Unknown Nortia hybrid phase'')
      | Some name \<Rightarrow>
          if name = ''open'' then Inr Phase_open
          else if name = ''locked'' then Inr Phase_locked
          else if name = ''resolving'' then Inr Phase_resolving
          else if name = ''disputed'' then Inr Phase_disputed
          else if name = ''resolved'' then Inr Phase_resolved
          else if name = ''closed'' then Inr Phase_closed
          else Inl (Error ''Unknown Nortia hybrid phase''))"

definition resolver_names :: "(string \<times> HybridResolver) list" where
  "resolver_names =
     [(''txlineStat'', Txline_stat), (''pythPrice'', Pyth_price), (''switchboardQuote'', Switchboard_quote),
      (''optimistic'', Optimistic), (''umaWormhole'', Uma_wormhole), (''chainlinkReport'', Chainlink_report),
      (''storkPrice'', Stork_price)]"

definition oracleResolverName :: "(string \<times> json) list \<Rightarrow> HybridResolver res" where
  "oracleResolverName resolver =
     (case Option.bind (first_key resolver) (map_of resolver_names) of
        None \<Rightarrow> Inl (Error ''Unknown Nortia oracle resolver'')
      | Some mapped \<Rightarrow> Inr mapped)"

section \<open>Private markets\<close>

record IndexedMarket =
  im_phase :: MarketPhaseName
  im_lockTs :: int
  im_batchDeadlineTs :: int
  im_resolutionDeadlineTs :: int

datatype KeeperAction = Keep_none | Submit_batch | Keep_resolve | Begin_refund

definition planKeeperAction :: "IndexedMarket \<Rightarrow> int \<Rightarrow> KeeperAction" where
  "planKeeperAction market now =
     (if im_phase market = Market_open then
        (if now > im_batchDeadlineTs market then Begin_refund
         else if now \<ge> im_lockTs market then Submit_batch else Keep_none)
      else if im_phase market = Market_batched then
        (if now > im_resolutionDeadlineTs market then Begin_refund else Keep_resolve)
      else Keep_none)"

section \<open>Hybrid markets\<close>

record OptimisticProposalState =
  ps_challengeDeadline :: int
  ps_challenged :: bool
  ps_finalized :: bool

record HybridKeeperInput =
  hk_phase :: HybridPhase
  hk_resolver :: HybridResolver
  hk_lockTs :: jsnum
  hk_resolveNotBeforeTs :: jsnum
  hk_resolutionDeadlineTs :: jsnum
  hk_proposal :: "OptimisticProposalState option"

datatype HybridKeeperAction =
    Act_none | Act_lock | Act_resolve_pyth | Act_resolve_txline | Act_resolve_switchboard
  | Act_resolve_stork | Act_finalize_optimistic | Act_timeout_optimistic_dispute | Act_resolve_timeout

fun checkTimestamps :: "(string \<times> jsnum) list \<Rightarrow> unit res" where
  "checkTimestamps [] = Inr ()"
| "checkTimestamps ((label, v) # r) =
     (if \<not> is_safe_integer v \<or> num_int v < 0
      then Inl (Error (label @ '' must be a non-negative safe integer''))
      else checkTimestamps r)"

definition validateTimestamps :: "HybridKeeperInput \<Rightarrow> jsnum \<Rightarrow> unit res" where
  "validateTimestamps market now =
     rbind (checkTimestamps [(''lock timestamp'', hk_lockTs market),
       (''resolve timestamp'', hk_resolveNotBeforeTs market),
       (''resolution deadline'', hk_resolutionDeadlineTs market), (''current timestamp'', now)])
       (\<lambda>_. if num_int (hk_lockTs market) > num_int (hk_resolveNotBeforeTs market)
             \<or> num_int (hk_resolveNotBeforeTs market) \<ge> num_int (hk_resolutionDeadlineTs market)
            then Inl (Error ''hybrid market timestamps are not ordered'') else Inr ())"

definition planHybridKeeperAction :: "HybridKeeperInput \<Rightarrow> jsnum \<Rightarrow> HybridKeeperAction res" where
  "planHybridKeeperAction market nowTs =
     rbind (validateTimestamps market nowTs) (\<lambda>_.
       let now = num_int nowTs; phase = hk_phase market; resolver = hk_resolver market in
       if phase = Phase_resolved \<or> phase = Phase_closed then Inr Act_none
       else if now > num_int (hk_resolutionDeadlineTs market) then
         (case hk_proposal market of
            Some p \<Rightarrow>
              if resolver = Optimistic \<and> \<not> ps_finalized p
              then Inr (if ps_challenged p then Act_timeout_optimistic_dispute else Act_finalize_optimistic)
              else Inr Act_resolve_timeout
          | None \<Rightarrow> Inr Act_resolve_timeout)
       else if now < num_int (hk_lockTs market) then Inr Act_none
       else if now < num_int (hk_resolveNotBeforeTs market)
       then Inr (if phase = Phase_open then Act_lock else Act_none)
       else
         let machineReady = (phase = Phase_open \<or> phase = Phase_locked) in
         if resolver = Pyth_price then Inr (if machineReady then Act_resolve_pyth else Act_none)
         else if resolver = Txline_stat then Inr (if machineReady then Act_resolve_txline else Act_none)
         else if resolver = Switchboard_quote
         then Inr (if machineReady then Act_resolve_switchboard else Act_none)
         else if resolver = Stork_price then Inr (if machineReady then Act_resolve_stork else Act_none)
         else case hk_proposal market of
             None \<Rightarrow> Inr Act_none
           | Some p \<Rightarrow>
               if resolver \<noteq> Optimistic \<or> ps_finalized p then Inr Act_none
               else if phase = Phase_resolving \<and> \<not> ps_challenged p \<and> now > ps_challengeDeadline p
               then Inr Act_finalize_optimistic else Inr Act_none)"

section \<open>The market on chain\<close>

text \<open>
  The Solana program's side of a hybrid market, from \<open>programs/nortia/src/lib.rs\<close>: the fields of the
  market, its vault, its oracle configuration and its proposal that the instructions guard on, and
  the instructions the keeper calls, \<open>None\<close> when the program refuses the call.  Events, the receipt
  and the evidence hash are written and never read again, and are left out.

  The validators of the four machine sources are other modules of the program.  They are the
  parameter \<open>evidence\<close> of \<open>chain_exec\<close>: the outcome the validator of the action's source reads off
  the accounts and the payload sent, \<open>None\<close> when it refuses them.
\<close>

definition OUTCOME_NO :: int where "OUTCOME_NO = 0"
definition OUTCOME_YES :: int where "OUTCOME_YES = 1"
definition OUTCOME_INVALID :: int where "OUTCOME_INVALID = 2"
definition OUTCOME_UNSET :: int where "OUTCOME_UNSET = 3"

record HybridChain =
  hc_phase :: HybridPhase
  hc_resolver :: HybridResolver
  hc_lock :: int
  hc_resolve :: int
  hc_deadline :: int
  hc_proposal :: "OptimisticProposalState option"
  hc_proposedOutcome :: int
  hc_bond :: int
  hc_yes :: int
  hc_no :: int
  hc_vault :: int
  hc_consumed :: bool
  hc_outcome :: int
  hc_liability :: int
  hc_clock :: int

definition hybrid_market_liability :: "int \<Rightarrow> int \<Rightarrow> int \<Rightarrow> int option" where
  "hybrid_market_liability yes no outcome =
     (if outcome = OUTCOME_YES then Some yes
      else if outcome = OUTCOME_NO then Some no
      else if outcome = OUTCOME_INVALID then (if yes + no < 2 ^ 64 then Some ((yes + no) div 2) else None)
      else None)"

definition finalize_hybrid_resolution :: "HybridChain \<Rightarrow> int \<Rightarrow> bool \<Rightarrow> HybridChain option" where
  "finalize_hybrid_resolution s outcome timeout =
     (let now = hc_clock s in
      if hc_phase s \<notin> {Phase_open, Phase_locked, Phase_resolving, Phase_disputed} then None
      else if now < hc_lock s then None
      else if now < hc_resolve s then None
      else if timeout \<and> (now \<le> hc_deadline s \<or> outcome \<noteq> OUTCOME_INVALID) then None
      else if \<not> timeout \<and> (now > hc_deadline s \<or> outcome \<notin> {OUTCOME_YES, OUTCOME_NO}) then None
      else if hc_consumed s then None
      else case hybrid_market_liability (hc_yes s) (hc_no s) outcome of
        None \<Rightarrow> None
      | Some liability \<Rightarrow>
          if hc_vault s < liability then None
          else Some (s\<lparr>hc_consumed := True, hc_phase := Phase_resolved, hc_outcome := outcome,
            hc_liability := liability\<rparr>))"

definition lock_hybrid_market :: "HybridChain \<Rightarrow> HybridChain option" where
  "lock_hybrid_market s =
     (if hc_phase s \<noteq> Phase_open \<or> hc_clock s < hc_lock s then None else Some (s\<lparr>hc_phase := Phase_locked\<rparr>))"

definition optimistic_finalize_outcome :: "HybridChain \<Rightarrow> OptimisticProposalState \<Rightarrow> (int \<times> bool) option" where
  "optimistic_finalize_outcome s p =
     (if hc_phase s \<noteq> Phase_resolving \<or> ps_finalized p \<or> ps_challenged p then None
      else if hc_clock s > hc_deadline s then Some (OUTCOME_INVALID, True)
      else if hc_clock s \<le> ps_challengeDeadline p then None
      else Some (hc_proposedOutcome s, False))"

text \<open>The bonds deposited must be paid out in full: one, or both when there is a challenger.\<close>

definition record_optimistic_payouts :: "HybridChain \<Rightarrow> OptimisticProposalState \<Rightarrow> int \<Rightarrow> HybridChain option" where
  "record_optimistic_payouts s p payouts =
     (if ps_finalized p then None
      else if payouts \<ge> 2 ^ 64 \<or> payouts \<noteq> (if ps_challenged p then 2 * hc_bond s else hc_bond s) then None
      else Some (s\<lparr>hc_proposal := Some (p\<lparr>ps_finalized := True\<rparr>)\<rparr>))"

definition finalize_optimistic_resolution :: "HybridChain \<Rightarrow> HybridChain option" where
  "finalize_optimistic_resolution s =
     Option.bind (hc_proposal s) (\<lambda>p.
     Option.bind (optimistic_finalize_outcome s p) (\<lambda>(outcome, timed_out).
     Option.bind (finalize_hybrid_resolution s outcome timed_out) (\<lambda>s'.
       record_optimistic_payouts s' p (hc_bond s))))"

definition timeout_optimistic_dispute :: "HybridChain \<Rightarrow> HybridChain option" where
  "timeout_optimistic_dispute s =
     Option.bind (hc_proposal s) (\<lambda>p.
       if hc_phase s \<noteq> Phase_disputed \<or> ps_finalized p \<or> \<not> ps_challenged p \<or> hc_clock s \<le> hc_deadline s then None
       else Option.bind (finalize_hybrid_resolution s OUTCOME_INVALID True) (\<lambda>s'.
         record_optimistic_payouts s' p (hc_bond s + hc_bond s)))"

definition resolve_hybrid_timeout :: "HybridChain \<Rightarrow> HybridChain option" where
  "resolve_hybrid_timeout s =
     (if hc_proposal s \<noteq> None then None else finalize_hybrid_resolution s OUTCOME_INVALID True)"

fun machine_resolver :: "HybridKeeperAction \<Rightarrow> HybridResolver option" where
  "machine_resolver Act_resolve_pyth = Some Pyth_price"
| "machine_resolver Act_resolve_txline = Some Txline_stat"
| "machine_resolver Act_resolve_switchboard = Some Switchboard_quote"
| "machine_resolver Act_resolve_stork = Some Stork_price"
| "machine_resolver _ = None"

definition chain_exec ::
    "(HybridKeeperAction \<Rightarrow> int option) \<Rightarrow> HybridChain \<Rightarrow> HybridKeeperAction \<Rightarrow> HybridChain option" where
  "chain_exec evidence s a =
     (case a of
        Act_none \<Rightarrow> Some s
      | Act_lock \<Rightarrow> lock_hybrid_market s
      | Act_finalize_optimistic \<Rightarrow> finalize_optimistic_resolution s
      | Act_timeout_optimistic_dispute \<Rightarrow> timeout_optimistic_dispute s
      | Act_resolve_timeout \<Rightarrow> resolve_hybrid_timeout s
      | _ \<Rightarrow>
          if machine_resolver a = Some (hc_resolver s)
          then Option.bind (evidence a) (\<lambda>outcome. finalize_hybrid_resolution s outcome False)
          else None)"

text \<open>
  A market as \<open>initialize_hybrid_market\<close> leaves it, and everything that may happen to it.  The steps of
  the users keep the guards below and drop others of the program (signers, evidence texts, quotes
  and windows), which only adds states.  A trade keeps \<open>projected_vault >= max(yes, no)\<close>; a challenge
  puts a second bond into a vault whose balance has 64 bits.
\<close>

definition created :: "HybridChain \<Rightarrow> bool" where
  "created s \<longleftrightarrow> hc_phase s = Phase_open \<and> hc_proposal s = None
     \<and> hc_clock s < hc_lock s \<and> hc_lock s \<le> hc_resolve s \<and> hc_resolve s < hc_deadline s
     \<and> 0 \<le> hc_clock s \<and> hc_clock s \<le> MAX_SAFE_INTEGER
     \<and> hc_yes s = 0 \<and> hc_no s = 0 \<and> 0 \<le> hc_vault s \<and> 0 \<le> hc_bond s \<and> hc_bond s < 2 ^ 64
     \<and> \<not> hc_consumed s \<and> hc_outcome s = OUTCOME_UNSET"

inductive chain_step :: "HybridChain \<Rightarrow> HybridChain \<Rightarrow> bool" where
  tick: "hc_clock s \<le> t \<Longrightarrow> t \<le> MAX_SAFE_INTEGER \<Longrightarrow> chain_step s (s\<lparr>hc_clock := t\<rparr>)"
| keeper: "chain_exec evidence s a = Some s' \<Longrightarrow> chain_step s s'"
| trade: "hc_phase s = Phase_open \<Longrightarrow> hc_clock s < hc_lock s \<Longrightarrow> 0 \<le> yes \<Longrightarrow> 0 \<le> no \<Longrightarrow> max yes no \<le> vault
    \<Longrightarrow> chain_step s (s\<lparr>hc_yes := yes, hc_no := no, hc_vault := vault\<rparr>)"
| gift: "hc_vault s \<le> vault \<Longrightarrow> chain_step s (s\<lparr>hc_vault := vault\<rparr>)"
| propose: "hc_resolver s = Optimistic \<Longrightarrow> hc_phase s \<in> {Phase_open, Phase_locked}
    \<Longrightarrow> hc_proposal s = None \<Longrightarrow> hc_resolve s \<le> hc_clock s \<Longrightarrow> hc_clock s \<le> d \<Longrightarrow> d < hc_deadline s
    \<Longrightarrow> outcome \<in> {OUTCOME_YES, OUTCOME_NO}
    \<Longrightarrow> chain_step s (s\<lparr>hc_phase := Phase_resolving, hc_proposedOutcome := outcome,
          hc_proposal := Some \<lparr>ps_challengeDeadline = d, ps_challenged = False, ps_finalized = False\<rparr>\<rparr>)"
| challenge: "hc_phase s = Phase_resolving \<Longrightarrow> hc_proposal s = Some p \<Longrightarrow> \<not> ps_finalized p
    \<Longrightarrow> \<not> ps_challenged p \<Longrightarrow> hc_clock s \<le> ps_challengeDeadline p \<Longrightarrow> 2 * hc_bond s < 2 ^ 64
    \<Longrightarrow> chain_step s (s\<lparr>hc_phase := Phase_disputed, hc_proposal := Some (p\<lparr>ps_challenged := True\<rparr>)\<rparr>)"
| arbitrate: "hc_phase s = Phase_disputed \<Longrightarrow> hc_proposal s = Some p \<Longrightarrow> \<not> ps_finalized p
    \<Longrightarrow> ps_challenged p \<Longrightarrow> hc_clock s \<le> hc_deadline s \<Longrightarrow> finalize_hybrid_resolution s outcome False = Some s'
    \<Longrightarrow> chain_step s (s'\<lparr>hc_proposal := Some (p\<lparr>ps_finalized := True\<rparr>)\<rparr>)"
| settle: "hc_phase s = Phase_resolved \<Longrightarrow> phase \<in> {Phase_resolved, Phase_closed}
    \<Longrightarrow> chain_step s (s\<lparr>hc_vault := vault, hc_liability := liability, hc_phase := phase\<rparr>)"

inductive_cases chain_stepE: "chain_step s s'"

inductive reachable :: "HybridChain \<Rightarrow> bool" where
  initial: "created s \<Longrightarrow> reachable s"
| step: "reachable s \<Longrightarrow> chain_step s s' \<Longrightarrow> reachable s'"

text \<open>What the keeper reads of the chain.\<close>

definition keeper_view :: "HybridChain \<Rightarrow> HybridKeeperInput" where
  "keeper_view s = \<lparr>hk_phase = hc_phase s, hk_resolver = hc_resolver s, hk_lockTs = JInt (hc_lock s),
     hk_resolveNotBeforeTs = JInt (hc_resolve s), hk_resolutionDeadlineTs = JInt (hc_deadline s),
     hk_proposal = hc_proposal s\<rparr>"

section \<open>Invariant\<close>

definition times_ok :: "HybridChain \<Rightarrow> bool" where
  "times_ok s \<longleftrightarrow> 0 \<le> hc_lock s \<and> hc_lock s \<le> hc_resolve s \<and> hc_resolve s < hc_deadline s
     \<and> 0 \<le> hc_clock s \<and> hc_clock s \<le> MAX_SAFE_INTEGER"

definition proposal_ok :: "HybridChain \<Rightarrow> bool" where
  "proposal_ok s \<longleftrightarrow>
     (case hc_phase s of
        Phase_open \<Rightarrow> hc_proposal s = None
      | Phase_locked \<Rightarrow> hc_proposal s = None
      | Phase_resolving \<Rightarrow> hc_resolver s = Optimistic \<and> hc_resolve s \<le> hc_clock s
          \<and> hc_proposedOutcome s \<in> {OUTCOME_YES, OUTCOME_NO}
          \<and> (\<exists>p. hc_proposal s = Some p \<and> \<not> ps_challenged p \<and> \<not> ps_finalized p)
      | Phase_disputed \<Rightarrow> hc_resolver s = Optimistic \<and> hc_resolve s \<le> hc_clock s \<and> 2 * hc_bond s < 2 ^ 64
          \<and> (\<exists>p. hc_proposal s = Some p \<and> ps_challenged p \<and> \<not> ps_finalized p)
      | _ \<Rightarrow> (\<forall>p. hc_proposal s = Some p \<longrightarrow> ps_finalized p))"

text \<open>While it is not resolved, a market can pay whichever side wins, and its oracle is unused.\<close>

definition vault_ok :: "HybridChain \<Rightarrow> bool" where
  "vault_ok s \<longleftrightarrow> hc_bond s < 2 ^ 64 \<and>
     (hc_phase s \<notin> {Phase_resolved, Phase_closed} \<longrightarrow>
        0 \<le> hc_yes s \<and> 0 \<le> hc_no s \<and> max (hc_yes s) (hc_no s) \<le> hc_vault s \<and> \<not> hc_consumed s)"

definition chain_ok :: "HybridChain \<Rightarrow> bool" where
  "chain_ok s \<longleftrightarrow> times_ok s \<and> proposal_ok s \<and> vault_ok s"

lemmas chain_defs = chain_ok_def times_ok_def proposal_ok_def vault_ok_def

lemma finalize_Some:
  "finalize_hybrid_resolution s outcome timeout = Some s' \<Longrightarrow> \<exists>l. s' = s\<lparr>hc_consumed := True,
     hc_phase := Phase_resolved, hc_outcome := outcome, hc_liability := l\<rparr>"
  by (auto simp: finalize_hybrid_resolution_def Let_def split: if_splits option.splits)

lemma record_payouts_Some:
  "record_optimistic_payouts s p payouts = Some s' \<Longrightarrow> s' = s\<lparr>hc_proposal := Some (p\<lparr>ps_finalized := True\<rparr>)\<rparr>"
  by (auto simp: record_optimistic_payouts_def split: if_splits)

definition resolved_to :: "HybridChain \<Rightarrow> HybridChain \<Rightarrow> bool" where
  "resolved_to s s' \<longleftrightarrow> (\<exists>outcome l prop. s' = s\<lparr>hc_consumed := True, hc_phase := Phase_resolved,
     hc_outcome := outcome, hc_liability := l, hc_proposal := prop\<rparr> \<and> (\<forall>p. prop = Some p \<longrightarrow> ps_finalized p))"

lemma finalize_resolved_to:
  assumes "finalize_hybrid_resolution s outcome timeout = Some s1"
    and "s' = s1\<lparr>hc_proposal := prop\<rparr>" "\<forall>p. prop = Some p \<longrightarrow> ps_finalized p"
  shows "resolved_to s s'"
proof -
  from finalize_Some [OF assms(1)] obtain l where "s1 = s\<lparr>hc_consumed := True, hc_phase := Phase_resolved,
     hc_outcome := outcome, hc_liability := l\<rparr>" by blast
  with assms(2,3) show ?thesis unfolding resolved_to_def by (intro exI conjI) simp_all
qed

lemma finalize_phase:
  "finalize_hybrid_resolution s outcome timeout = Some s' \<Longrightarrow>
     hc_phase s \<in> {Phase_open, Phase_locked, Phase_resolving, Phase_disputed}"
  by (auto simp: finalize_hybrid_resolution_def Let_def split: if_splits)

lemma finalize_machine:
  assumes "finalize_hybrid_resolution s outcome timeout = Some s'" "proposal_ok s"
    and "hc_proposal s = None \<or> hc_resolver s \<noteq> Optimistic"
  shows "resolved_to s s'"
proof (rule finalize_resolved_to [OF assms(1)])
  show "\<forall>p. None = Some p \<longrightarrow> ps_finalized p" by simp
  from finalize_Some [OF assms(1)] finalize_phase [OF assms(1)] assms(2,3)
  show "s' = s'\<lparr>hc_proposal := None\<rparr>" by (auto simp: proposal_ok_def)
qed

text \<open>What a call of the keeper can do to a market: nothing, lock it, or resolve it.\<close>

lemma chain_exec_cases:
  assumes "chain_exec evidence s a = Some s'" "proposal_ok s"
  shows "s' = s \<or> hc_phase s = Phase_open \<and> s' = s\<lparr>hc_phase := Phase_locked\<rparr> \<or> resolved_to s s'"
proof (cases a)
  case Act_none
  with assms show ?thesis by (simp add: chain_exec_def)
next
  case Act_lock
  with assms show ?thesis by (simp add: chain_exec_def lock_hybrid_market_def split: if_splits)
next
  case Act_resolve_timeout
  with assms show ?thesis
    using finalize_machine by (auto simp: chain_exec_def resolve_hybrid_timeout_def split: if_splits)
next
  case Act_finalize_optimistic
  with assms(1) show ?thesis
    by (auto simp: chain_exec_def finalize_optimistic_resolution_def bind_eq_Some_conv
      intro!: finalize_resolved_to dest!: record_payouts_Some)
next
  case Act_timeout_optimistic_dispute
  with assms(1) show ?thesis
    by (auto simp: chain_exec_def timeout_optimistic_dispute_def bind_eq_Some_conv split: if_splits
      intro!: finalize_resolved_to dest!: record_payouts_Some)
qed (use assms finalize_machine in \<open>auto simp: chain_exec_def bind_eq_Some_conv split: if_splits\<close>)

lemma chain_exec_invariant:
  assumes "chain_exec evidence s a = Some s'" "chain_ok s"
  shows "chain_ok s'"
proof -
  have "proposal_ok s" using assms(2) by (simp add: chain_ok_def)
  from chain_exec_cases [OF assms(1) this] assms(2) show ?thesis
    by (elim disjE) (auto simp: chain_defs resolved_to_def)
qed

lemma chain_step_invariant:
  assumes "chain_step s s'" "chain_ok s"
  shows "chain_ok s'"
  using assms(1)
proof (cases rule: chain_step.cases)
  case (tick t)
  with assms(2) show ?thesis by (auto simp: chain_defs split: HybridPhase.splits)
next
  case (keeper evidence a)
  with chain_exec_invariant assms(2) show ?thesis by blast
next
  case (arbitrate p outcome s1)
  from finalize_Some [OF this(7)] obtain l where "s1 = s\<lparr>hc_consumed := True, hc_phase := Phase_resolved,
    hc_outcome := outcome, hc_liability := l\<rparr>" by blast
  with arbitrate assms(2) show ?thesis by (simp add: chain_defs)
next
  case (gift vault)
  with assms(2) show ?thesis by (auto simp: chain_defs split: HybridPhase.splits)
qed (use assms(2) in \<open>auto simp: chain_defs\<close>)

lemma reachable_invariant: "reachable s \<Longrightarrow> chain_ok s"
proof (induction rule: reachable.induct)
  case (initial s)
  then show ?case by (auto simp: created_def chain_defs)
qed (use chain_step_invariant in blast)

lemma keeper_view_sel [simp]:
  "hk_phase (keeper_view s) = hc_phase s" "hk_resolver (keeper_view s) = hc_resolver s"
  "hk_lockTs (keeper_view s) = JInt (hc_lock s)"
  "hk_resolveNotBeforeTs (keeper_view s) = JInt (hc_resolve s)"
  "hk_resolutionDeadlineTs (keeper_view s) = JInt (hc_deadline s)"
  "hk_proposal (keeper_view s) = hc_proposal s"
  by (simp_all add: keeper_view_def)

definition safe_times :: "HybridChain \<Rightarrow> bool" where
  "safe_times s \<longleftrightarrow> times_ok s \<and> hc_deadline s \<le> MAX_SAFE_INTEGER"

lemma keeper_view_valid: "safe_times s \<Longrightarrow> validateTimestamps (keeper_view s) (JInt (hc_clock s)) = Inr ()"
  by (auto simp: validateTimestamps_def keeper_view_def safe_times_def times_ok_def safe_int_def MAX_SAFE_INTEGER_def)

text \<open>A market with a later deadline, which the program accepts, is one the planner refuses.\<close>

lemma keeper_view_unsafe:
  assumes "times_ok s" "MAX_SAFE_INTEGER < hc_deadline s"
  shows "\<exists>label \<in> {''lock timestamp'', ''resolve timestamp'', ''resolution deadline''}.
    planHybridKeeperAction (keeper_view s) (JInt (hc_clock s))
      = Inl (Error (label @ '' must be a non-negative safe integer''))"
  using assms
  by (auto simp: planHybridKeeperAction_def validateTimestamps_def keeper_view_def times_ok_def safe_int_def
    MAX_SAFE_INTEGER_def)

lemma plan_of_view:
  assumes "safe_times s"
  shows "planHybridKeeperAction (keeper_view s) (JInt (hc_clock s)) =
      (let now = hc_clock s; phase = hc_phase s; resolver = hc_resolver s in
       if phase = Phase_resolved \<or> phase = Phase_closed then Inr Act_none
       else if now > hc_deadline s then
         (case hc_proposal s of
            Some p \<Rightarrow>
              if resolver = Optimistic \<and> \<not> ps_finalized p
              then Inr (if ps_challenged p then Act_timeout_optimistic_dispute else Act_finalize_optimistic)
              else Inr Act_resolve_timeout
          | None \<Rightarrow> Inr Act_resolve_timeout)
       else if now < hc_lock s then Inr Act_none
       else if now < hc_resolve s then Inr (if phase = Phase_open then Act_lock else Act_none)
       else
         let machineReady = (phase = Phase_open \<or> phase = Phase_locked) in
         if resolver = Pyth_price then Inr (if machineReady then Act_resolve_pyth else Act_none)
         else if resolver = Txline_stat then Inr (if machineReady then Act_resolve_txline else Act_none)
         else if resolver = Switchboard_quote
         then Inr (if machineReady then Act_resolve_switchboard else Act_none)
         else if resolver = Stork_price then Inr (if machineReady then Act_resolve_stork else Act_none)
         else case hc_proposal s of
             None \<Rightarrow> Inr Act_none
           | Some p \<Rightarrow>
               if resolver \<noteq> Optimistic \<or> ps_finalized p then Inr Act_none
               else if phase = Phase_resolving \<and> \<not> ps_challenged p \<and> now > ps_challengeDeadline p
               then Inr Act_finalize_optimistic else Inr Act_none)"
  unfolding planHybridKeeperAction_def keeper_view_valid [OF assms] rbind_Inr keeper_view_sel num_int.simps ..

lemma plan_total: "safe_times s \<Longrightarrow> \<exists>a. planHybridKeeperAction (keeper_view s) (JInt (hc_clock s)) = Inr a"
  by (simp add: plan_of_view Let_def split: option.split)

text \<open>Resolving an unresolved market whose vault covers the outstanding shares.\<close>

lemma finalize_accepted:
  assumes "vault_ok s" "hc_phase s \<notin> {Phase_resolved, Phase_closed}" "hc_lock s \<le> hc_clock s" "hc_resolve s \<le> hc_clock s"
    and "if timeout then hc_deadline s < hc_clock s \<and> outcome = OUTCOME_INVALID
      else hc_clock s \<le> hc_deadline s \<and> outcome \<in> {OUTCOME_YES, OUTCOME_NO}"
    and "hc_yes s + hc_no s < 2 ^ 64"
  shows "\<exists>l. finalize_hybrid_resolution s outcome timeout
    = Some (s\<lparr>hc_consumed := True, hc_phase := Phase_resolved, hc_outcome := outcome, hc_liability := l\<rparr>)"
proof -
  have "outcome = OUTCOME_YES \<or> outcome = OUTCOME_NO \<or> outcome = OUTCOME_INVALID"
    using assms(5) by (auto split: if_splits)
  moreover have "hc_yes s \<le> hc_vault s" "hc_no s \<le> hc_vault s" using assms(1,2) by (auto simp: vault_ok_def)
  moreover from this have "(hc_yes s + hc_no s) div 2 \<le> hc_vault s" by linarith
  ultimately obtain l where "hybrid_market_liability (hc_yes s) (hc_no s) outcome = Some l" "l \<le> hc_vault s"
    using assms(6) by (elim disjE) (auto simp: hybrid_market_liability_def OUTCOME_YES_def OUTCOME_NO_def OUTCOME_INVALID_def)
  moreover have "hc_phase s \<in> {Phase_open, Phase_locked, Phase_resolving, Phase_disputed}"
    using assms(2) by (cases "hc_phase s") simp_all
  moreover have "\<not> hc_consumed s" using assms(1,2) by (simp add: vault_ok_def)
  moreover have "\<not> (timeout \<and> (hc_clock s \<le> hc_deadline s \<or> outcome \<noteq> OUTCOME_INVALID))"
    "\<not> (\<not> timeout \<and> (hc_clock s > hc_deadline s \<or> outcome \<notin> {OUTCOME_YES, OUTCOME_NO}))"
    using assms(5) by (simp_all split: if_splits)
  moreover have "\<not> hc_clock s < hc_lock s" "\<not> hc_clock s < hc_resolve s" "\<not> hc_vault s < l"
    using assms(3,4) \<open>l \<le> hc_vault s\<close> by simp_all
  ultimately show ?thesis
    unfolding finalize_hybrid_resolution_def Let_def by (simp only: not_not if_False if_True not_True_eq_False option.case) blast
qed

lemma late_call_resolves:
  assumes "chain_ok s" "hc_deadline s < hc_clock s" "hc_phase s \<notin> {Phase_resolved, Phase_closed}"
    and "hc_yes s + hc_no s < 2 ^ 64"
    and "planHybridKeeperAction (keeper_view s) (JInt (hc_clock s)) = Inr a"
  shows "\<exists>s'. chain_exec evidence s a = Some s' \<and> hc_phase s' = Phase_resolved"
proof -
  have t: "times_ok s" "proposal_ok s" "vault_ok s" using assms(1) by (simp_all add: chain_ok_def)
  then have st: "safe_times s" using assms(2) by (auto simp: safe_times_def times_ok_def)
  obtain l where f: "finalize_hybrid_resolution s OUTCOME_INVALID True = Some (s\<lparr>hc_consumed := True,
      hc_phase := Phase_resolved, hc_outcome := OUTCOME_INVALID, hc_liability := l\<rparr>)"
    using finalize_accepted [OF t(3) assms(3) _ _ _ assms(4), of True OUTCOME_INVALID] t(1) assms(2)
    by (auto simp: times_ok_def)
  have b: "hc_bond s < 2 ^ 64" using t(3) by (simp add: vault_ok_def)
  show ?thesis
  proof (cases "hc_proposal s")
    case None
    then have "a = Act_resolve_timeout"
      using assms(2,3,5) t(2) unfolding plan_of_view [OF st] by (auto simp: Let_def split: if_splits)
    with None f show ?thesis by (simp add: chain_exec_def resolve_hybrid_timeout_def)
  next
    case (Some p)
    show ?thesis
    proof (cases "hc_phase s = Phase_resolving")
      case True
      with Some t(2) have p: "hc_resolver s = Optimistic" "\<not> ps_challenged p" "\<not> ps_finalized p"
        by (auto simp: proposal_ok_def)
      then have "a = Act_finalize_optimistic"
        using assms(2,5) Some True unfolding plan_of_view [OF st] by (simp add: Let_def)
      with Some True p f b assms(2) show ?thesis
        by (simp add: chain_exec_def finalize_optimistic_resolution_def optimistic_finalize_outcome_def
          record_optimistic_payouts_def)
    next
      case False
      with Some t(2) assms(3) have d: "hc_phase s = Phase_disputed" and p: "hc_resolver s = Optimistic"
        "ps_challenged p" "\<not> ps_finalized p" and b2: "2 * hc_bond s < 2 ^ 64"
        by (auto simp: proposal_ok_def split: HybridPhase.splits)
      then have "a = Act_timeout_optimistic_dispute"
        using assms(2,5) Some unfolding plan_of_view [OF st] by (simp add: Let_def)
      with Some d p f b2 assms(2) show ?thesis
        by (simp add: chain_exec_def timeout_optimistic_dispute_def record_optimistic_payouts_def)
    qed
  qed
qed

lemma timely_plan_accepted:
  assumes "chain_ok s" "safe_times s" "hc_clock s \<le> hc_deadline s" "hc_phase s \<notin> {Phase_resolved, Phase_closed}"
    and "hc_yes s + hc_no s < 2 ^ 64"
    and "\<forall>a. machine_resolver a \<noteq> None \<longrightarrow> evidence a \<in> {Some OUTCOME_YES, Some OUTCOME_NO}"
    and "planHybridKeeperAction (keeper_view s) (JInt (hc_clock s)) = Inr a"
  shows "chain_exec evidence s a \<noteq> None"
proof -
  have t: "times_ok s" "proposal_ok s" "vault_ok s" using assms(1) by (simp_all add: chain_ok_def)
  have f: "finalize_hybrid_resolution s outcome False \<noteq> None"
    if "hc_resolve s \<le> hc_clock s" "outcome \<in> {OUTCOME_YES, OUTCOME_NO}" for outcome
    using finalize_accepted [OF t(3) assms(4) _ _ _ assms(5), of False outcome] that t(1) assms(3)
    by (auto simp: times_ok_def)
  have machine: "chain_exec evidence s a \<noteq> None"
    if r: "hc_resolve s \<le> hc_clock s" and m: "machine_resolver a = Some (hc_resolver s)"
  proof -
    obtain outcome where e: "evidence a = Some outcome" "outcome \<in> {OUTCOME_YES, OUTCOME_NO}"
      using assms(6) m by auto
    with f [OF r e(2)] m show ?thesis by (cases a) (simp_all add: chain_exec_def)
  qed
  show ?thesis
  proof (cases "hc_clock s < hc_resolve s")
    case True
    then have "a = Act_none \<or> a = Act_lock \<and> hc_phase s = Phase_open \<and> hc_lock s \<le> hc_clock s"
      using assms(3,4,7) unfolding plan_of_view [OF assms(2)] by (auto simp: Let_def split: if_splits)
    then show ?thesis by (auto simp: chain_exec_def lock_hybrid_market_def)
  next
    case False
    then have r: "hc_resolve s \<le> hc_clock s" "\<not> hc_clock s < hc_lock s" using t(1) by (auto simp: times_ok_def)
    from assms(3,4,7) False r(2)
    consider "a = Act_none" | "machine_resolver a = Some (hc_resolver s)"
      | p where "a = Act_finalize_optimistic" "hc_phase s = Phase_resolving" "hc_proposal s = Some p"
        "hc_clock s > ps_challengeDeadline p"
      unfolding plan_of_view [OF assms(2)] by (auto simp: Let_def split: if_splits option.splits)
    then show ?thesis
    proof cases
      case 1
      then show ?thesis by (simp add: chain_exec_def)
    next
      case 2
      with machine [OF r(1)] show ?thesis by simp
    next
      case 3
      with t(2) have p: "\<not> ps_challenged p" "\<not> ps_finalized p" "hc_proposedOutcome s \<in> {OUTCOME_YES, OUTCOME_NO}"
        by (auto simp: proposal_ok_def)
      then obtain s1 where s1: "finalize_hybrid_resolution s (hc_proposedOutcome s) False = Some s1"
        using f [OF r(1)] by blast
      from finalize_Some [OF s1] have "hc_bond s1 = hc_bond s" by auto
      with 3 p s1 assms(3) t(3) show ?thesis
        by (simp add: chain_exec_def finalize_optimistic_resolution_def optimistic_finalize_outcome_def
          record_optimistic_payouts_def vault_ok_def)
    qed
  qed
qed

section \<open>Properties\<close>


definition optimistic_example :: HybridChain where
  "optimistic_example = \<lparr>hc_phase = Phase_open, hc_resolver = Optimistic, hc_lock = 100, hc_resolve = 200,
     hc_deadline = 1000, hc_proposal = None, hc_proposedOutcome = OUTCOME_UNSET, hc_bond = 50, hc_yes = 0, hc_no = 0,
     hc_vault = 40, hc_consumed = False, hc_outcome = OUTCOME_UNSET, hc_liability = 0, hc_clock = 50\<rparr>"

text \<open>The market is traded, proposed YES, challenged, and left until after its deadline.\<close>

definition disputed_example :: HybridChain where
  "disputed_example = optimistic_example\<lparr>hc_yes := 30, hc_no := 10, hc_vault := 45, hc_phase := Phase_disputed,
     hc_proposedOutcome := OUTCOME_YES, hc_proposal := Some \<lparr>ps_challengeDeadline = 400, ps_challenged = True,
     ps_finalized = False\<rparr>, hc_clock := 1001\<rparr>"

lemma reachable_example: "reachable disputed_example"
proof -
  let ?e = optimistic_example
  let ?t = "?e\<lparr>hc_yes := 30, hc_no := 10, hc_vault := 45\<rparr>"
  let ?p = "\<lparr>ps_challengeDeadline = 400, ps_challenged = False, ps_finalized = False\<rparr>"
  let ?l = "?t\<lparr>hc_clock := 250\<rparr>"
  let ?d = "?l\<lparr>hc_phase := Phase_resolving, hc_proposedOutcome := OUTCOME_YES, hc_proposal := Some ?p\<rparr>"
  let ?c = "?d\<lparr>hc_phase := Phase_disputed, hc_proposal := Some (?p\<lparr>ps_challenged := True\<rparr>)\<rparr>"
  note d = optimistic_example_def MAX_SAFE_INTEGER_def
  have "reachable ?e" by (rule reachable.initial) (simp add: created_def d)
  moreover have "chain_step ?e ?t" by (rule chain_step.trade) (simp_all add: d)
  moreover have "chain_step ?t ?l" by (rule chain_step.tick) (simp_all add: d)
  moreover have "chain_step ?l ?d" by (rule chain_step.propose) (simp_all add: d)
  moreover have "chain_step ?d ?c" by (rule chain_step.challenge) (simp_all add: d)
  moreover have "chain_step ?c (?c\<lparr>hc_clock := 1001\<rparr>)" by (rule chain_step.tick) (simp_all add: d)
  moreover have "?c\<lparr>hc_clock := 1001\<rparr> = disputed_example"
    by (simp add: disputed_example_def optimistic_example_def)
  ultimately show ?thesis by (metis reachable.step)
qed


text \<open>
  Claim C13. No hybrid market is stuck: once the resolution deadline has passed, one keeper pass
  resolves every reachable market that is not resolved yet, whatever its resolver, whatever evidence
  there is and however its optimistic proposal stands (as long as the outstanding shares of both
  sides fit 64 bits together).
\<close>

theorem late_market_is_resolved:
  assumes "reachable s" "hc_deadline s < hc_clock s" "hc_phase s \<notin> {Phase_resolved, Phase_closed}"
    and "hc_yes s + hc_no s < 2 ^ 64"
  shows "\<exists>a s'. planHybridKeeperAction (keeper_view s) (JInt (hc_clock s)) = Inr a
    \<and> chain_exec evidence s a = Some s' \<and> hc_phase s' = Phase_resolved"
proof -
  have ok: "chain_ok s" using reachable_invariant [OF assms(1)] .
  then have "safe_times s" using assms(2) by (auto simp: chain_ok_def safe_times_def times_ok_def)
  then obtain a where "planHybridKeeperAction (keeper_view s) (JInt (hc_clock s)) = Inr a"
    using plan_total by blast
  with late_call_resolves [OF ok assms(2-4)] show ?thesis by blast
qed

theorem late_market_is_resolved_witness:
  "\<exists>a s'. planHybridKeeperAction (keeper_view disputed_example) (JInt 1001) = Inr a
    \<and> chain_exec (\<lambda>_. None) disputed_example a = Some s' \<and> hc_phase s' = Phase_resolved"
  using late_market_is_resolved [OF reachable_example, of "\<lambda>_. None"]
  by (simp add: disputed_example_def optimistic_example_def)

end
