(* ===== verification/JsUrl.thy ===== *)
theory JsUrl
  imports Json JsArray
begin

text \<open>
  The string functions of the platform around URLs and conversion: \<open>encodeURIComponent\<close>,
  \<open>decodeURIComponent\<close>, the removal of trailing slashes, \<open>String(value)\<close> and the default order of
  \<open>sort()\<close> on strings.
\<close>

definition is_alnum :: "char \<Rightarrow> bool" where
  "is_alnum c \<longleftrightarrow> (let i = char_code c in (48 \<le> i \<and> i \<le> 57) \<or> (65 \<le> i \<and> i \<le> 90) \<or> (97 \<le> i \<and> i \<le> 122))"

definition upper_hex_digit :: "int \<Rightarrow> char" where
  "upper_hex_digit d = code_char (if d < 10 then 48 + d else 55 + d)"

definition unreserved :: "char \<Rightarrow> bool" where
  "unreserved c \<longleftrightarrow> is_alnum c \<or> c \<in> set ''-_.!~*()'' \<or> char_code c = 39"

definition percent_byte :: "byte \<Rightarrow> string" where
  "percent_byte b = [CHR ''%'', upper_hex_digit (uint b div 16), upper_hex_digit (uint b mod 16)]"

definition encodeURIComponent :: "string \<Rightarrow> string" where
  "encodeURIComponent s =
     concat (map (\<lambda>c. if unreserved c then [c] else concat (map percent_byte (utf8_char c))) s)"

text \<open>
  \<open>decodeURIComponent\<close> on text below code 256: a malformed escape, or one that does not decode to
  such a character, is a \<open>URIError\<close>.
\<close>

fun decodeURIComponent :: "string \<Rightarrow> string res" where
  "decodeURIComponent [] = Inr []"
| "decodeURIComponent (c # r) =
     (if c \<noteq> CHR ''%'' then rbind (decodeURIComponent r) (\<lambda>s. Inr (c # s))
      else case r of
        h # l # r' \<Rightarrow>
          if is_radix_digit 16 h \<and> is_radix_digit 16 l
          then let v = 16 * digit_val h + digit_val l in
               if v < 128 then rbind (decodeURIComponent r') (\<lambda>s. Inr (code_char v # s))
               else if v = 194 \<or> v = 195 then
                 (case r' of
                    p # h' # l' # r'' \<Rightarrow>
                      if p = CHR ''%'' \<and> is_radix_digit 16 h' \<and> is_radix_digit 16 l'
                         \<and> (16 * digit_val h' + digit_val l') div 64 = 2
                      then rbind (decodeURIComponent r'') (\<lambda>s.
                        Inr (code_char ((v - 192) * 64 + (16 * digit_val h' + digit_val l') mod 64) # s))
                      else Inl (Error ''URI malformed'')
                  | _ \<Rightarrow> Inl (Error ''URI malformed''))
               else Inl (Error ''URI malformed'')
          else Inl (Error ''URI malformed'')
      | _ \<Rightarrow> Inl (Error ''URI malformed''))"

text \<open>\<open>s.replace(/\/+$/, '')\<close>.\<close>

definition strip_slashes :: "string \<Rightarrow> string" where
  "strip_slashes s = rev (dropWhile (\<lambda>c. c = CHR ''/'') (rev s))"

text \<open>
  \<open>String(value)\<close>.  The text of a number that is no integer, or is printed with an exponent, is
  only known not to be the text of an integer; a single letter stands for it.
\<close>

fun js_String :: "json \<Rightarrow> string" where
  "js_String JNull = ''null''"
| "js_String (JBool b) = (if b then ''true'' else ''false'')"
| "js_String (JNumber n) = (case n of JInt i \<Rightarrow> if \<bar>i\<bar> < 10 ^ 21 then int_str i else ''e'' | JNonInt \<Rightarrow> ''e'')"
| "js_String (JString s) = s"
| "js_String (JArray xs) = js_join '','' (map (\<lambda>x. if x = JNull then [] else js_String x) xs)"
| "js_String (JObject kvs) = ''[object Object]''"

text \<open>\<open>String(value ?? '')\<close> on a property that may be absent.\<close>

definition string_or_empty :: "json option \<Rightarrow> string" where
  "string_or_empty v = (case v of None \<Rightarrow> [] | Some JNull \<Rightarrow> [] | Some x \<Rightarrow> js_String x)"

text \<open>The order of \<open>sort()\<close>: by code units.\<close>

fun string_compare :: "string \<Rightarrow> string \<Rightarrow> int" where
  "string_compare [] [] = 0"
| "string_compare [] (d # t) = -1"
| "string_compare (c # s) [] = 1"
| "string_compare (c # s) (d # t) = (if c = d then string_compare s t else char_code c - char_code d)"

lemma string_compare_refl [simp]: "string_compare s s = 0"
  by (induction s) simp_all

lemma string_compare_0: "string_compare s t = 0 \<longleftrightarrow> s = t"
  by (induction s t rule: string_compare.induct) (auto simp: char_code_inject [symmetric] simp del: char_code_inject)

lemma string_compare_total: "string_compare s t \<le> 0 \<or> string_compare t s \<le> 0"
  by (induction s t rule: string_compare.induct) auto

lemma string_compare_trans: "string_compare s t \<le> 0 \<Longrightarrow> string_compare t u \<le> 0 \<Longrightarrow> string_compare s u \<le> 0"
proof (induction s t arbitrary: u rule: string_compare.induct)
  case (2 d t)
  then show ?case by (cases u) auto
next
  case (4 c s d t)
  then obtain e v where u: "u = e # v" by (cases u) auto
  with 4 show ?case
    by (auto split: if_splits simp: char_code_inject [symmetric] simp del: char_code_inject)
qed auto

lemma consistent_string_compare: "consistent string_compare"
  unfolding consistent_def using string_compare_total string_compare_trans by blast

end
