(* ===== verification/Feeds.thy ===== *)
theory Feeds
  imports Txline Lifecycle JsUrl
begin

text \<open>
  The price providers of the keeper: the Pyth client with its request pacing
  (\<open>services/src/pyth/client.ts\<close>), the feed catalogue (\<open>pyth/catalog.ts\<close>), the Stork REST client
  (\<open>stork/client.ts\<close>), and the three settlements that turn a market's oracle configuration into a
  resolution transaction (\<open>pyth/settlement.ts\<close>, \<open>stork/settlement.ts\<close>,
  \<open>switchboard/managed.ts\<close>).

  The Hermes, Stork and Switchboard services, the SDKs that derive their accounts and post their
  updates, the RPC node and the clock are the fields of \<open>keeper_env\<close>.
\<close>

section \<open>The Pyth client\<close>

record ParsedPrice =
  pp_id :: string
  pp_price :: string
  pp_conf :: string
  pp_expo :: int
  pp_publish_time :: int
  pp_slot :: "int option"
  pp_prev_publish_time :: "int option"

record PriceUpdate =
  pu_encoding :: string
  pu_data :: "json list"
  pu_parsed :: "ParsedPrice list option"

record VerifiedHermesUpdate =
  vu_data :: "string list"
  vu_feedId :: string
  vu_price :: int
  vu_confidence :: int
  vu_exponent :: int
  vu_previousPublishTime :: "int option"
  vu_publishTime :: int
  vu_slot :: "int option"

definition positiveSafeInteger :: "jsnum \<Rightarrow> string \<Rightarrow> unit res" where
  "positiveSafeInteger v label =
     (if \<not> is_safe_integer v \<or> num_int v \<le> 0
      then Inl (Error (label @ '' must be a positive safe integer'')) else Inr ())"

definition nonempty_text :: "json \<Rightarrow> bool" where
  "nonempty_text d \<longleftrightarrow> (case d of JString s \<Rightarrow> s \<noteq> [] | _ \<Rightarrow> False)"

definition text_of :: "json \<Rightarrow> string" where
  "text_of d = (case d of JString s \<Rightarrow> s | _ \<Rightarrow> [])"

definition verifiedUpdate :: "PriceUpdate \<Rightarrow> string \<Rightarrow> VerifiedHermesUpdate res" where
  "verifiedUpdate response feedId =
     (if pu_encoding response \<noteq> ''base64'' \<or> pu_data response = []
      then Inl (Error ''Hermes response is missing base64 binary update data'')
      else if list_ex (\<lambda>d. \<not> nonempty_text d) (pu_data response)
      then Inl (Error ''Hermes response contains an empty binary update'')
      else case pu_parsed response of
        Some [parsed] \<Rightarrow>
          rbind (normalizeFeedId (pp_id parsed)) (\<lambda>i.
            if i \<noteq> feedId then Inl (Error ''Hermes response does not match the requested Pyth feed'')
            else rbind (js_BigInt (pp_price parsed)) (\<lambda>price.
                 rbind (js_BigInt (pp_conf parsed)) (\<lambda>confidence.
                   Inr \<lparr>vu_data = map text_of (pu_data response), vu_feedId = feedId, vu_price = price,
                        vu_confidence = confidence, vu_exponent = pp_expo parsed,
                        vu_previousPublishTime = pp_prev_publish_time parsed,
                        vu_publishTime = pp_publish_time parsed, vu_slot = pp_slot parsed\<rparr>)))
      | _ \<Rightarrow> Inl (Error ''Hermes response must contain exactly one parsed price feed''))"

record 'x PythClient =
  pc_updatesAtTimestamp :: "int \<Rightarrow> string list \<Rightarrow> ('x, PriceUpdate) outside"
  pc_latestUpdates :: "string list \<Rightarrow> ('x, PriceUpdate) outside"
  pc_minimumRequestIntervalMs :: int
  pc_now :: "('x, int) outside"
  pc_wait :: "int \<Rightarrow> ('x, unit) outside"

text \<open>The slot of a request and the time before which no later request may go.\<close>

definition paceSlot :: "int \<Rightarrow> int \<Rightarrow> int \<Rightarrow> int \<times> int" where
  "paceSlot interval next now = (let scheduledAt = max now next in (scheduledAt, scheduledAt + interval))"

definition paceRequest :: "'x PythClient \<Rightarrow> ('x world, unit) io" where
  "paceRequest c =
     (if pc_minimumRequestIntervalMs c = 0 then io_return ()
      else io_bind (outside (pc_now c)) (\<lambda>now w.
        case paceSlot (pc_minimumRequestIntervalMs c) (w_nextRequestAt w) now of (scheduledAt, next) \<Rightarrow>
          (if scheduledAt > now then outside (pc_wait c (scheduledAt - now)) else io_return ())
            (w\<lparr>w_nextRequestAt := next\<rparr>)))"

definition settlementUpdate ::
    "'x PythClient \<Rightarrow> string \<Rightarrow> jsnum \<Rightarrow> jsnum \<Rightarrow> ('x world, VerifiedHermesUpdate) io" where
  "settlementUpdate c requestedFeedId targetTimestamp maxStalenessSeconds =
     io_bind (io_lift (normalizeFeedId requestedFeedId)) (\<lambda>feedId.
     io_bind (io_lift (positiveSafeInteger targetTimestamp ''target timestamp'')) (\<lambda>_.
     io_bind (io_lift (positiveSafeInteger maxStalenessSeconds ''maximum staleness'')) (\<lambda>_.
     io_bind (paceRequest c) (\<lambda>_.
     io_bind (outside (pc_updatesAtTimestamp c (num_int targetTimestamp) [''0x'' @ feedId])) (\<lambda>response.
     io_bind (io_lift (verifiedUpdate response feedId)) (\<lambda>update.
       let target = num_int targetTimestamp in
       if vu_previousPublishTime update = None \<or> the (vu_previousPublishTime update) \<ge> target
          \<or> vu_publishTime update < target
       then io_throw (Error ''Pyth update does not uniquely bracket the target timestamp'')
       else if vu_publishTime update - target > num_int maxStalenessSeconds
       then io_throw (Error ''Pyth update publish lag exceeds the market staleness limit'')
       else io_return update))))))"

definition latestUpdate :: "'x PythClient \<Rightarrow> string \<Rightarrow> ('x world, VerifiedHermesUpdate) io" where
  "latestUpdate c requestedFeedId =
     io_bind (io_lift (normalizeFeedId requestedFeedId)) (\<lambda>feedId.
     io_bind (paceRequest c) (\<lambda>_.
     io_bind (outside (pc_latestUpdates c [''0x'' @ feedId])) (\<lambda>response.
       io_lift (verifiedUpdate response feedId))))"

text \<open>The headers of the client that \<open>createPythClient\<close> makes.\<close>

definition pythHeaders :: "string option \<Rightarrow> (string \<times> string) list option" where
  "pythHeaders apiKey =
     (case apiKey of None \<Rightarrow> None
      | Some k \<Rightarrow> if k = [] then None else Some [(''Authorization'', ''Bearer '' @ k)])"

definition fetchPythCatalog ::
    "(string \<Rightarrow> string \<Rightarrow> int) \<Rightarrow> (string option \<Rightarrow> ('x, json list) outside) \<Rightarrow> string option
     \<Rightarrow> PythCategory option \<Rightarrow> int option \<Rightarrow> ('x, PythFeed list) outside" where
  "fetchPythCatalog localeCompare getPriceFeeds query category limit =
     io_bind (getPriceFeeds (case query of Some q \<Rightarrow> if q = [] then None else Some q | None \<Rightarrow> None)) (\<lambda>vs.
       io_return (searchPythFeeds localeCompare vs query category limit))"

section \<open>The Stork client\<close>

record StorkAsset =
  sa_assetId :: string
  sa_feedId :: string
  sa_price :: int
  sa_timestampNs :: int

record StorkClient =
  sc_origin :: string
  sc_token :: string

definition object :: "json option \<Rightarrow> string \<Rightarrow> json res" where
  "object v label =
     (case v of Some (JObject kvs) \<Rightarrow> Inr (JObject kvs) | _ \<Rightarrow> Inl (Error (label @ '' is not an object'')))"

definition newStorkClient :: "string \<Rightarrow> string \<Rightarrow> StorkClient res" where
  "newStorkClient origin token =
     (let o' = strip_slashes origin; t = trim token
      in if \<not> startsWith o' ''https://'' \<or> t = []
         then Inl (Error ''Stork requires an HTTPS origin and API token'')
         else Inr \<lparr>sc_origin = o', sc_token = t\<rparr>)"

definition stork_get :: "'x fetch \<Rightarrow> StorkClient \<Rightarrow> string \<Rightarrow> ('x, json) outside" where
  "stork_get fetch c path =
     io_bind (fetch (sc_origin c @ path) [(''Authorization'', ''Basic '' @ sc_token c), (''Accept'', ''application/json'')])
       (\<lambda>(status, body).
         if \<not> response_ok status then io_throw (Error (''Stork request failed with status '' @ int_str status))
         else io_lift (json_parse body))"

definition assetIdSyntax :: "string \<Rightarrow> bool" where
  "assetIdSyntax s \<longleftrightarrow> 2 \<le> length s \<and> length s \<le> 80
     \<and> list_all (\<lambda>c. (65 \<le> char_code c \<and> char_code c \<le> 90) \<or> is_digit c \<or> c \<in> set ''_.-'') s"

definition stork_assets :: "'x fetch \<Rightarrow> StorkClient \<Rightarrow> ('x, string list) outside" where
  "stork_assets fetch c =
     io_bind (stork_get fetch c ''/v1/prices/assets'') (\<lambda>body.
     io_bind (io_lift (object (Some body) ''Stork response'')) (\<lambda>response.
       case array_of (field response ''data'') of
         None \<Rightarrow> io_throw (Error ''Stork asset response is missing data'')
       | Some xs \<Rightarrow> io_return (js_sort string_compare
           (filter assetIdSyntax (List.map_filter (\<lambda>x. string_of (Some x)) xs)))))"

definition storkAsset :: "string \<Rightarrow> json \<Rightarrow> StorkAsset res" where
  "storkAsset assetId body =
     rbind (object (Some body) ''Stork response'') (\<lambda>response.
     rbind (object (field response ''data'') ''Stork data'') (\<lambda>dat.
     rbind (object (field dat ''value'') ''Stork values'') (\<lambda>vals.
     rbind (object (field vals assetId) ''Stork asset value'') (\<lambda>v.
     rbind (object (field v ''stork_signed_price'') ''Stork signed price'') (\<lambda>signed.
       if field v ''asset_id'' \<noteq> Some (JString assetId)
       then Inl (Error ''Stork returned a different asset ID'')
       else rbind (normalizeFeedId (string_or_empty (field signed ''encoded_asset_id''))) (\<lambda>feedId.
            rbind (js_BigInt (string_or_empty (field v ''price''))) (\<lambda>price.
            rbind (js_BigInt (string_or_empty (field v ''timestamp''))) (\<lambda>timestampNs.
              if price \<le> 0 \<or> timestampNs \<le> 0
              then Inl (Error ''Stork returned a non-positive price or timestamp'')
              else Inr \<lparr>sa_assetId = assetId, sa_feedId = feedId, sa_price = price,
                        sa_timestampNs = timestampNs\<rparr>))))))))"

definition stork_asset :: "'x fetch \<Rightarrow> StorkClient \<Rightarrow> string \<Rightarrow> ('x, StorkAsset) outside" where
  "stork_asset fetch c assetId =
     (if \<not> assetIdSyntax assetId then io_throw (Error ''Stork asset ID is invalid'')
      else io_bind (stork_get fetch c (''/v1/prices/latest?assets='' @ encodeURIComponent assetId)) (\<lambda>body.
        io_lift (storkAsset assetId body)))"

section \<open>What the keeper is given\<close>

record OracleAccount =
  oa_resolver :: "(string \<times> json) list"
  oa_sourceId :: "int list"
  oa_sourceProgram :: pubkey
  oa_sourceQueue :: pubkey
  oa_observationTs :: int
  oa_maxStalenessSecs :: int
  oa_minSamples :: int
  oa_optimisticProposal :: pubkey

record SwitchboardFeed =
  sf_cid :: string
  sf_has_data :: bool
  sf_size :: jsnum
  sf_version :: string

text \<open>
  \<open>ke_key\<close> decodes a base-58 address, \<open>ke_toNumber\<close> is \<open>BN.toNumber\<close>, \<open>ke_send_all\<close> and
  \<open>ke_send_v0\<close> build, sign and send with the given compute-unit price.
\<close>

record 'x keeper_env =
  ke_derive :: derivation
  ke_key :: "string \<Rightarrow> pubkey"
  ke_toBase58 :: "pubkey \<Rightarrow> string"
  ke_toNumber :: "int \<Rightarrow> int res"
  ke_nortia :: pubkey
  ke_system :: pubkey
  ke_token :: pubkey
  ke_keeper :: pubkey
  ke_rpc :: "tx \<Rightarrow> ('x, string) outside"
  ke_pyth :: "'x PythClient"
  ke_priceFeedAccount :: "int \<Rightarrow> string \<Rightarrow> pubkey \<Rightarrow> pubkey"
  ke_postPriceUpdates :: "string list \<Rightarrow> ('x, string \<Rightarrow> pubkey res) outside"
  ke_send_all :: "int \<Rightarrow> tx \<Rightarrow> ('x, string list) outside"
  ke_fetchOracleFeed :: "string \<Rightarrow> ('x, SwitchboardFeed) outside"
  ke_defaultQueue :: "('x, pubkey) outside"
  ke_canonicalQuote :: "pubkey \<Rightarrow> byte list \<Rightarrow> pubkey \<Rightarrow> pubkey"
  ke_managedUpdates :: "pubkey \<Rightarrow> string list \<Rightarrow> pubkey \<Rightarrow> int \<Rightarrow> ('x, byte list list) outside"
  ke_send_v0 :: "int \<Rightarrow> tx \<Rightarrow> ('x, string) outside"
  ke_confirm :: "string \<Rightarrow> ('x, bool) outside"

text \<open>The accounts every resolution names.\<close>

definition resolution_accounts :: "'x keeper_env \<Rightarrow> pubkey \<Rightarrow> (string \<times> pubkey) list" where
  "resolution_accounts E market =
     [(''keeper'', ke_keeper E), (''market'', market),
      (''oracleConfig'', oracleConfigPda (ke_derive E) market (ke_nortia E)),
      (''receipt'', resolutionReceiptPda (ke_derive E) market (ke_nortia E)),
      (''vault'', hybridVaultPda (ke_derive E) market (ke_nortia E)),
      (''systemProgram'', ke_system E)]"

section \<open>Settlements\<close>

definition pythPushFeedAccount :: "'x keeper_env \<Rightarrow> string \<Rightarrow> pubkey res" where
  "pythPushFeedAccount E feedId =
     rbind (normalizeFeedId feedId) (\<lambda>f.
       Inr (ke_priceFeedAccount E 0 f (ke_key E PYTH_PUSH_ORACLE_PROGRAM_ADDRESS)))"

definition pyth_tx :: "'x keeper_env \<Rightarrow> pubkey \<Rightarrow> pubkey \<Rightarrow> tx" where
  "pyth_tx E market priceUpdate =
     call_tx ''resolveHybridWithPyth'' [] (resolution_accounts E market @ [(''priceUpdate'', priceUpdate)])"

definition resolvePythHybridMarket ::
    "'x keeper_env \<Rightarrow> pubkey \<Rightarrow> OracleAccount \<Rightarrow> int \<Rightarrow> ('x world, string list) io" where
  "resolvePythHybridMarket E market oracle computeUnitPrice =
     io_bind (io_lift (normalizeFeedId (bytes_hex (buffer_from (oa_sourceId oracle))))) (\<lambda>feedId.
       if oa_sourceProgram oracle = ke_key E PYTH_PUSH_ORACLE_PROGRAM_ADDRESS then
         io_bind (io_lift (pythPushFeedAccount E feedId)) (\<lambda>priceUpdate.
         io_bind (send_tx (ke_rpc E) (pyth_tx E market priceUpdate)) (\<lambda>signature.
           io_return [signature]))
       else if oa_sourceProgram oracle \<noteq> ke_key E PYTH_RECEIVER_PROGRAM_ADDRESS
       then io_throw (Error ''Pyth market uses an unsupported source program'')
       else
         io_bind (io_lift (ke_toNumber E (oa_observationTs oracle))) (\<lambda>target.
         io_bind (settlementUpdate (ke_pyth E) feedId (JInt target) (JInt (oa_maxStalenessSecs oracle))) (\<lambda>update.
         io_bind (outside (ke_postPriceUpdates E (vu_data update))) (\<lambda>getPriceUpdateAccount.
         io_bind (io_lift (getPriceUpdateAccount (''0x'' @ feedId))) (\<lambda>priceUpdate.
           send_tx (ke_send_all E computeUnitPrice) (pyth_tx E market priceUpdate))))))"

definition storkFeedAccount :: "'x keeper_env \<Rightarrow> int list \<Rightarrow> pubkey res" where
  "storkFeedAccount E feedId =
     (let sourceId = buffer_from feedId
      in if length sourceId \<noteq> 32 then Inl (Error ''Stork feed ID must contain exactly 32 bytes'')
         else Inr (ke_derive E [utf8 ''stork_feed'', sourceId] (ke_key E STORK_ORACLE_PROGRAM_ADDRESS)))"

definition resolveStorkHybridMarket ::
    "'x keeper_env \<Rightarrow> pubkey \<Rightarrow> OracleAccount \<Rightarrow> ('x world, string) io" where
  "resolveStorkHybridMarket E market oracle =
     (if oa_sourceProgram oracle \<noteq> ke_key E STORK_ORACLE_PROGRAM_ADDRESS
      then io_throw (Error ''Stork market uses an unsupported oracle program'')
      else io_bind (io_lift (storkFeedAccount E (oa_sourceId oracle))) (\<lambda>feedAccount.
        send_tx (ke_rpc E) (call_tx ''resolveHybridWithStork'' []
          (resolution_accounts E market @ [(''feedAccount'', feedAccount)]))))"

definition normalizeSwitchboardFeedHash :: "string \<Rightarrow> string res" where
  "normalizeSwitchboardFeedHash v =
     (let normalized = strip_0x (toLowerCase (trim v))
      in if \<not> is_hex_string 64 normalized
         then Inl (Error ''Switchboard feed hash must be an exact 32-byte hexadecimal value'')
         else Inr normalized)"

definition switchboardQuoteAccount :: "'x keeper_env \<Rightarrow> pubkey \<Rightarrow> string \<Rightarrow> pubkey res" where
  "switchboardQuoteAccount E queue feedHash =
     rbind (normalizeSwitchboardFeedHash feedHash) (\<lambda>normalized.
       let sourceId = hex_bytes normalized;
           program = ke_key E SWITCHBOARD_QUOTE_PROGRAM_ADDRESS;
           local = ke_derive E [queue, sourceId] program
       in if local \<noteq> ke_canonicalQuote E queue sourceId program
          then Inl (Error ''Switchboard canonical quote derivation mismatch'') else Inr local)"

definition validateStoredSwitchboardFeed ::
    "(string \<Rightarrow> ('x, SwitchboardFeed) outside) \<Rightarrow> string \<Rightarrow> ('x, string \<times> string \<times> int \<times> string) outside" where
  "validateStoredSwitchboardFeed fetchOracleFeed feedHash =
     io_bind (io_lift (normalizeSwitchboardFeedHash feedHash)) (\<lambda>normalized.
     io_bind (fetchOracleFeed normalized) (\<lambda>feed.
       if sf_cid feed = [] \<or> \<not> sf_has_data feed \<or> \<not> is_safe_integer (sf_size feed)
          \<or> num_int (sf_size feed) \<le> 0 \<or> sf_version feed = []
       then io_throw (Error ''Switchboard stored feed definition is incomplete'')
       else io_return (normalized, sf_cid feed, num_int (sf_size feed), sf_version feed)))"

definition resolveSwitchboardHybridMarket ::
    "'x keeper_env \<Rightarrow> pubkey \<Rightarrow> OracleAccount \<Rightarrow> int \<Rightarrow> ('x world, string) io" where
  "resolveSwitchboardHybridMarket E market oracle computeUnitPrice =
     (if oa_sourceProgram oracle \<noteq> ke_key E SWITCHBOARD_QUOTE_PROGRAM_ADDRESS
      then io_throw (Error ''Switchboard market uses an unsupported quote program'')
      else if oa_minSamples oracle < 2 \<or> oa_minSamples oracle > 8
      then io_throw (Error ''Switchboard market requires two through eight oracle samples'')
      else
        io_bind (io_lift (normalizeSwitchboardFeedHash (bytes_hex (buffer_from (oa_sourceId oracle))))) (\<lambda>feedHash.
        io_bind (outside (validateStoredSwitchboardFeed (ke_fetchOracleFeed E) feedHash)) (\<lambda>_.
        io_bind (outside (ke_defaultQueue E)) (\<lambda>queue.
          if queue \<noteq> oa_sourceQueue oracle
          then io_throw (Error ''Switchboard default devnet queue does not match the market'')
          else
            io_bind (io_lift (switchboardQuoteAccount E queue feedHash)) (\<lambda>quoteAccount.
            io_bind (outside (ke_managedUpdates E queue [feedHash] (ke_keeper E) (oa_minSamples oracle))) (\<lambda>updates.
              if updates = []
              then io_throw (Error ''Switchboard did not return managed update instructions'')
              else
                io_bind (send_tx (ke_send_v0 E computeUnitPrice)
                  ((call_tx ''resolveHybridWithSwitchboard'' []
                     (resolution_accounts E market @ [(''quoteAccount'', quoteAccount)]))
                   \<lparr>tx_pre := map Provider_instruction updates\<rparr>)) (\<lambda>signature.
                io_bind (outside (ke_confirm E signature)) (\<lambda>err.
                  if err then io_throw (Error ''Switchboard resolution transaction failed'')
                  else io_return signature))))))))"

section \<open>Lemmas\<close>

lemma silent_pace [sends_intros]: "silent (paceRequest c)"
  unfolding silent_def paceRequest_def
  by (auto simp: io_return_def io_bind_def outside_def paceSlot_def Let_def split: prod.split sum.split)

lemma silent_settlementUpdate [sends_intros]: "silent (settlementUpdate c f t m)"
  unfolding settlementUpdate_def Let_def by (intro sends_intros)

lemma sends_lift: "(\<And>x. r = Inr x \<Longrightarrow> sends P (f x)) \<Longrightarrow> sends P (io_bind (io_lift r) f)"
  by (auto simp: io_bind_lift silent_sends silent_throw split: sum.split)

text \<open>The slots of a sequence of requests, from the clock readings at which they are made.\<close>

fun slots :: "int \<Rightarrow> int \<Rightarrow> int list \<Rightarrow> int list" where
  "slots interval next [] = []"
| "slots interval next (now # nows) =
     (case paceSlot interval next now of (s, next') \<Rightarrow> s # slots interval next' nows)"

lemma slots_after: "s \<in> set (slots interval next nows) \<Longrightarrow> 0 \<le> interval \<Longrightarrow> next \<le> s"
proof (induction nows arbitrary: "next")
  case (Cons now nows)
  then show ?case by (fastforce simp: paceSlot_def Let_def)
qed simp

lemma slots_spaced: "0 \<le> interval \<Longrightarrow> sorted_wrt (\<lambda>s t. s + interval \<le> t) (slots interval next nows)"
proof (induction nows arbitrary: "next")
  case (Cons now nows)
  then show ?case using slots_after [of _ interval "max now next + interval" nows]
    by (auto simp: paceSlot_def Let_def)
qed simp

lemma slots_not_early: "list_all2 (\<le>) nows (slots interval next nows)"
  by (induction nows arbitrary: "next") (simp_all add: paceSlot_def Let_def)

section \<open>Properties\<close>

text \<open>
  Claim C17. Whatever Hermes answers and whatever the clock does, an update the settlement accepts
  is the one of the requested feed that brackets the target time: published at or after the target
  and within the staleness limit, the previous one strictly before it.
\<close>

theorem accepted_update_brackets_target:
  assumes "settlementUpdate c requestedFeedId (JInt target) (JInt maxStaleness) w = (Inr u, w')"
  shows "normalizeFeedId requestedFeedId = Inr (vu_feedId u)
    \<and> (\<exists>previous. vu_previousPublishTime u = Some previous \<and> previous < target)
    \<and> target \<le> vu_publishTime u \<and> vu_publishTime u \<le> target + maxStaleness \<and> vu_data u \<noteq> []"
proof -
  obtain feedId where f: "normalizeFeedId requestedFeedId = Inr feedId"
    using assms by (cases "normalizeFeedId requestedFeedId")
      (auto simp: settlementUpdate_def io_bind_def io_lift_def)
  obtain response w1 where v: "verifiedUpdate response feedId = Inr u"
    and t: "\<not> (vu_previousPublishTime u = None \<or> the (vu_previousPublishTime u) \<ge> target
          \<or> vu_publishTime u < target)" "\<not> vu_publishTime u - target > maxStaleness"
    using assms f unfolding settlementUpdate_def Let_def
    by (auto simp: io_bind_def io_lift_def io_throw_def io_return_def split: prod.splits sum.splits if_splits)
  from v have "vu_feedId u = feedId" "vu_data u \<noteq> []"
    by (auto simp: verifiedUpdate_def split: if_splits option.splits list.splits)
  with f t show ?thesis by auto
qed

definition update_example :: PriceUpdate where
  "update_example = \<lparr>pu_encoding = ''base64'', pu_data = [JString ''AAEC''],
     pu_parsed = Some [\<lparr>pp_id = replicate 64 CHR ''a'', pp_price = ''6012345'', pp_conf = ''12'', pp_expo = -5,
       pp_publish_time = 1005, pp_slot = None, pp_prev_publish_time = Some 999\<rparr>]\<rparr>"

definition client_example :: "unit PythClient" where
  "client_example = \<lparr>pc_updatesAtTimestamp = (\<lambda>t ids. io_return update_example),
     pc_latestUpdates = (\<lambda>ids. io_return update_example), pc_minimumRequestIntervalMs = 1100,
     pc_now = io_return 5000, pc_wait = (\<lambda>d. io_return ())\<rparr>"

definition world_example :: "unit world" where
  "world_example = \<lparr>w_sent = [], w_log = [], w_nextRequestAt = 0, w_rest = ()\<rparr>"

theorem accepted_update_brackets_target_witness:
  "\<exists>u w'. settlementUpdate client_example (''0x'' @ replicate 64 CHR ''A'') (JInt 1000) (JInt 60) world_example
       = (Inr u, w') \<and> 1000 \<le> vu_publishTime u \<and> vu_publishTime u \<le> 1060"
proof -
  have "case settlementUpdate client_example (''0x'' @ replicate 64 CHR ''A'') (JInt 1000) (JInt 60) world_example
    of (Inr u, w') \<Rightarrow> True | _ \<Rightarrow> False" by code_simp
  then obtain u w' where u: "settlementUpdate client_example (''0x'' @ replicate 64 CHR ''A'') (JInt 1000)
      (JInt 60) world_example = (Inr u, w')"
    by (auto split: prod.splits sum.splits)
  from accepted_update_brackets_target [OF u] u show ?thesis by auto
qed



end
