(* ===== verification/Keeper.thy ===== *)
theory Keeper
  imports Feeds
begin

text \<open>
  The keeper process: the pass over the hybrid markets (\<open>services/src/keeper/hybrid.ts\<close>) and the
  loop over the private and hybrid markets (\<open>services/src/keeper/runner.ts\<close>).  Account reads, the
  TxLINE connection and the token addresses are the fields of \<open>keeper_inputs\<close>.
\<close>

section \<open>What the keeper reads\<close>

record HybridMarketAccount =
  hm_oracleConfig :: pubkey
  hm_phase :: "(string \<times> json) list"
  hm_lockTs :: int
  hm_resolveNotBeforeTs :: int
  hm_resolutionDeadlineTs :: int

record ProposalAccount =
  pa_challengeDeadline :: int
  pa_challenger :: pubkey
  pa_finalized :: bool

record PrivateMarketAccount =
  pm_phase :: "(string \<times> json) list"
  pm_lockTs :: int
  pm_batchDeadlineTs :: int
  pm_resolutionDeadlineTs :: int
  pm_fixtureId :: int
  pm_scoreKeyA :: int
  pm_scoreKeyB :: int
  pm_collateralMint :: pubkey
  pm_treasuryOwner :: pubkey

text \<open>
  \<open>ki_validation\<close> is the typed view the code takes of a validation body; \<open>ki_ata\<close> the address of
  an associated token account; \<open>ki_delay\<close> the timer of the loop.
\<close>

record 'x keeper_inputs =
  ki_hybridMarkets :: "('x, (pubkey \<times> HybridMarketAccount) list) outside"
  ki_privateMarkets :: "('x, (pubkey \<times> PrivateMarketAccount) list) outside"
  ki_oracle :: "pubkey \<Rightarrow> ('x, OracleAccount) outside"
  ki_proposal :: "pubkey \<Rightarrow> ('x, ProposalAccount) outside"
  ki_fetch :: "'x fetch"
  ki_txline :: "TxlineCredentials option"
  ki_validation :: "json \<Rightarrow> TxlineValidationResponse res"
  ki_ata :: "pubkey \<Rightarrow> pubkey \<Rightarrow> pubkey res"
  ki_clockMs :: "('x, int) outside"
  ki_delay :: "int \<Rightarrow> ('x, unit) outside"
  ki_dryRun :: bool
  ki_once :: bool
  ki_intervalMs :: int
  ki_pythComputeUnitPrice :: int
  ki_switchboardComputeUnitPrice :: int

definition TXLINE_PROGRAM :: string where
  "TXLINE_PROGRAM = ''6pW64gN1s2uqjHkn1unFeEjAwJkPGHoppGvS715wyP2J''"

definition PARTICIPANT_GOAL_KEYS :: "int list" where
  "PARTICIPANT_GOAL_KEYS = [1, 2]"

text \<open>\<open>PublicKey.default\<close>.\<close>

definition default_key :: pubkey where
  "default_key = replicate 32 0"

definition dailyScoresRoot :: "'x keeper_env \<Rightarrow> int \<Rightarrow> pubkey res" where
  "dailyScoresRoot E timestampMs =
     (let epochDay = timestampMs div 86400000
      in if epochDay < 0 \<or> epochDay > 65535
         then Inl (Error ''TxLINE timestamp is outside the u16 epoch-day range'')
         else Inr (ke_derive E [utf8 ''daily_scores_roots'', int_le_bytes 2 epochDay] (ke_key E TXLINE_PROGRAM)))"

section \<open>The payload as an instruction argument\<close>

definition node_arg :: "ProofNode \<Rightarrow> arg" where
  "node_arg n = A_struct [(''hash'', A_bytes (node_hash n)), (''isRightSibling'', A_bool (node_isRightSibling n))]"

definition stat_arg :: "TxlineStat \<times> ProofNode list \<Rightarrow> arg" where
  "stat_arg p = A_struct
     [(''stat'', A_struct [(''key'', A_int (st_key (fst p))), (''value'', A_int (st_value (fst p))),
                          (''period'', A_int (st_period (fst p)))]),
      (''statProof'', A_list (map node_arg (snd p)))]"

definition payload_arg :: "ValidationPayload \<Rightarrow> arg" where
  "payload_arg v = A_struct
     [(''ts'', A_int (vp_ts v)),
      (''fixtureSummary'', A_struct
         [(''fixtureId'', A_int (vp_fixtureId v)),
          (''updateStats'', A_struct [(''updateCount'', A_int (vp_updateCount v)),
             (''minTimestamp'', A_int (vp_minTimestamp v)), (''maxTimestamp'', A_int (vp_maxTimestamp v))]),
          (''eventsSubTreeRoot'', A_bytes (vp_eventsSubTreeRoot v))]),
      (''fixtureProof'', A_list (map node_arg (vp_fixtureProof v))),
      (''mainTreeProof'', A_list (map node_arg (vp_mainTreeProof v))),
      (''eventStatRoot'', A_bytes (vp_eventStatRoot v)),
      (''stats'', A_list (map stat_arg (vp_stats v)))]"

section \<open>Hybrid markets\<close>

text \<open>The final record of a fixture, its sequence number and its validation payload.\<close>

definition finalPayload ::
    "'x keeper_inputs \<Rightarrow> TxlineCredentials \<Rightarrow> int \<Rightarrow> int list \<Rightarrow> json \<Rightarrow> ('x world, int \<times> ValidationPayload) io" where
  "finalPayload I txline fixtureId statKeys finalRecord =
     (let sq = seq_of finalRecord in
      io_bind (outside (txline_validationProof (ki_fetch I) txline fixtureId (JInt sq) statKeys)) (\<lambda>body.
      io_bind (io_lift (rbind (ki_validation I body) validationPayload)) (\<lambda>payload.
        io_return (sq, payload))))"

definition resolveTxline ::
    "'x keeper_env \<Rightarrow> 'x keeper_inputs \<Rightarrow> pubkey \<Rightarrow> int list \<Rightarrow> TxlineCredentials \<Rightarrow> ('x world, string option) io" where
  "resolveTxline E I market sourceId txline =
     io_bind (io_lift (fixtureIdFromSource sourceId)) (\<lambda>fixtureId.
     io_bind (outside (txline_historical (ki_fetch I) txline fixtureId)) (\<lambda>history.
     io_bind (io_lift (latestFinalScore history)) (\<lambda>found.
       case found of
         None \<Rightarrow> io_return None
       | Some finalRecord \<Rightarrow>
           io_bind (finalPayload I txline fixtureId PARTICIPANT_GOAL_KEYS finalRecord) (\<lambda>(sq, payload).
           io_bind (io_lift (rbind (ke_toNumber E (vp_ts payload)) (dailyScoresRoot E))) (\<lambda>dailyRoot.
           io_bind (send_tx (ke_rpc E) (call_tx ''resolveHybridWithTxline'' [payload_arg payload]
               (resolution_accounts E market
                @ [(''dailyScoresMerkleRoots'', dailyRoot), (''txlineProgram'', ke_key E TXLINE_PROGRAM)])))
             (\<lambda>signature. io_return (Some signature)))))))"

fun action_name :: "HybridKeeperAction \<Rightarrow> string" where
  "action_name Act_none = ''none''"
| "action_name Act_lock = ''lock''"
| "action_name Act_resolve_pyth = ''resolve-pyth''"
| "action_name Act_resolve_txline = ''resolve-txline''"
| "action_name Act_resolve_switchboard = ''resolve-switchboard''"
| "action_name Act_resolve_stork = ''resolve-stork''"
| "action_name Act_finalize_optimistic = ''finalize-optimistic''"
| "action_name Act_timeout_optimistic_dispute = ''timeout-optimistic-dispute''"
| "action_name Act_resolve_timeout = ''resolve-timeout''"

fun resolver_name :: "HybridResolver \<Rightarrow> string" where
  "resolver_name Txline_stat = ''txline-stat''"
| "resolver_name Pyth_price = ''pyth-price''"
| "resolver_name Switchboard_quote = ''switchboard-quote''"
| "resolver_name Optimistic = ''optimistic''"
| "resolver_name Uma_wormhole = ''uma-wormhole''"
| "resolver_name Chainlink_report = ''chainlink-report''"
| "resolver_name Stork_price = ''stork-price''"

definition event_line :: "string \<Rightarrow> (string \<times> json) list \<Rightarrow> log_line \<Rightarrow> log_line" where
  "event_line name details context = (''event'', JString name) # details @ context"

definition lock_tx :: "pubkey \<Rightarrow> tx" where
  "lock_tx market = call_tx ''lockHybridMarket'' [] [(''market'', market)]"

definition timeout_tx :: "'x keeper_env \<Rightarrow> pubkey \<Rightarrow> tx" where
  "timeout_tx E market = call_tx ''resolveHybridTimeout'' [] (resolution_accounts E market)"

definition proposal_accounts :: "'x keeper_env \<Rightarrow> pubkey \<Rightarrow> (string \<times> pubkey) list" where
  "proposal_accounts E market =
     resolution_accounts E market @ [(''proposal'', optimisticProposalPda (ke_derive E) market (ke_nortia E))]"

definition finalize_tx :: "'x keeper_env \<Rightarrow> pubkey \<Rightarrow> tx" where
  "finalize_tx E market = call_tx ''finalizeOptimisticResolution'' [] (proposal_accounts E market)"

definition dispute_timeout_tx :: "'x keeper_env \<Rightarrow> pubkey \<Rightarrow> tx" where
  "dispute_timeout_tx E market = call_tx ''timeoutOptimisticDispute'' [] (proposal_accounts E market)"

text \<open>Send, then log the signature.\<close>

definition send_and_log :: "'x keeper_env \<Rightarrow> tx \<Rightarrow> string \<Rightarrow> log_line \<Rightarrow> ('x world, unit) io" where
  "send_and_log E t event context =
     io_bind (send_tx (ke_rpc E) t) (\<lambda>signature.
       log_event (event_line event [(''signature'', JString signature)] context))"

definition executeHybridAction ::
    "'x keeper_env \<Rightarrow> 'x keeper_inputs \<Rightarrow> pubkey \<Rightarrow> OracleAccount \<Rightarrow> HybridKeeperAction \<Rightarrow> log_line
     \<Rightarrow> ('x world, unit) io" where
  "executeHybridAction E I market oracle action context =
     (case action of
        Act_none \<Rightarrow> io_return ()
      | Act_lock \<Rightarrow> send_and_log E (lock_tx market) ''hybrid-market-locked'' context
      | Act_resolve_timeout \<Rightarrow> send_and_log E (timeout_tx E market) ''hybrid-market-invalidated'' context
      | Act_finalize_optimistic \<Rightarrow> send_and_log E (finalize_tx E market) ''optimistic-market-finalized'' context
      | Act_timeout_optimistic_dispute \<Rightarrow>
          send_and_log E (dispute_timeout_tx E market) ''optimistic-dispute-timed-out'' context
      | Act_resolve_pyth \<Rightarrow>
          io_bind (resolvePythHybridMarket E market oracle (ki_pythComputeUnitPrice I)) (\<lambda>signatures.
            log_event (event_line ''pyth-market-resolved''
              [(''signatures'', JArray (map JString signatures))] context))
      | Act_resolve_txline \<Rightarrow>
          (case ki_txline I of
             None \<Rightarrow> log_event (event_line ''hybrid-resolution-blocked''
                       [(''reason'', JString ''TxLINE credentials missing'')] context)
           | Some txline \<Rightarrow>
               io_bind (resolveTxline E I market (oa_sourceId oracle) txline) (\<lambda>found.
                 log_event (case found of
                     Some signature \<Rightarrow> if signature = []
                       then event_line ''hybrid-resolution-waiting'' [(''reason'', JString ''No final TxLINE score'')] context
                       else event_line ''txline-hybrid-market-resolved'' [(''signature'', JString signature)] context
                   | None \<Rightarrow> event_line ''hybrid-resolution-waiting''
                       [(''reason'', JString ''No final TxLINE score'')] context)))
      | Act_resolve_stork \<Rightarrow>
          io_bind (resolveStorkHybridMarket E market oracle) (\<lambda>signature.
            log_event (event_line ''stork-market-resolved'' [(''signature'', JString signature)] context))
      | Act_resolve_switchboard \<Rightarrow>
          io_bind (resolveSwitchboardHybridMarket E market oracle (ki_switchboardComputeUnitPrice I)) (\<lambda>signature.
            log_event (event_line ''switchboard-market-resolved'' [(''signature'', JString signature)] context)))"

definition keeperInput ::
    "'x keeper_env \<Rightarrow> HybridMarketAccount \<Rightarrow> HybridResolver \<Rightarrow> ProposalAccount option \<Rightarrow> HybridKeeperInput res" where
  "keeperInput E market resolver proposal =
     rbind (hybridPhaseName (hm_phase market)) (\<lambda>phase.
     rbind (ke_toNumber E (hm_lockTs market)) (\<lambda>lockTs.
     rbind (ke_toNumber E (hm_resolveNotBeforeTs market)) (\<lambda>resolveTs.
     rbind (ke_toNumber E (hm_resolutionDeadlineTs market)) (\<lambda>deadlineTs.
     rbind (case proposal of
              None \<Rightarrow> Inr None
            | Some p \<Rightarrow> rbind (ke_toNumber E (pa_challengeDeadline p)) (\<lambda>d.
                Inr (Some \<lparr>ps_challengeDeadline = d, ps_challenged = (pa_challenger p \<noteq> default_key),
                           ps_finalized = pa_finalized p\<rparr>))) (\<lambda>state.
       Inr \<lparr>hk_phase = phase, hk_resolver = resolver, hk_lockTs = JInt lockTs,
            hk_resolveNotBeforeTs = JInt resolveTs, hk_resolutionDeadlineTs = JInt deadlineTs,
            hk_proposal = state\<rparr>)))))"

definition hybridMarketStep ::
    "'x keeper_env \<Rightarrow> 'x keeper_inputs \<Rightarrow> int \<Rightarrow> pubkey \<times> HybridMarketAccount \<Rightarrow> ('x world, unit) io" where
  "hybridMarketStep E I now entry =
     (case entry of (marketAddress, market) \<Rightarrow>
       let context = [(''market'', JString (ke_toBase58 E marketAddress)), (''marketKind'', JString ''lmsr'')] in
       io_catch
         (io_bind (outside (ki_oracle I (hm_oracleConfig market))) (\<lambda>oracle.
          io_bind (io_lift (oracleResolverName (oa_resolver oracle))) (\<lambda>resolver.
          io_bind (if oa_optimisticProposal oracle = default_key then io_return None
                   else io_bind (outside (ki_proposal I (oa_optimisticProposal oracle))) (\<lambda>p. io_return (Some p)))
            (\<lambda>proposal.
          io_bind (io_lift (rbind (keeperInput E market resolver proposal)
              (\<lambda>input. planHybridKeeperAction input (JInt now)))) (\<lambda>action.
            if action = Act_none then io_return ()
            else if ki_dryRun I then
              log_event (event_line ''hybrid-keeper-dry-run'' [(''action'', JString (action_name action)),
                (''resolver'', JString (resolver_name resolver))] context)
            else executeHybridAction E I marketAddress oracle action context)))))
         (\<lambda>e. log_event (event_line ''hybrid-keeper-error'' [(''reason'', JString (error_message e))] context)))"

definition runHybridKeeperPass :: "'x keeper_env \<Rightarrow> 'x keeper_inputs \<Rightarrow> int \<Rightarrow> ('x world, unit) io" where
  "runHybridKeeperPass E I now =
     io_bind (outside (ki_hybridMarkets I)) (\<lambda>markets. io_for (hybridMarketStep E I now) markets)"

section \<open>Private markets and the loop\<close>

definition vaultPda :: "'x keeper_env \<Rightarrow> pubkey \<Rightarrow> pubkey" where
  "vaultPda E market = ke_derive E [utf8 ''vault'', market] (ke_nortia E)"

fun private_action_name :: "KeeperAction \<Rightarrow> string" where
  "private_action_name Keep_none = ''none''"
| "private_action_name Submit_batch = ''submit-batch''"
| "private_action_name Keep_resolve = ''resolve''"
| "private_action_name Begin_refund = ''begin-refund''"

definition indexedMarket :: "'x keeper_env \<Rightarrow> PrivateMarketAccount \<Rightarrow> IndexedMarket res" where
  "indexedMarket E account =
     rbind (phaseName (pm_phase account)) (\<lambda>phase.
     rbind (ke_toNumber E (pm_lockTs account)) (\<lambda>lockTs.
     rbind (ke_toNumber E (pm_batchDeadlineTs account)) (\<lambda>batchTs.
     rbind (ke_toNumber E (pm_resolutionDeadlineTs account)) (\<lambda>deadlineTs.
       Inr \<lparr>im_phase = phase, im_lockTs = lockTs, im_batchDeadlineTs = batchTs,
            im_resolutionDeadlineTs = deadlineTs\<rparr>))))"

definition resolve_market_tx ::
    "'x keeper_env \<Rightarrow> 'x keeper_inputs \<Rightarrow> pubkey \<Rightarrow> PrivateMarketAccount \<Rightarrow> int \<Rightarrow> ValidationPayload \<Rightarrow> tx res" where
  "resolve_market_tx E I market account sq payload =
     rbind (ke_toNumber E (vp_ts payload)) (\<lambda>timestampMs.
     rbind (ki_ata I (pm_collateralMint account) (ke_keeper E)) (\<lambda>keeperToken.
     rbind (ki_ata I (pm_collateralMint account) (pm_treasuryOwner account)) (\<lambda>treasuryToken.
     rbind (dailyScoresRoot E timestampMs) (\<lambda>dailyRoot.
       Inr \<lparr>tx_method = ''resolveMarket'', tx_args = [A_int sq, payload_arg payload],
            tx_accounts = [(''keeper'', ke_keeper E), (''market'', market),
              (''collateralMint'', pm_collateralMint account), (''vault'', vaultPda E market),
              (''treasuryToken'', treasuryToken), (''keeperToken'', keeperToken),
              (''dailyScoresMerkleRoots'', dailyRoot), (''txlineProgram'', ke_key E TXLINE_PROGRAM),
              (''tokenProgram'', ke_token E)],
            tx_pre = [Compute_unit_limit 1400000,
              Create_token_account (ke_keeper E) keeperToken (ke_keeper E) (pm_collateralMint account),
              Create_token_account (ke_keeper E) treasuryToken (pm_treasuryOwner account) (pm_collateralMint account)],
            tx_signers = []\<rparr>))))"

definition privateMarketStep ::
    "'x keeper_env \<Rightarrow> 'x keeper_inputs \<Rightarrow> int \<Rightarrow> pubkey \<times> PrivateMarketAccount \<Rightarrow> ('x world, unit) io" where
  "privateMarketStep E I now entry =
     (case entry of (marketAddress, account) \<Rightarrow>
       io_catch
         (io_bind (io_lift (indexedMarket E account)) (\<lambda>indexed.
           let action = planKeeperAction indexed now;
               context = [(''market'', JString (ke_toBase58 E marketAddress)),
                          (''action'', JString (private_action_name action))] in
           if action = Keep_none then io_return ()
           else if ki_dryRun I then log_event (event_line ''keeper-dry-run'' [] context)
           else if action = Submit_batch then log_event (event_line ''committee-batch-required'' [] context)
           else if action = Begin_refund
           then send_and_log E (call_tx ''beginRefund'' [] [(''market'', marketAddress)]) ''refunds-opened'' context
           else case ki_txline I of
             None \<Rightarrow> log_event (event_line ''resolution-blocked''
               [(''reason'', JString ''TxLINE credentials are not configured'')] context)
           | Some txline \<Rightarrow>
               io_bind (io_lift (ke_toNumber E (pm_fixtureId account))) (\<lambda>fixtureId.
               io_bind (outside (txline_historical (ki_fetch I) txline fixtureId)) (\<lambda>history.
               io_bind (io_lift (latestFinalScore history)) (\<lambda>found.
                 case found of
                   None \<Rightarrow> log_event (event_line ''resolution-waiting''
                     [(''reason'', JString ''No game_finalised record''), (''fixtureId'', JNumber (JInt fixtureId))] context)
                 | Some finalRecord \<Rightarrow>
                     io_bind (finalPayload I txline fixtureId [pm_scoreKeyA account, pm_scoreKeyB account] finalRecord)
                       (\<lambda>(sq, payload).
                     io_bind (io_lift (resolve_market_tx E I marketAddress account sq payload)) (\<lambda>t.
                     io_bind (send_tx (ke_rpc E) t) (\<lambda>signature.
                       log_event (event_line ''market-resolved'' [(''signature'', JString signature),
                         (''fixtureId'', JNumber (JInt fixtureId)), (''seq'', JNumber (JInt sq))] context)))))))))
         (\<lambda>e. log_event (event_line ''private-keeper-error'' []
            [(''market'', JString (ke_toBase58 E marketAddress)), (''reason'', JString (error_message e))])))"

text \<open>One iteration of the loop, and the first iterations of it: one when the keeper runs once.\<close>

definition keeperPass :: "'x keeper_env \<Rightarrow> 'x keeper_inputs \<Rightarrow> ('x world, unit) io" where
  "keeperPass E I =
     io_bind (outside (ki_clockMs I)) (\<lambda>ms.
       let now = ms div 1000 in
       io_bind (outside (ki_privateMarkets I)) (\<lambda>markets.
       io_bind (io_for (privateMarketStep E I now) markets) (\<lambda>_.
         runHybridKeeperPass E I now)))"

fun keeperLoop :: "nat \<Rightarrow> 'x keeper_env \<Rightarrow> 'x keeper_inputs \<Rightarrow> ('x world, unit) io" where
  "keeperLoop 0 E I = io_return ()"
| "keeperLoop (Suc n) E I =
     io_bind (keeperPass E I) (\<lambda>_.
       if ki_once I then io_return ()
       else io_bind (outside (ki_delay I (ki_intervalMs I))) (\<lambda>_. keeperLoop n E I))"

section \<open>Lemmas\<close>

fun action_method :: "HybridKeeperAction \<Rightarrow> string" where
  "action_method Act_none = []"
| "action_method Act_lock = ''lockHybridMarket''"
| "action_method Act_resolve_pyth = ''resolveHybridWithPyth''"
| "action_method Act_resolve_txline = ''resolveHybridWithTxline''"
| "action_method Act_resolve_switchboard = ''resolveHybridWithSwitchboard''"
| "action_method Act_resolve_stork = ''resolveHybridWithStork''"
| "action_method Act_finalize_optimistic = ''finalizeOptimisticResolution''"
| "action_method Act_timeout_optimistic_dispute = ''timeoutOptimisticDispute''"
| "action_method Act_resolve_timeout = ''resolveHybridTimeout''"

text \<open>A transaction that calls a method on a market.\<close>

definition calls :: "pubkey \<Rightarrow> string \<Rightarrow> tx \<Rightarrow> bool" where
  "calls market m t \<longleftrightarrow> map_of (tx_accounts t) ''market'' = Some market \<and> tx_method t = m"

lemma calls_simps [simp]:
  "calls market m (call_tx m' as (resolution_accounts E market @ acs)) = (m' = m)"
  "calls market m (call_tx m' as [(''market'', market)]) = (m' = m)"
  "calls market m (pyth_tx E market pu) = (m = ''resolveHybridWithPyth'')"
  "calls market m (t\<lparr>tx_pre := pre\<rparr>) = calls market m t"
  by (auto simp: calls_def call_tx_def resolution_accounts_def pyth_tx_def)

lemma calls_resolution [simp]: "calls market m (call_tx m' as (resolution_accounts E market)) = (m' = m)"
  using calls_simps(1) [of market m m' as E "[]"] by simp

lemma sends_option:
  "(x = None \<Longrightarrow> sends P m) \<Longrightarrow> (\<And>y. x = Some y \<Longrightarrow> sends P (f y))
   \<Longrightarrow> sends P (case x of None \<Rightarrow> m | Some y \<Rightarrow> f y)"
  by (cases x) auto

lemma silent_option [sends_intros]:
  "silent m \<Longrightarrow> (\<And>y. silent (f y)) \<Longrightarrow> silent (case x of None \<Rightarrow> m | Some y \<Rightarrow> f y)"
  by (cases x) auto

lemma sends_pair: "(\<And>a b. x = (a, b) \<Longrightarrow> sends P (f a b)) \<Longrightarrow> sends P (case x of (a, b) \<Rightarrow> f a b)"
  by (cases x) auto

lemmas sends_steps = sends_lift sends_after_silent [OF silent_outside] sends_option sends_pair sends_if
  silent_sends [OF silent_throw] silent_sends [OF silent_return] silent_sends [OF silent_log]

lemma silent_finalPayload [sends_intros]: "silent (finalPayload I c f ks r)"
  unfolding finalPayload_def Let_def by (intro sends_intros)

lemma sends_then_return: "sends P (send_tx rpc t) \<Longrightarrow> sends P (io_bind (send_tx rpc t) (\<lambda>x. io_return (g x)))"
  by (rule sends_before_silent) (auto intro: sends_intros)

lemma sends_then_confirm:
  "sends P (send_tx rpc t) \<Longrightarrow> sends P (io_bind (send_tx rpc t) (\<lambda>x. io_bind (outside (g x)) (\<lambda>b.
     if b then io_throw e else io_return x)))"
  by (rule sends_before_silent) (auto intro!: sends_intros)

lemma sends_resolvePyth: "sends (calls market ''resolveHybridWithPyth'') (resolvePythHybridMarket E market oracle p)"
  unfolding resolvePythHybridMarket_def
  by (intro sends_steps sends_then_return sends_send_tx sends_after_silent [OF silent_settlementUpdate]) simp_all

lemma sends_resolveStork: "sends (calls market ''resolveHybridWithStork'') (resolveStorkHybridMarket E market oracle)"
  unfolding resolveStorkHybridMarket_def by (intro sends_steps sends_send_tx) simp_all

lemma sends_resolveSwitchboard:
  "sends (calls market ''resolveHybridWithSwitchboard'') (resolveSwitchboardHybridMarket E market oracle p)"
  unfolding resolveSwitchboardHybridMarket_def
  by (intro sends_steps sends_then_confirm sends_send_tx) simp_all

lemma sends_resolveTxline:
  "sends (calls market ''resolveHybridWithTxline'') (resolveTxline E I market sourceId c)"
  unfolding resolveTxline_def
  by (intro sends_steps sends_then_return sends_send_tx sends_after_silent [OF silent_finalPayload]) simp_all

lemma sends_send_and_log: "P t \<Longrightarrow> sends P (send_and_log E t ev context)"
  unfolding send_and_log_def by (intro sends_before_silent sends_send_tx) (auto intro: sends_intros)

lemma sends_execute:
  "sends (calls market (action_method action)) (executeHybridAction E I market oracle action context)"
proof -
  have l: "silent (log_event l)" for l :: log_line by (rule silent_log)
  show ?thesis
    by (cases action)
      (auto simp: executeHybridAction_def lock_tx_def timeout_tx_def finalize_tx_def dispute_timeout_tx_def
        proposal_accounts_def intro!: sends_send_and_log silent_sends [OF silent_return] sends_option
        silent_sends [OF l] sends_before_silent [OF sends_resolvePyth l]
        sends_before_silent [OF sends_resolveStork l] sends_before_silent [OF sends_resolveSwitchboard l]
        sends_before_silent [OF sends_resolveTxline l])
qed

text \<open>
  The action due for a market: the plan for the market's account, the oracle account read at the
  address the market names, and the proposal account read at the address that oracle account names,
  if any.  \<open>x\<close> is the state of the node and the other services when the market's turn comes.
\<close>

definition due_action ::
    "'x keeper_env \<Rightarrow> 'x keeper_inputs \<Rightarrow> int \<Rightarrow> HybridMarketAccount \<Rightarrow> 'x \<Rightarrow> HybridKeeperAction res" where
  "due_action E I now market x =
     (case ki_oracle I (hm_oracleConfig market) x of (got, x1) \<Rightarrow>
        rbind got (\<lambda>oracle.
        rbind (oracleResolverName (oa_resolver oracle)) (\<lambda>resolver.
        rbind (if oa_optimisticProposal oracle = default_key then Inr None
               else rbind (fst (ki_proposal I (oa_optimisticProposal oracle) x1)) (\<lambda>p. Inr (Some p))) (\<lambda>proposal.
        rbind (keeperInput E market resolver proposal) (\<lambda>input.
          planHybridKeeperAction input (JInt now))))))"

text \<open>
  What a pass may send for a market: nothing when no action is due or in a dry run; otherwise one
  transaction, the call of the due action on that market.  The four actions that carry no evidence
  are always sent; a resolution by an oracle may also find no evidence and send nothing.
\<close>

definition due_calls ::
    "'x keeper_env \<Rightarrow> 'x keeper_inputs \<Rightarrow> int \<Rightarrow> pubkey \<times> HybridMarketAccount \<Rightarrow> 'x \<Rightarrow> tx list \<Rightarrow> bool" where
  "due_calls E I now m x ts \<longleftrightarrow>
     (case due_action E I now (snd m) x of
        Inl _ \<Rightarrow> ts = []
      | Inr action \<Rightarrow>
          if action = Act_none \<or> ki_dryRun I then ts = []
          else (\<exists>t. ts = [t] \<and> calls (fst m) (action_method action) t)
            \<or> ts = [] \<and> machine_resolver action \<noteq> None)"

lemma sends_mono: "sends P m \<Longrightarrow> (\<And>t. P t \<Longrightarrow> Q t) \<Longrightarrow> sends Q m"
  unfolding sends_def by blast

text \<open>\<open>sent_at w m Q\<close>: the transactions \<open>m\<close> sends from the world \<open>w\<close> satisfy \<open>Q\<close>.\<close>

definition sent_at :: "'x world \<Rightarrow> ('x world, 'a) io \<Rightarrow> (tx list \<Rightarrow> bool) \<Rightarrow> bool" where
  "sent_at w m Q \<longleftrightarrow> (\<exists>ts. w_sent (snd (m w)) = w_sent w @ ts \<and> Q ts)"

lemma sent_at_silent: "silent m \<Longrightarrow> Q [] \<Longrightarrow> sent_at w m Q"
  by (auto simp: sent_at_def silent_def)

lemma sent_at_sends: "sends P m \<Longrightarrow> Q [] \<Longrightarrow> (\<And>t. P t \<Longrightarrow> Q [t]) \<Longrightarrow> sent_at w m Q"
  unfolding sent_at_def sends_def by (metis append_Nil2)

lemma sent_at_catch: "sent_at w m Q \<Longrightarrow> (\<And>e. silent (h e)) \<Longrightarrow> sent_at w (io_catch m h) Q"
  unfolding sent_at_def silent_def io_catch_def by (auto split: prod.split sum.split)

lemma sent_at_outside:
  "(case f (w_rest w) of (Inl e, x) \<Rightarrow> Q [] | (Inr y, x) \<Rightarrow> sent_at (w\<lparr>w_rest := x\<rparr>) (g y) Q)
   \<Longrightarrow> sent_at w (io_bind (outside f) g) Q"
  by (auto simp: sent_at_def io_bind_def outside_def split: prod.splits sum.splits)

lemma sent_at_lift:
  "(case r of Inl e \<Rightarrow> Q [] | Inr y \<Rightarrow> sent_at w (g y) Q) \<Longrightarrow> sent_at w (io_bind (io_lift r) g) Q"
  by (auto simp: sent_at_def io_bind_def io_lift_def split: sum.splits)

lemma sent_send_and_log: "sent_at w (send_and_log E t ev context) (\<lambda>ts. ts = [t])"
  by (auto simp: sent_at_def send_and_log_def io_bind_def send_tx_def outside_def log_event_def
    split: prod.splits sum.splits)

lemma sent_executeHybridAction:
  assumes "action \<noteq> Act_none"
  shows "sent_at w (executeHybridAction E I market oracle action context)
    (\<lambda>ts. (\<exists>t. ts = [t] \<and> calls market (action_method action) t) \<or> ts = [] \<and> machine_resolver action \<noteq> None)"
proof (cases "machine_resolver action")
  case None
  have m: "sent_at w (send_and_log E t ev context) Q" if "Q [t]" for t ev Q
    using sent_send_and_log that by (fastforce simp: sent_at_def)
  from None assms show ?thesis
    by (cases action) (auto simp: executeHybridAction_def lock_tx_def timeout_tx_def finalize_tx_def
      dispute_timeout_tx_def proposal_accounts_def intro!: m)
next
  case (Some r)
  then show ?thesis by (intro sent_at_sends [OF sends_execute]) auto
qed

lemma sent_hybridMarketStep: "sent_at w (hybridMarketStep E I now m) (due_calls E I now m (w_rest w))"
proof (cases m)
  case (Pair addr market)
  let ?Q = "due_calls E I now m (w_rest w)"
  let ?ctxt = "[(''market'', JString (ke_toBase58 E addr)), (''marketKind'', JString ''lmsr'')]"
  have acted: "sent_at w' (if action = Act_none then io_return ()
      else if ki_dryRun I then log_event l else executeHybridAction E I addr orc action ?ctxt) ?Q"
    if "due_action E I now market (w_rest w) = Inr action" for w' :: "'a world" and action orc l
  proof (cases "action = Act_none \<or> ki_dryRun I")
    case True
    with that have q: "?Q []" by (simp add: due_calls_def Pair)
    from True q show ?thesis by (intro sent_at_silent) (auto intro!: sends_intros)
  next
    case False
    with that have "?Q = (\<lambda>ts. (\<exists>t. ts = [t] \<and> calls addr (action_method action) t)
        \<or> ts = [] \<and> machine_resolver action \<noteq> None)" by (simp add: due_calls_def Pair fun_eq_iff)
    with False show ?thesis using sent_executeHybridAction [of action w' E I addr orc ?ctxt] by simp
  qed
  have failed: "?Q []" if "due_action E I now market (w_rest w) = Inl e" for e
    using that by (simp add: due_calls_def Pair)
  let ?w = "\<lambda>x. w\<lparr>w_rest := x\<rparr>"
  let ?finish = "\<lambda>orc resolver proposal. io_bind (io_lift (rbind (keeperInput E market resolver proposal)
       (\<lambda>input. planHybridKeeperAction input (JInt now)))) (\<lambda>action.
            if action = Act_none then io_return ()
            else if ki_dryRun I then
              log_event (event_line ''hybrid-keeper-dry-run'' [(''action'', JString (action_name action)),
                (''resolver'', JString (resolver_name resolver))] ?ctxt)
            else executeHybridAction E I addr orc action ?ctxt)"
  have finish: "sent_at w' (?finish orc resolver proposal) ?Q"
    if "due_action E I now market (w_rest w) = rbind (keeperInput E market resolver proposal)
       (\<lambda>input. planHybridKeeperAction input (JInt now))" for w' :: "'a world" and orc resolver proposal
  proof (rule sent_at_lift)
    show "case rbind (keeperInput E market resolver proposal) (\<lambda>input. planHybridKeeperAction input (JInt now)) of
        Inl e \<Rightarrow> ?Q []
      | Inr action \<Rightarrow> sent_at w' (if action = Act_none then io_return ()
          else if ki_dryRun I then
            log_event (event_line ''hybrid-keeper-dry-run'' [(''action'', JString (action_name action)),
              (''resolver'', JString (resolver_name resolver))] ?ctxt)
          else executeHybridAction E I addr orc action ?ctxt) ?Q"
      unfolding that [symmetric] by (cases "due_action E I now market (w_rest w)") (simp_all only: sum.case failed acted)
  qed
  let ?rest = "\<lambda>orc. io_bind (io_lift (oracleResolverName (oa_resolver orc))) (\<lambda>resolver.
          io_bind (if oa_optimisticProposal orc = default_key then io_return None
                   else io_bind (outside (ki_proposal I (oa_optimisticProposal orc))) (\<lambda>p. io_return (Some p)))
            (\<lambda>proposal. ?finish orc resolver proposal))"
  have rest: "sent_at (?w x) (?rest orc) ?Q" if o: "ki_oracle I (hm_oracleConfig market) (w_rest w) = (Inr orc, x)"
    for orc x
  proof (cases "oracleResolverName (oa_resolver orc)")
    case (Inl e)
    with o have "due_action E I now market (w_rest w) = Inl e" by (simp add: due_action_def)
    with failed Inl show ?thesis by (intro sent_at_lift) simp
  next
    case (Inr resolver)
    have d: "due_action E I now market (w_rest w) =
        rbind (if oa_optimisticProposal orc = default_key then Inr None
               else rbind (fst (ki_proposal I (oa_optimisticProposal orc) x)) (\<lambda>p. Inr (Some p))) (\<lambda>proposal.
        rbind (keeperInput E market resolver proposal) (\<lambda>input.
          planHybridKeeperAction input (JInt now)))"
      by (simp only: due_action_def o prod.case rbind_Inr Inr)
    have "sent_at (?w x) (io_bind (if oa_optimisticProposal orc = default_key then io_return None
                   else io_bind (outside (ki_proposal I (oa_optimisticProposal orc))) (\<lambda>p. io_return (Some p)))
            (\<lambda>proposal. ?finish orc resolver proposal)) ?Q"
    proof (cases "oa_optimisticProposal orc = default_key")
      case True
      with d have "due_action E I now market (w_rest w) = rbind (keeperInput E market resolver None)
          (\<lambda>input. planHybridKeeperAction input (JInt now))" by simp
      from finish [OF this] True show ?thesis by simp
    next
      case False
      obtain q x' where q: "ki_proposal I (oa_optimisticProposal orc) x = (q, x')" by fastforce
      show ?thesis
      proof (cases q)
        case (Inl e)
        with False d q have "due_action E I now market (w_rest w) = Inl e" by simp
        with failed have "?Q []" by blast
        with False q Inl show ?thesis by (simp only: if_False io_bind_assoc) (rule sent_at_outside, simp)
      next
        case (Inr p)
        with False d q have "due_action E I now market (w_rest w) = rbind (keeperInput E market resolver (Some p))
          (\<lambda>input. planHybridKeeperAction input (JInt now))" by simp
        from finish [OF this] False q Inr show ?thesis
          by (simp only: if_False io_bind_assoc io_bind_return) (rule sent_at_outside, simp)
      qed
    qed
    with Inr show ?thesis by (intro sent_at_lift) simp
  qed
  have "sent_at w (io_bind (outside (ki_oracle I (hm_oracleConfig market))) ?rest) ?Q"
  proof (rule sent_at_outside)
    show "case ki_oracle I (hm_oracleConfig market) (w_rest w) of
        (Inl e, x) \<Rightarrow> ?Q [] | (Inr orc, x) \<Rightarrow> sent_at (?w x) (?rest orc) ?Q"
      using rest by (cases "ki_oracle I (hm_oracleConfig market) (w_rest w)"; cases "fst (ki_oracle I (hm_oracleConfig market) (w_rest w))")
        (auto simp: due_action_def intro!: failed)
  qed
  then show ?thesis
    unfolding Pair hybridMarketStep_def prod.case Let_def by (rule sent_at_catch) (rule silent_log)
qed

text \<open>The worlds in which the elements of a loop have their turn.\<close>

primrec turns :: "('b \<Rightarrow> ('w, unit) io) \<Rightarrow> 'b list \<Rightarrow> 'w \<Rightarrow> 'w list" where
  "turns f [] w = []"
| "turns f (x # xs) w = w # turns f xs (snd (f x w))"

lemma io_for_sent:
  assumes "\<And>x w. sent_at w (f x) (Q x w)" "\<And>x. always_returns (f x)"
  shows "\<exists>tss. w_sent (snd (io_for f xs w)) = w_sent w @ concat tss
    \<and> list_all2 (\<lambda>(x, before) ts. Q x before ts) (zip xs (turns f xs w)) tss"
proof (induction xs arbitrary: w)
  case (Cons x xs)
  obtain u w' where m: "f x w = (Inr u, w')" using assms(2) unfolding always_returns_def by metis
  obtain ts where s: "w_sent w' = w_sent w @ ts" "Q x w ts"
    using assms(1) [of w x] m unfolding sent_at_def by auto
  obtain tss where t: "w_sent (snd (io_for f xs w')) = w_sent w' @ concat tss"
    "list_all2 (\<lambda>(x, before) ts. Q x before ts) (zip xs (turns f xs w')) tss"
    using Cons by blast
  have "io_for f (x # xs) w = io_for f xs w'" by (simp add: io_bind_def m)
  with s t m show ?case by (intro exI [of _ "ts # tss"]) simp
qed (simp add: io_return_def)

lemma always_returns_hybridMarketStep: "always_returns (hybridMarketStep E I now m)"
  unfolding hybridMarketStep_def Let_def
  by (auto intro: always_returns_catch always_returns_log split: prod.split)

section \<open>Properties\<close>

text \<open>
  Claim C14. A pass over the hybrid markets fails only when the markets cannot be listed; otherwise
  it returns, and it has sent, market by market in the order of the list, what is due for that
  market: at most one transaction, the call planned from the market's account, the oracle account it
  names and the proposal account that one names, as read in its turn; and that call is sent whenever
  it needs no evidence.  An error at one market stops neither the pass nor the others, and a dry run
  sends nothing.
\<close>

theorem hybrid_pass_one_call_per_market:
  "case ki_hybridMarkets I (w_rest w) of
     (Inl e, x) \<Rightarrow> runHybridKeeperPass E I now w = (Inl e, w\<lparr>w_rest := x\<rparr>)
   | (Inr markets, x) \<Rightarrow>
       fst (runHybridKeeperPass E I now w) = Inr ()
       \<and> (\<exists>tss. w_sent (snd (runHybridKeeperPass E I now w)) = w_sent w @ concat tss
         \<and> list_all2 (\<lambda>(m, before) ts. due_calls E I now m (w_rest before) ts)
             (zip markets (turns (hybridMarketStep E I now) markets (w\<lparr>w_rest := x\<rparr>))) tss)"
proof (cases "ki_hybridMarkets I (w_rest w)")
  case (Pair r x)
  show ?thesis
  proof (cases r)
    case (Inl e)
    with Pair show ?thesis by (simp add: runHybridKeeperPass_def io_bind_def outside_def)
  next
    case (Inr markets)
    let ?step = "hybridMarketStep E I now" and ?w = "w\<lparr>w_rest := x\<rparr>"
    have run: "runHybridKeeperPass E I now w = io_for ?step markets ?w"
      using Pair Inr by (simp add: runHybridKeeperPass_def io_bind_def outside_def)
    have "always_returns (io_for ?step markets)"
      by (rule always_returns_for) (rule always_returns_hybridMarketStep)
    then obtain u w' where u: "io_for ?step markets ?w = (Inr u, w')"
      unfolding always_returns_def by blast
    have "\<exists>tss. w_sent (snd (io_for ?step markets ?w)) = w_sent ?w @ concat tss
      \<and> list_all2 (\<lambda>(m, before) ts. due_calls E I now m (w_rest before) ts)
          (zip markets (turns ?step markets ?w)) tss"
      by (rule io_for_sent [where Q = "\<lambda>m w. due_calls E I now m (w_rest w)"])
        (rule sent_hybridMarketStep, rule always_returns_hybridMarketStep)
    with u show ?thesis by (simp add: Pair Inr run)
  qed
qed

end
