(* ===== verification/CommitteeCrypto.thy ===== *)
theory CommitteeCrypto
  imports Txline JsUrl
begin

text \<open>
  How private shares travel and rest: the sealed state file of a committee member
  (\<open>services/src/committee/state.ts\<close>), the envelopes of shares (\<open>services/src/committee/encryption.ts\<close>)
  and the browser's side of the delivery (\<open>web/lib/committee-delivery.ts\<close>).

  AES-GCM and RSA-OAEP are parameters with their documented law: what was sealed under a key opens
  under it to the same bytes.  Random bytes come from the outside.
\<close>

section \<open>Text and bytes\<close>

text \<open>
  \<open>toString('utf8')\<close> and \<open>TextDecoder.decode\<close>: a question mark stands for every character from
  code 256 on and for the replacement character.
\<close>

fun utf8_text :: "byte list \<Rightarrow> string" where
  "utf8_text [] = []"
| "utf8_text [b] = [if uint b < 128 then code_char (uint b) else CHR ''?'']"
| "utf8_text (b # c # r) =
     (if uint b < 128 then code_char (uint b) # utf8_text (c # r)
      else if (uint b = 194 \<or> uint b = 195) \<and> uint c div 64 = 2
      then code_char ((uint b - 192) * 64 + uint c mod 64) # utf8_text r
      else CHR ''?'' # utf8_text (c # r))"

lemma utf8_text_ascii: "uint b < 128 \<Longrightarrow> utf8_text (b # r) = code_char (uint b) # utf8_text r"
  by (cases r) auto

lemma utf8_text_char: "utf8_text (utf8_char c @ r) = c # utf8_text r"
proof (cases "char_code c < 128")
  case True
  with char_code_range [of c] have "uint (word_of_int (char_code c) :: byte) = char_code c"
    by (intro uint_byte) simp_all
  with True show ?thesis by (simp add: utf8_char_def utf8_text_ascii)
next
  case False
  let ?i = "char_code c"
  have r: "128 \<le> ?i" "?i < 256" using False char_code_range [of c] by simp_all
  have "2 \<le> ?i div 64" using zdiv_mono1 [of 128 ?i 64] r by simp
  moreover have "?i div 64 < 4" using r by (intro int_div_less_mult) simp_all
  ultimately have d: "?i div 64 = 2 \<or> ?i div 64 = 3" by linarith
  have a: "uint (word_of_int (192 + ?i div 64) :: byte) = 192 + ?i div 64" using d by (intro uint_byte) auto
  have m: "0 \<le> ?i mod 64" "?i mod 64 < 64" by simp_all
  have b: "uint (word_of_int (128 + ?i mod 64) :: byte) = 128 + ?i mod 64"
    by (intro uint_byte) (use m in linarith)+
  have e: "(128 + ?i mod 64) div 64 = 2" "(128 + ?i mod 64) mod 64 = ?i mod 64"
    using int_div_pos_eq [of "128 + ?i mod 64" 64 2 "?i mod 64"]
      int_mod_pos_eq [of "128 + ?i mod 64" 64 2 "?i mod 64"] m by simp_all
  have v: "(192 + ?i div 64 - 192) * 64 + ?i mod 64 = ?i" using div_mult_mod_eq [of ?i 64] by simp
  show ?thesis
    using False a b d e v by (auto simp: utf8_char_def Let_def)
qed

lemma utf8_text_utf8 [simp]: "utf8_text (utf8 s) = s"
  by (induction s) (simp_all add: utf8_def utf8_text_char)

section \<open>Sealed state\<close>

text \<open>AES-256-GCM of Node: ciphertext and tag; opening fails unless everything authenticates.\<close>

record gcm =
  gcm_seal :: "byte list \<Rightarrow> byte list \<Rightarrow> byte list \<Rightarrow> byte list \<Rightarrow> byte list \<times> byte list"
  gcm_open :: "byte list \<Rightarrow> byte list \<Rightarrow> byte list \<Rightarrow> byte list \<Rightarrow> byte list \<Rightarrow> byte list option"

definition gcm_ok :: "gcm \<Rightarrow> bool" where
  "gcm_ok g \<longleftrightarrow> (\<forall>k iv aad p. gcm_open g k iv aad (snd (gcm_seal g k iv aad p)) (fst (gcm_seal g k iv aad p)) = Some p)"

definition is_hex_any :: "string \<Rightarrow> bool" where
  "is_hex_any s \<longleftrightarrow> length s = 64 \<and> list_all (is_radix_digit 16) s"

definition keyBytes :: "string \<Rightarrow> byte list res" where
  "keyBytes keyHex =
     (if \<not> is_hex_any keyHex then Inl (Error ''COMMITTEE_STATE_KEY must be a 32-byte hex value'')
      else Inr (hex_bytes keyHex))"

definition aad :: "int \<Rightarrow> byte list" where
  "aad memberIndex = utf8 (''nortia-committee-state'' @ [LF] @ ''member:'' @ int_str memberIndex)"

definition state_json :: "int \<Rightarrow> byte list \<Rightarrow> byte list \<Rightarrow> byte list \<Rightarrow> json" where
  "state_json memberIndex iv tag ciphertext =
     JObject [(''format'', JString ''nortia-committee-state''), (''cipher'', JString ''aes-256-gcm''),
       (''memberIndex'', JNumber (JInt memberIndex)), (''iv'', JString (base64_encode iv)),
       (''tag'', JString (base64_encode tag)), (''ciphertext'', JString (base64_encode ciphertext))]"

definition sealCommitteeState :: "gcm \<Rightarrow> byte list \<Rightarrow> json \<Rightarrow> string \<Rightarrow> int \<Rightarrow> string res" where
  "sealCommitteeState g iv v keyHex memberIndex =
     rbind (keyBytes keyHex) (\<lambda>key.
       case gcm_seal g key iv (aad memberIndex) (utf8 (stringify v)) of (ciphertext, tag) \<Rightarrow>
         Inr (stringify (state_json memberIndex iv tag ciphertext) @ [LF]))"

text \<open>The stored value, and whether it was plain text of an earlier version.\<close>

definition openCommitteeState :: "gcm \<Rightarrow> string \<Rightarrow> string \<Rightarrow> int \<Rightarrow> (json \<times> bool) res" where
  "openCommitteeState g contents keyHex memberIndex =
     rbind (json_parse contents) (\<lambda>v.
       case v of
         JArray xs \<Rightarrow> Inr (JArray xs, True)
       | JNull \<Rightarrow> Inl Type_Error
       | _ \<Rightarrow>
           (case (string_of (field v ''iv''), string_of (field v ''tag''), string_of (field v ''ciphertext'')) of
              (Some iv, Some tag, Some ciphertext) \<Rightarrow>
                if field v ''format'' \<noteq> Some (JString ''nortia-committee-state'')
                   \<or> field v ''cipher'' \<noteq> Some (JString ''aes-256-gcm'')
                   \<or> field v ''memberIndex'' \<noteq> Some (JNumber (JInt memberIndex))
                then Inl (Error ''Committee state envelope is invalid'')
                else rbind (keyBytes keyHex) (\<lambda>key.
                  case gcm_open g key (base64_decode iv) (aad memberIndex) (base64_decode tag)
                         (base64_decode ciphertext) of
                    None \<Rightarrow> Inl (Error ''Unsupported state or unable to authenticate data'')
                  | Some plaintext \<Rightarrow>
                      rbind (json_parse (utf8_text plaintext)) (\<lambda>x. Inr (x, False)))
            | _ \<Rightarrow> Inl (Error ''Committee state envelope is invalid'')))"

section \<open>Envelopes\<close>

definition additionalData :: "int \<Rightarrow> byte list" where
  "additionalData memberIndex =
     utf8 (''nortia-committee-share'' @ [LF] @ ''member:'' @ int_str memberIndex @ [LF] @ ''network:solana-devnet'')"

definition b64_std :: "char \<Rightarrow> bool" where
  "b64_std c \<longleftrightarrow> is_alnum c \<or> c = CHR ''+'' \<or> c = CHR ''/''"

text \<open>\<open>/^[A-Za-z0-9+/]+={0,2}$/\<close>.\<close>

definition base64_syntax :: "string \<Rightarrow> bool" where
  "base64_syntax s \<longleftrightarrow>
     (let body = takeWhile b64_std s in body \<noteq> [] \<and> drop (length body) s \<in> {[], ''='', ''==''})"

definition canonicalBase64 :: "json option \<Rightarrow> string \<Rightarrow> nat option \<Rightarrow> nat \<Rightarrow> byte list res" where
  "canonicalBase64 v name expectedLength maximumLength =
     (case string_of v of
        None \<Rightarrow> Inl (Error (name @ '' must be base64''))
      | Some s \<Rightarrow>
          if \<not> base64_syntax s then Inl (Error (name @ '' must be base64''))
          else let bytes = base64_decode s in
               if base64_encode bytes \<noteq> s \<or> length bytes > maximumLength
                  \<or> (case expectedLength of None \<Rightarrow> False | Some n \<Rightarrow> length bytes \<noteq> n)
               then Inl (Error (name @ '' has an invalid length or encoding'')) else Inr bytes)"

definition checkedMemberIndex :: "json option \<Rightarrow> int res" where
  "checkedMemberIndex v =
     (case v of
        Some (JNumber (JInt i)) \<Rightarrow>
          if i = 1 \<or> i = 2 \<or> i = 3 then Inr i else Inl (Error ''memberIndex must be 1, 2, or 3'')
      | _ \<Rightarrow> Inl (Error ''memberIndex must be 1, 2, or 3''))"

text \<open>
  Web Crypto: RSA-OAEP under a key in JSON form, AES-GCM with the tag appended, and random bytes.
\<close>

record 'x webcrypto =
  wc_random :: "nat \<Rightarrow> ('x, byte list) outside"
  wc_rsa_encrypt :: "json \<Rightarrow> byte list \<Rightarrow> ('x, byte list) outside"
  wc_rsa_decrypt :: "json \<Rightarrow> byte list \<Rightarrow> byte list res"
  wc_aes_encrypt :: "byte list \<Rightarrow> byte list \<Rightarrow> byte list \<Rightarrow> byte list \<Rightarrow> byte list"
  wc_aes_decrypt :: "byte list \<Rightarrow> byte list \<Rightarrow> byte list \<Rightarrow> byte list \<Rightarrow> byte list res"

definition envelope_json :: "int \<Rightarrow> byte list \<Rightarrow> byte list \<Rightarrow> byte list \<Rightarrow> json" where
  "envelope_json memberIndex wrappedKey iv ciphertext =
     JObject [(''memberIndex'', JNumber (JInt memberIndex)), (''wrappedKey'', JString (base64_encode wrappedKey)),
       (''iv'', JString (base64_encode iv)), (''ciphertext'', JString (base64_encode ciphertext))]"

definition sealCommitteeShare :: "'x webcrypto \<Rightarrow> json \<Rightarrow> json \<Rightarrow> int \<Rightarrow> ('x, json) outside" where
  "sealCommitteeShare W v publicJwk memberIndex =
     io_bind (wc_random W 32) (\<lambda>rawKey.
     io_bind (wc_random W 12) (\<lambda>iv.
     io_bind (wc_rsa_encrypt W publicJwk rawKey) (\<lambda>wrappedKey.
       io_return (envelope_json memberIndex wrappedKey iv
         (wc_aes_encrypt W rawKey iv (additionalData memberIndex) (utf8 (stringify v)))))))"

definition openCommitteeShare :: "'x webcrypto \<Rightarrow> json \<Rightarrow> json \<Rightarrow> int \<Rightarrow> json res" where
  "openCommitteeShare W envelope privateJwk expectedMemberIndex =
     (if \<not> (is_object envelope \<or> array_of (Some envelope) \<noteq> None)
      then Inl (Error ''Encrypted committee envelope is required'')
      else
        rbind (checkedMemberIndex (field envelope ''memberIndex'')) (\<lambda>memberIndex.
          if memberIndex \<noteq> expectedMemberIndex
          then Inl (Error ''Encrypted share was sent to the wrong committee member'')
          else
            rbind (canonicalBase64 (field envelope ''wrappedKey'') ''wrappedKey'' (Some 256) 4096) (\<lambda>wrappedKey.
            rbind (canonicalBase64 (field envelope ''iv'') ''iv'' (Some 12) 4096) (\<lambda>iv.
            rbind (canonicalBase64 (field envelope ''ciphertext'') ''ciphertext'' None 4096) (\<lambda>ciphertext.
            rbind (wc_rsa_decrypt W privateJwk wrappedKey) (\<lambda>rawKey.
            rbind (wc_aes_decrypt W rawKey iv (additionalData memberIndex) ciphertext) (\<lambda>plaintext.
              json_parse (utf8_text plaintext))))))))"

text \<open>\<open>readCommitteeEncryptionKey\<close> on the contents of the key file; the private and the public key.\<close>

definition jwk_kty :: "json option \<Rightarrow> json option" where
  "jwk_kty k = (case k of None \<Rightarrow> None | Some v \<Rightarrow> field v ''kty'')"

definition readCommitteeEncryptionKey :: "string \<Rightarrow> int \<Rightarrow> json res" where
  "readCommitteeEncryptionKey contents expectedMemberIndex =
     rbind (json_parse contents) (\<lambda>v.
       if v = JNull then Inl Type_Error
       else if field v ''format'' \<noteq> Some (JString ''nortia-committee-encryption-key'')
          \<or> field v ''memberIndex'' \<noteq> Some (JNumber (JInt expectedMemberIndex))
          \<or> jwk_kty (field v ''publicKey'') \<noteq> Some (JString ''RSA'')
          \<or> jwk_kty (field v ''privateKey'') \<noteq> Some (JString ''RSA'')
       then Inl (Error ''Committee encryption key file is invalid for this member'')
       else Inr v)"

section \<open>Delivery from the browser\<close>

definition truthy :: "json option \<Rightarrow> bool" where
  "truthy v =
     (case v of None \<Rightarrow> False | Some JNull \<Rightarrow> False | Some (JBool b) \<Rightarrow> b
      | Some (JNumber n) \<Rightarrow> n \<noteq> JInt 0 | Some (JString s) \<Rightarrow> s \<noteq> [] | Some _ \<Rightarrow> True)"

text \<open>\<open>new Error(value.error ?? message)\<close>.\<close>

definition error_or :: "json \<Rightarrow> string \<Rightarrow> error" where
  "error_or v message =
     Error (case json_or (field v ''error'') None of Some e \<Rightarrow> js_String e | None \<Rightarrow> message)"

record CommitteeShareDelivery =
  sd_market :: string
  sd_orderIndex :: int
  sd_orderCommitment :: string
  sd_memberIndex :: int
  sd_sideShare :: string
  sd_yesAmountShare :: string
  sd_totalAmountShare :: string
  sd_salt :: string
  sd_expectedShareCommitment :: string
  sd_placementSignature :: string

definition delivery_json :: "CommitteeShareDelivery \<Rightarrow> json" where
  "delivery_json d = JObject
     [(''market'', JString (sd_market d)), (''orderIndex'', JNumber (JInt (sd_orderIndex d))),
      (''orderCommitment'', JString (sd_orderCommitment d)), (''memberIndex'', JNumber (JInt (sd_memberIndex d))),
      (''sideShare'', JString (sd_sideShare d)), (''yesAmountShare'', JString (sd_yesAmountShare d)),
      (''totalAmountShare'', JString (sd_totalAmountShare d)), (''salt'', JString (sd_salt d)),
      (''expectedShareCommitment'', JString (sd_expectedShareCommitment d)),
      (''placementSignature'', JString (sd_placementSignature d))]"

text \<open>The platform's \<open>fetch\<close> with a method and a body, answering status and text.\<close>

type_synonym 'x fetch_body = "string \<Rightarrow> string \<Rightarrow> string \<Rightarrow> ('x, int \<times> string) outside"

text \<open>The cached request of the keys: nothing on failure, so that the next call asks again.\<close>

definition checkKeys :: "json list \<Rightarrow> json list res" where
  "checkKeys keys =
     rbind (rmap_list (\<lambda>(index, key).
        if key = JNull then Inl Type_Error
        else if field key ''memberIndex'' \<noteq> Some (JNumber (JInt (int index + 1)))
             \<or> jwk_kty (field key ''publicKey'') \<noteq> Some (JString ''RSA'')
        then Inl (Error ''Committee encryption key set is invalid'') else Inr ())
       (zip [0..<length keys] keys)) (\<lambda>_. Inr keys)"

definition keys_of_response :: "int \<times> string \<Rightarrow> json list res" where
  "keys_of_response r =
     (case r of (status, body) \<Rightarrow>
       rbind (json_parse body) (\<lambda>v.
         if v = JNull then Inl Type_Error
         else case array_of (field v ''keys'') of
           Some keys \<Rightarrow>
             if \<not> response_ok status \<or> length keys \<noteq> 3
             then Inl (error_or v ''Committee encryption keys are unavailable'')
             else checkKeys keys
         | None \<Rightarrow> Inl (error_or v ''Committee encryption keys are unavailable'')))"

definition committeeKeys :: "'x fetch_body \<Rightarrow> (json list option \<times> 'x, json list) io" where
  "committeeKeys fetch = (\<lambda>(cache, x).
     case cache of
       Some keys \<Rightarrow> (Inr keys, (cache, x))
     | None \<Rightarrow>
         (case fetch ''GET'' ''/api/committee/shares'' [] x of
            (Inl e, x') \<Rightarrow> (Inl e, (None, x'))
          | (Inr r, x') \<Rightarrow>
              (case keys_of_response r of
                 Inl e \<Rightarrow> (Inl e, (None, x'))
               | Inr keys \<Rightarrow> (Inr keys, (Some keys, x')))))"

definition encryptShare :: "'x webcrypto \<Rightarrow> CommitteeShareDelivery \<Rightarrow> json \<Rightarrow> ('x, json) outside" where
  "encryptShare W d key =
     (if field key ''memberIndex'' \<noteq> Some (JNumber (JInt (sd_memberIndex d)))
      then io_throw (Error ''Committee share and encryption key do not match'')
      else
        io_bind (wc_random W 32) (\<lambda>rawKey.
        io_bind (wc_random W 12) (\<lambda>iv.
        io_bind (wc_rsa_encrypt W (case field key ''publicKey'' of Some k \<Rightarrow> k | None \<Rightarrow> JNull) rawKey) (\<lambda>wrappedKey.
          io_return (envelope_json (sd_memberIndex d) wrappedKey iv
            (wc_aes_encrypt W rawKey iv (additionalData (sd_memberIndex d)) (utf8 (stringify (delivery_json d)))))))))"

definition lift_cache :: "('x, 'a) outside \<Rightarrow> (json list option \<times> 'x, 'a) io" where
  "lift_cache m = (\<lambda>(cache, x). case m x of (r, x') \<Rightarrow> (r, (cache, x')))"

definition deliverCommitteeShares ::
    "'x webcrypto \<Rightarrow> 'x fetch_body \<Rightarrow> CommitteeShareDelivery list \<Rightarrow> (json list option \<times> 'x, unit) io" where
  "deliverCommitteeShares W fetch shares =
     (if length shares \<noteq> 3 \<or> map sd_memberIndex shares \<noteq> [1, 2, 3]
      then io_throw (Error ''Exactly three ordered committee shares are required'')
      else
        io_bind (committeeKeys fetch) (\<lambda>keys.
        io_bind (lift_cache (io_map (\<lambda>(d, key). encryptShare W d key) (zip shares keys))) (\<lambda>envelopes.
        io_bind (lift_cache (fetch ''POST'' ''/api/committee/shares''
            (stringify (JObject [(''envelopes'', JArray envelopes)])))) (\<lambda>(status, body).
        io_bind (io_lift (json_parse body)) (\<lambda>v.
          if v = JNull then io_throw Type_Error
          else if \<not> response_ok status \<or> \<not> truthy (field v ''accepted'')
          then io_throw (error_or v ''Committee delivery failed'')
          else io_return ())))))"

section \<open>Lemmas\<close>

lemma b64_std_char: "0 \<le> i \<Longrightarrow> i < 64 \<Longrightarrow> b64_std (b64_char i)"
proof -
  assume i: "0 \<le> i" "i < 64"
  then have c: "char_code (b64_char i) = (if i < 26 then 65 + i else if i < 52 then 71 + i
      else if i < 62 then i - 4 else if i = 62 then 43 else 47)"
    by (simp add: b64_char_def)
  have p: "char_code CHR ''+'' = 43" "char_code CHR ''/'' = 47" by code_simp+
  show "b64_std (b64_char i)"
  proof (cases "i < 62")
    case True
    with c i show ?thesis by (auto simp: b64_std_def is_alnum_def Let_def split: if_splits)
  next
    case False
    with i have "i = 62 \<or> i = 63" by auto
    with c p show ?thesis by (auto simp: b64_std_def simp flip: char_code_inject)
  qed
qed

lemma b64_std_sextet: "0 \<le> i \<and> i < 64 \<Longrightarrow> b64_std (b64_char i)"
  by (simp add: b64_std_char)

lemma base64_shape:
  "\<exists>body pad. base64_encode bs = body @ pad \<and> list_all b64_std body \<and> pad \<in> {[], ''='', ''==''}
     \<and> (bs \<noteq> [] \<longrightarrow> body \<noteq> [])"
proof (induction bs rule: base64_encode.induct)
  case (1 a b c r)
  then obtain body pad where r: "base64_encode r = body @ pad" "list_all b64_std body" "pad \<in> {[], ''='', ''==''}"
    by blast
  note t = triple_sextets [OF n24_range [of a b c]]
  let ?n = "n24 a b c"
  let ?x = "[b64_char (?n div 262144), b64_char (?n div 4096 mod 64), b64_char (?n div 64 mod 64), b64_char (?n mod 64)]"
  have "base64_encode (a # b # c # r) = (?x @ body) @ pad" by (simp add: n24_def Let_def r(1))
  moreover have "list_all b64_std (?x @ body)"
    using r(2) b64_std_sextet [OF t(1)] b64_std_sextet [OF t(2)] b64_std_sextet [OF t(3)] b64_std_sextet [OF t(4)]
    by (simp only: append.simps list.pred_inject simp_thms)
  ultimately show ?case using r(3) by blast
next
  case (2 a b)
  note t = triple_sextets [OF n24_range [of a b 0]]
  let ?n = "n24 a b 0"
  let ?x = "[b64_char (?n div 262144), b64_char (?n div 4096 mod 64), b64_char (?n div 64 mod 64)]"
  have "base64_encode [a, b] = ?x @ ''=''" by (simp add: n24_def Let_def)
  moreover have "list_all b64_std ?x"
    using b64_std_sextet [OF t(1)] b64_std_sextet [OF t(2)] b64_std_sextet [OF t(3)]
    by (simp only: list.pred_inject simp_thms)
  ultimately show ?case by blast
next
  case (3 a)
  note t = triple_sextets [OF n24_range [of a 0 0]]
  let ?n = "n24 a 0 0"
  let ?x = "[b64_char (?n div 262144), b64_char (?n div 4096 mod 64)]"
  have "base64_encode [a] = ?x @ ''==''" by (simp add: n24_def Let_def)
  moreover have "list_all b64_std ?x"
    using b64_std_sextet [OF t(1)] b64_std_sextet [OF t(2)] by (simp only: list.pred_inject simp_thms)
  ultimately show ?case by blast
next
  case 4
  show ?case by (intro exI [of _ "[]"]) simp
qed

lemma base64_syntax_encode:
  assumes "bs \<noteq> []"
  shows "base64_syntax (base64_encode bs)"
proof -
  obtain body pad where b: "base64_encode bs = body @ pad" "list_all b64_std body" "pad \<in> {[], ''='', ''==''}"
    "body \<noteq> []"
    using base64_shape [of bs] assms by blast
  have "\<not> b64_std CHR ''=''" by code_simp
  then have "takeWhile b64_std pad = []" using b(3) by auto
  then have "takeWhile b64_std (body @ pad) = body" using b(2) by (simp add: takeWhile_append2 list_all_iff)
  with b show ?thesis by (simp add: base64_syntax_def)
qed

lemma canonicalBase64_encode:
  assumes "bs \<noteq> []" "length bs \<le> m" "n = None \<or> n = Some (length bs)"
  shows "canonicalBase64 (Some (JString (base64_encode bs))) name n m = Inr bs"
  using assms base64_syntax_encode [OF assms(1)] by (auto simp: canonicalBase64_def)

lemma hex_key: "is_hex_any k \<Longrightarrow> \<exists>bs. keyBytes k = Inr bs"
  by (simp add: keyBytes_def)

lemma sealed_value_opens:
  assumes "gcm_ok g" "plain v" "i \<in> {1, 2, 3}" "sealCommitteeState g iv v keyHex i = Inr contents"
  shows "openCommitteeState g contents keyHex i = Inr (v, False)"
    and "(\<forall>j. j \<noteq> i \<longrightarrow> openCommitteeState g contents keyHex j
         = Inl (Error ''Committee state envelope is invalid''))"
proof -
  obtain key where k: "keyBytes keyHex = Inr key" using assms(4) by (auto simp: sealCommitteeState_def)
  let ?e = "gcm_seal g key iv (aad i) (utf8 (stringify v))"
  let ?s = "state_json i iv (snd ?e) (fst ?e)"
  have c: "contents = stringify ?s @ [LF]"
    using assms(4) k by (auto simp: sealCommitteeState_def split: prod.splits)
  have "plain ?s" using assms(3) by (auto simp: state_json_def map_ok_def)
  then have p: "json_parse contents = Inr ?s" unfolding c by (rule json_round_trip_line)
  have o: "gcm_open g key iv (aad i) (snd ?e) (fst ?e) = Some (utf8 (stringify v))"
    using assms(1) by (simp add: gcm_ok_def)
  show "openCommitteeState g contents keyHex i = Inr (v, False)"
    "(\<forall>j. j \<noteq> i \<longrightarrow> openCommitteeState g contents keyHex j
         = Inl (Error ''Committee state envelope is invalid''))"
    unfolding openCommitteeState_def p
    by (simp_all add: state_json_def map_get_def k o json_round_trip [OF assms(2)])
qed

section \<open>Properties\<close>


definition gcm_example :: gcm where
  "gcm_example = \<lparr>gcm_seal = (\<lambda>k iv aad p. (rev p, aad)),
     gcm_open = (\<lambda>k iv aad tag c. if tag = aad then Some (rev c) else None)\<rparr>"


text \<open>
  Claim C15. A share encrypted in the browser for a member's public key opens in that member's
  service to exactly the share that was sent, and only there: a service with another index refuses
  the envelope before it decrypts anything.
\<close>

theorem delivered_share_opens:
  assumes "encryptShare W d key x = (Inr envelope, x')" "sd_memberIndex d \<in> {1, 2, 3}"
    and "\<bar>sd_orderIndex d\<bar> < 2 ^ 1024"
    and random: "\<And>n x bs x'. wc_random W n x = (Inr bs, x') \<Longrightarrow> length bs = n"
    and rsa: "\<And>k x c x'. wc_rsa_encrypt W (case field key ''publicKey'' of Some j \<Rightarrow> j | None \<Rightarrow> JNull) k x = (Inr c, x')
      \<Longrightarrow> length c = 256 \<and> wc_rsa_decrypt W privateJwk c = Inr k"
    and aes: "\<And>k iv a p. wc_aes_decrypt W k iv a (wc_aes_encrypt W k iv a p) = Inr p
      \<and> length (wc_aes_encrypt W k iv a p) = length p + 16"
    and size: "length (utf8 (stringify (delivery_json d))) + 16 \<le> 4096"
  shows "openCommitteeShare W envelope privateJwk (sd_memberIndex d) = Inr (delivery_json d)
    \<and> (\<forall>j. j \<noteq> sd_memberIndex d \<longrightarrow> openCommitteeShare W envelope privateJwk j
         = Inl (Error ''Encrypted share was sent to the wrong committee member''))"
proof -
  let ?i = "sd_memberIndex d"
  have m: "field key ''memberIndex'' = Some (JNumber (JInt ?i))"
    using assms(1) by (auto simp: encryptShare_def io_throw_def split: if_splits)
  obtain rawKey iv c x1 x2 where r: "wc_random W 32 x = (Inr rawKey, x1)" "wc_random W 12 x1 = (Inr iv, x2)"
    "wc_rsa_encrypt W (case field key ''publicKey'' of Some j \<Rightarrow> j | None \<Rightarrow> JNull) rawKey x2 = (Inr c, x')"
    and e: "envelope = envelope_json ?i c iv
      (wc_aes_encrypt W rawKey iv (additionalData ?i) (utf8 (stringify (delivery_json d))))"
    using assms(1) unfolding encryptShare_def m
    by (auto simp: io_bind_def io_return_def split: prod.splits sum.splits)
  let ?c = "wc_aes_encrypt W rawKey iv (additionalData ?i) (utf8 (stringify (delivery_json d)))"
  have l: "length iv = 12" "length c = 256" "length ?c \<le> 4096" "?c \<noteq> []" "iv \<noteq> []" "c \<noteq> []"
    using random [OF r(2)] rsa [OF r(3)] aes [of rawKey iv "additionalData ?i" "utf8 (stringify (delivery_json d))"] size
    by (auto simp flip: length_greater_0_conv)
  have b: "canonicalBase64 (Some (JString (base64_encode c))) n (Some 256) 4096 = Inr c"
    "canonicalBase64 (Some (JString (base64_encode iv))) n (Some 12) 4096 = Inr iv"
    "canonicalBase64 (Some (JString (base64_encode ?c))) n None 4096 = Inr ?c" for n
    using l by (simp_all add: canonicalBase64_encode)
  have i: "checkedMemberIndex (Some (JNumber (JInt ?i))) = Inr ?i"
    using assms(2) by (auto simp: checkedMemberIndex_def)
  have "plain (delivery_json d)"
    using assms(2,3) by (auto simp: delivery_json_def map_ok_def)
  with rsa [OF r(3)] aes [of rawKey iv "additionalData ?i" "utf8 (stringify (delivery_json d))"]
  show ?thesis unfolding openCommitteeShare_def e envelope_json_def
    by (simp add: map_get_def b i json_round_trip)
qed

definition crypto_example :: "unit webcrypto" where
  "crypto_example = \<lparr>wc_random = (\<lambda>n. io_return (replicate n 5)),
     wc_rsa_encrypt = (\<lambda>k m. if length m \<le> 255 then io_return (word_of_nat (length m) # m @ replicate (255 - length m) 0)
        else io_throw Range_Error),
     wc_rsa_decrypt = (\<lambda>k c. Inr (take (unat (hd c)) (tl c))),
     wc_aes_encrypt = (\<lambda>k iv a p. p @ replicate 16 0),
     wc_aes_decrypt = (\<lambda>k iv a c. Inr (take (length c - 16) c))\<rparr>"

definition delivery_example :: CommitteeShareDelivery where
  "delivery_example = \<lparr>sd_market = ''m'', sd_orderIndex = 3, sd_orderCommitment = ''0x12'', sd_memberIndex = 2,
     sd_sideShare = ''0x1'', sd_yesAmountShare = ''0x2'', sd_totalAmountShare = ''0x3'', sd_salt = ''0x4'',
     sd_expectedShareCommitment = ''0x5'', sd_placementSignature = ''sig''\<rparr>"

definition key_example :: json where
  "key_example = JObject [(''memberIndex'', JNumber (JInt 2)), (''publicKey'', JObject [(''kty'', JString ''RSA'')])]"

theorem delivered_share_opens_witness:
  "\<exists>envelope. encryptShare crypto_example delivery_example key_example () = (Inr envelope, ())
     \<and> openCommitteeShare crypto_example envelope JNull 2 = Inr (delivery_json delivery_example)"
proof -
  have m: "field key_example ''memberIndex'' = Some (JNumber (JInt (sd_memberIndex delivery_example)))"
    by (simp add: key_example_def delivery_example_def map_get_def)
  obtain envelope where e: "encryptShare crypto_example delivery_example key_example () = (Inr envelope, ())"
    by (simp add: encryptShare_def m) (simp add: crypto_example_def io_bind_def io_return_def)
  have size: "length (utf8 (stringify (delivery_json delivery_example))) + 16 \<le> 4096" by code_simp
  have "openCommitteeShare crypto_example envelope JNull (sd_memberIndex delivery_example)
      = Inr (delivery_json delivery_example)"
    by (rule conjunct1 [OF delivered_share_opens [OF e _ _ _ _ _ size]])
      (auto simp: crypto_example_def delivery_example_def io_return_def io_throw_def unat_of_nat split: if_splits)
  with e show ?thesis by (auto simp: delivery_example_def)
qed

end
