(* ===== verification/EffectLogic.thy ===== *)
theory EffectLogic
  imports Effects
begin

text \<open>
  Weakest preconditions for programs with effects: \<open>wp m Q R s\<close> says that \<open>m\<close> started in \<open>s\<close>
  ends in a state satisfying \<open>Q\<close> of the value it returns, or \<open>R\<close> of the error it throws.  The rules
  compute the precondition of a program from its parts, so that the simplifier runs through a
  handler; \<open>keeps\<close> is an invariant kept on both ways out.
\<close>

text \<open>A chain of checks has returned: what each of them established.\<close>

lemma check_Inr:
  "(if b then Inl e else m) = Inr x \<longleftrightarrow> \<not> b \<and> m = Inr x"
  "(case v of None \<Rightarrow> Inl e | Some y \<Rightarrow> f y) = Inr x \<longleftrightarrow> (\<exists>y. v = Some y \<and> f y = Inr x)"
  by (auto split: option.splits)

definition wp :: "('s, 'a) io \<Rightarrow> ('a \<Rightarrow> 's \<Rightarrow> bool) \<Rightarrow> (error \<Rightarrow> 's \<Rightarrow> bool) \<Rightarrow> 's \<Rightarrow> bool" where
  "wp m Q R s = (case m s of (Inl e, s') \<Rightarrow> R e s' | (Inr x, s') \<Rightarrow> Q x s')"

named_theorems wp_rules \<open>weakest preconditions of the parts of a program\<close>

lemma wp_return [wp_rules]: "wp (io_return x) Q R = Q x"
  by (rule ext) (simp add: wp_def io_return_def)

lemma wp_throw [wp_rules]: "wp (io_throw e) Q R = R e"
  by (rule ext) (simp add: wp_def io_throw_def)

lemma wp_lift [wp_rules]: "wp (io_lift r) Q R s = (case r of Inl e \<Rightarrow> R e s | Inr x \<Rightarrow> Q x s)"
  by (simp add: wp_def io_lift_def)

lemma wp_bind [wp_rules]: "wp (io_bind m f) Q R = wp m (\<lambda>x. wp (f x) Q R) R"
  by (rule ext) (simp add: wp_def io_bind_def split: prod.split sum.split)

lemma wp_catch [wp_rules]: "wp (io_catch m h) Q R = wp m Q (\<lambda>e. wp (h e) Q R)"
  by (rule ext) (simp add: wp_def io_catch_def split: prod.split sum.split)

lemma wp_guard [wp_rules]: "wp (io_guard b message) Q R s = (if b then R (Error message) s else Q () s)"
  by (simp add: io_guard_def wp_return wp_throw)

lemma wp_if [wp_rules]: "wp (if b then m else n) Q R s = (if b then wp m Q R s else wp n Q R s)"
  by simp

text \<open>A step on the state given as a function.\<close>

lemma wp_step [wp_rules]:
  "wp (\<lambda>s. (r s, f s)) Q R s = (case r s of Inl e \<Rightarrow> R e (f s) | Inr x \<Rightarrow> Q x (f s))"
  by (simp add: wp_def)

lemma wp_option_step [wp_rules]:
  "wp (\<lambda>s. case h s of None \<Rightarrow> (Inl e, s) | Some t \<Rightarrow> (Inr x, g t s)) Q R s
     = (case h s of None \<Rightarrow> R e s | Some t \<Rightarrow> Q x (g t s))"
  by (simp add: wp_def split: option.split)

lemma wp_mono:
  assumes "wp m Q R s" "\<And>x s. Q x s \<Longrightarrow> Q' x s" "\<And>e s. R e s \<Longrightarrow> R' e s"
  shows "wp m Q' R' s"
  using assms by (auto simp: wp_def split: prod.splits sum.splits)

lemma wp_conj: "wp m Q R s \<Longrightarrow> wp m Q' R' s \<Longrightarrow> wp m (\<lambda>x s. Q x s \<and> Q' x s) (\<lambda>e s. R e s \<and> R' e s) s"
  by (auto simp: wp_def split: prod.splits sum.splits)

lemma wpD: "wp m Q R s \<Longrightarrow> m s = (Inr x, s') \<Longrightarrow> Q x s'"
  by (simp add: wp_def)

lemma wp_errorD: "wp m Q R s \<Longrightarrow> m s = (Inl e, s') \<Longrightarrow> R e s'"
  by (simp add: wp_def)

lemma io_throw_Inr: "io_throw e s = (Inr x, s') \<longleftrightarrow> False"
  by (simp add: io_throw_def)

definition keeps :: "('s \<Rightarrow> bool) \<Rightarrow> ('s, 'a) io \<Rightarrow> bool" where
  "keeps I m \<longleftrightarrow> (\<forall>s. I s \<longrightarrow> wp m (\<lambda>_. I) (\<lambda>_. I) s)"

named_theorems keeps_intros \<open>invariants of the parts of a program\<close>

lemma keepsD: "keeps I m \<Longrightarrow> I s \<Longrightarrow> I (snd (m s))"
  by (cases "m s"; cases "fst (m s)") (fastforce simp: keeps_def wp_def)+

lemma keepsI: "(\<And>s. I s \<Longrightarrow> wp m (\<lambda>_. I) (\<lambda>_. I) s) \<Longrightarrow> keeps I m"
  by (simp add: keeps_def)

lemma keeps_return [keeps_intros]: "keeps I (io_return x)"
  by (simp add: keeps_def wp_rules)

lemma keeps_throw [keeps_intros]: "keeps I (io_throw e)"
  by (simp add: keeps_def wp_rules)

lemma keeps_lift [keeps_intros]: "keeps I (io_lift r)"
  by (simp add: keeps_def wp_rules split: sum.split)

lemma keeps_guard [keeps_intros]: "keeps I (io_guard b message)"
  by (simp add: keeps_def wp_rules)

lemma keeps_bind [keeps_intros]: "keeps I m \<Longrightarrow> (\<And>x. keeps I (f x)) \<Longrightarrow> keeps I (io_bind m f)"
  unfolding keeps_def by (auto simp: wp_rules elim!: wp_mono)

lemma keeps_catch [keeps_intros]: "keeps I m \<Longrightarrow> (\<And>e. keeps I (h e)) \<Longrightarrow> keeps I (io_catch m h)"
  unfolding keeps_def by (auto simp: wp_rules elim!: wp_mono)

lemma keeps_if [keeps_intros]: "(b \<Longrightarrow> keeps I m) \<Longrightarrow> (\<not> b \<Longrightarrow> keeps I n) \<Longrightarrow> keeps I (if b then m else n)"
  by simp

lemma keeps_for: "(\<And>x. keeps I (f x)) \<Longrightarrow> keeps I (io_for f xs)"
  by (induction xs) (auto intro!: keeps_intros)

text \<open>After a silent part the rest may rely on the value that part returned.\<close>

lemma sends_after_value:
  assumes "silent m" "\<And>w x w'. m w = (Inr x, w') \<Longrightarrow> sends P (f x)"
  shows "sends P (io_bind m f)"
  unfolding sends_def
proof
  fix w
  obtain r w1 where m: "m w = (r, w1)" by fastforce
  with assms(1) have w1: "w_sent w1 = w_sent w" unfolding silent_def by (metis snd_conv)
  show "w_sent (snd (io_bind m f w)) = w_sent w \<or> (\<exists>t. P t \<and> w_sent (snd (io_bind m f w)) = w_sent w @ [t])"
  proof (cases r)
    case (Inl e)
    with m w1 show ?thesis by (simp add: io_bind_def)
  next
    case (Inr x)
    have b: "io_bind m f w = f x w1" using m Inr by (simp add: io_bind_def)
    have "sends P (f x)" using assms(2) m Inr by blast
    then show ?thesis unfolding b sends_def w1 [symmetric] by blast
  qed
qed

end
