(* ===== verification/CommitteeServer.thy ===== *)
theory CommitteeServer
  imports Committee CommitteeCrypto EffectLogic
begin

text \<open>
  The service of one committee member, \<open>services/src/committee/server.ts\<close>: its state in memory and
  on disk, the start from the stored file, the check of a share against the chain and the request
  handler.

  Parameters are the URL parser, public keys and program addresses, the RPC node with its account
  decoders, the clock, the cryptography of \<open>CommitteeCrypto\<close> and the outcome of the disk
  operations.  A share is read at its declared type: a body whose market, order index, member index
  or signature has another JSON type is refused when it is decoded, where the code refuses it a
  few checks later.
\<close>

section \<open>Shares and aggregates on the wire\<close>

text \<open>\<open>BigInt(value)\<close> on a property that may be absent.\<close>

fun json_BigInt :: "json option \<Rightarrow> int res" where
  "json_BigInt None = Inl Type_Error"
| "json_BigInt (Some JNull) = Inl Type_Error"
| "json_BigInt (Some (JBool b)) = Inr (if b then 1 else 0)"
| "json_BigInt (Some (JNumber n)) = (case n of JInt i \<Rightarrow> Inr i | JNonInt \<Rightarrow> Inl Range_Error)"
| "json_BigInt (Some v) = js_BigInt (js_String v)"

definition fieldBytes :: "int \<Rightarrow> byte list res" where
  "fieldBytes v =
     (if v < 0 then Inl (Error ''Field values must be non-negative'')
      else Inr (hex_bytes (padStart 64 CHR ''0'' (toString_radix 16 v))))"

definition encode :: "CommitteeShare \<Rightarrow> json" where
  "encode s = JObject
     [(''market'', JString (cs_market s)), (''orderIndex'', JNumber (cs_orderIndex s)),
      (''orderCommitment'', JString (int_str (cs_orderCommitment s))),
      (''memberIndex'', JNumber (JInt (cs_memberIndex s))),
      (''sideShare'', JString (int_str (cs_sideShare s))),
      (''yesAmountShare'', JString (int_str (cs_yesAmountShare s))),
      (''totalAmountShare'', JString (int_str (cs_totalAmountShare s))),
      (''salt'', JString (int_str (cs_salt s))),
      (''expectedShareCommitment'', JString (int_str (cs_expectedShareCommitment s))),
      (''placementSignature'', JString (cs_placementSignature s))]"

definition typed :: "'a option \<Rightarrow> 'a res" where
  "typed v = (case v of None \<Rightarrow> Inl Type_Error | Some x \<Rightarrow> Inr x)"

fun num_value :: "json option \<Rightarrow> int option" where
  "num_value (Some (JNumber (JInt i))) = Some i"
| "num_value _ = None"

definition decode :: "json \<Rightarrow> CommitteeShare res" where
  "decode v =
     rbind (json_BigInt (field v ''orderCommitment'')) (\<lambda>orderCommitment.
     rbind (json_BigInt (field v ''sideShare'')) (\<lambda>sideShare.
     rbind (json_BigInt (field v ''yesAmountShare'')) (\<lambda>yesAmountShare.
     rbind (json_BigInt (field v ''totalAmountShare'')) (\<lambda>totalAmountShare.
     rbind (json_BigInt (field v ''salt'')) (\<lambda>salt.
     rbind (json_BigInt (field v ''expectedShareCommitment'')) (\<lambda>expectedShareCommitment.
     rbind (typed (string_of (field v ''market''))) (\<lambda>market.
     rbind (typed (num_of (field v ''orderIndex''))) (\<lambda>orderIndex.
     rbind (typed (num_value (field v ''memberIndex''))) (\<lambda>memberIndex.
     rbind (typed (string_of (field v ''placementSignature''))) (\<lambda>placementSignature.
       Inr \<lparr>cs_market = market, cs_orderIndex = orderIndex, cs_orderCommitment = orderCommitment,
            cs_memberIndex = memberIndex, cs_sideShare = sideShare, cs_yesAmountShare = yesAmountShare,
            cs_totalAmountShare = totalAmountShare, cs_salt = salt,
            cs_expectedShareCommitment = expectedShareCommitment,
            cs_placementSignature = placementSignature\<rparr>))))))))))"

definition encodeAggregate :: "CommitteeAggregate \<Rightarrow> json" where
  "encodeAggregate a = JObject
     [(''market'', JString (ca_market a)), (''memberIndex'', JNumber (JInt (ca_memberIndex a))),
      (''orderCount'', JNumber (JInt (int (ca_orderCount a)))),
      (''aggregateSideShare'', JString (int_str (ca_sideShare a))),
      (''aggregateYesAmountShare'', JString (int_str (ca_yesAmountShare a))),
      (''aggregateTotalAmountShare'', JString (int_str (ca_totalAmountShare a))),
      (''orderCommitments'', JArray (map (\<lambda>c. JString (int_str c)) (ca_orderCommitments a)))]"

section \<open>The service and its environment\<close>

record OrderAccount =
  oc_market :: pubkey
  oc_order_index :: int
  oc_commitment :: "int list"
  oc_share_commitments :: "int list list"

record MarketAccount =
  ma_lock_ts :: int
  ma_batch_deadline_ts :: int
  ma_order_count :: int
  ma_phase :: "(string \<times> json) list"

text \<open>Of a confirmed transaction: its meta data, with whether it failed and its log.\<close>

record TransactionMeta =
  tm_err :: bool
  tm_logMessages :: "string list option"

datatype disk_operation = Make_directory | Write_temporary | Rename_temporary

record 'x server_env =
  sv_token :: "string option"
  sv_stateKey :: "string option"
  sv_encryptionKey :: "string option"
  sv_memberIndex :: int
  sv_hash :: hash2
  sv_gcm :: gcm
  sv_iv :: "('x, byte list) outside"
  sv_webcrypto :: "'x webcrypto"
  sv_pathname :: "string \<Rightarrow> string \<Rightarrow> string res"
  sv_program :: pubkey
  sv_key :: "string \<Rightarrow> pubkey res"
  sv_derive :: "byte list list \<Rightarrow> pubkey \<Rightarrow> pubkey res"
  sv_account :: "pubkey \<Rightarrow> ('x, (pubkey \<times> byte list) option) outside"
  sv_order :: "byte list \<Rightarrow> OrderAccount res"
  sv_market :: "byte list \<Rightarrow> MarketAccount res"
  sv_toNumber :: "int \<Rightarrow> int res"
  sv_transaction :: "string \<Rightarrow> ('x, TransactionMeta option option) outside"
  sv_clockMs :: "('x, int) outside"
  sv_disk :: "disk_operation \<Rightarrow> ('x, unit) outside"

record 'x server =
  sr_member :: CommitteeMember
  sr_markets :: "string list"
  sr_file :: "string option"
  sr_temporary :: "string option"
  sr_rest :: 'x

definition ask :: "('x, 'a) outside \<Rightarrow> ('x server, 'a) io" where
  "ask m = (\<lambda>s. case m (sr_rest s) of (r, x) \<Rightarrow> (r, s\<lparr>sr_rest := x\<rparr>))"

definition get_member :: "('x server, CommitteeMember) io" where
  "get_member = (\<lambda>s. (Inr (sr_member s), s))"

definition set_member :: "CommitteeMember \<Rightarrow> ('x server, unit) io" where
  "set_member m = (\<lambda>s. (Inr (), s\<lparr>sr_member := m\<rparr>))"

definition set_markets :: "(string list \<Rightarrow> string list) \<Rightarrow> ('x server, unit) io" where
  "set_markets f = (\<lambda>s. (Inr (), s\<lparr>sr_markets := f (sr_markets s)\<rparr>))"

text \<open>\<open>add\<close> and \<open>delete\<close> of a \<open>Set\<close> in insertion order.\<close>

definition set_add :: "'a \<Rightarrow> 'a list \<Rightarrow> 'a list" where
  "set_add x xs = (if x \<in> set xs then xs else xs @ [x])"

definition set_delete :: "'a \<Rightarrow> 'a list \<Rightarrow> 'a list" where
  "set_delete x xs = filter (\<lambda>y. y \<noteq> x) xs"

section \<open>Writing and reading the state file\<close>

text \<open>
  \<open>persist\<close> in the three pieces between which the event loop may run other requests: the text is
  computed when the write starts, the write fills the temporary file, the rename replaces the
  state file.  What a failed write leaves in the temporary file is never read.
\<close>

definition state_value :: "CommitteeMember \<Rightarrow> string list \<Rightarrow> json" where
  "state_value m markets = JArray (map encode (concat (map (member_snapshot m) markets)))"

definition persist_text :: "'x server_env \<Rightarrow> ('x server, string) io" where
  "persist_text E =
     io_bind (ask (sv_iv E)) (\<lambda>iv s.
       (sealCommitteeState (sv_gcm E) iv (state_value (sr_member s) (sr_markets s))
          (case sv_stateKey E of Some k \<Rightarrow> k | None \<Rightarrow> []) (sv_memberIndex E), s))"

definition persist_write :: "'x server_env \<Rightarrow> string \<Rightarrow> ('x server, unit) io" where
  "persist_write E contents =
     io_bind (ask (sv_disk E Write_temporary)) (\<lambda>_ s. (Inr (), s\<lparr>sr_temporary := Some contents\<rparr>))"

definition persist_rename :: "'x server_env \<Rightarrow> ('x server, unit) io" where
  "persist_rename E =
     io_bind (ask (sv_disk E Rename_temporary)) (\<lambda>_ s.
       case sr_temporary s of
         None \<Rightarrow> (Inl (Error ''ENOENT: no such file or directory''), s)
       | Some t \<Rightarrow> (Inr (), s\<lparr>sr_file := Some t, sr_temporary := None\<rparr>))"

definition persist :: "'x server_env \<Rightarrow> ('x server, unit) io" where
  "persist E =
     io_bind (ask (sv_disk E Make_directory)) (\<lambda>_.
     io_bind (persist_text E) (\<lambda>contents.
     io_bind (persist_write E contents) (\<lambda>_. persist_rename E)))"

text \<open>The start: configuration, key file, stored shares; no stored file is no error.\<close>

definition submit_stored :: "hash2 \<Rightarrow> CommitteeMember \<Rightarrow> json list \<Rightarrow> CommitteeMember res" where
  "submit_stored H m stored = rfold (\<lambda>m v. rbind (decode v) (member_submit H m)) m stored"

definition market_of :: "json \<Rightarrow> string" where
  "market_of v = (case string_of (field v ''market'') of Some m \<Rightarrow> m | None \<Rightarrow> [])"

definition restore :: "'x server_env \<Rightarrow> ('x server, unit) io" where
  "restore E = (\<lambda>s.
     case sr_file s of
       None \<Rightarrow> (Inr (), s)
     | Some contents \<Rightarrow>
         io_bind (io_lift (openCommitteeState (sv_gcm E) contents
             (case sv_stateKey E of Some k \<Rightarrow> k | None \<Rightarrow> []) (sv_memberIndex E))) (\<lambda>(v, legacy).
           case v of
             JArray stored \<Rightarrow>
               io_bind get_member (\<lambda>m.
               io_bind (io_lift (submit_stored (sv_hash E) m stored)) (\<lambda>m'.
               io_bind (set_member m') (\<lambda>_.
               io_bind (set_markets (\<lambda>ms. foldl (\<lambda>ms x. set_add (market_of x) ms) ms stored)) (\<lambda>_.
                 if legacy then persist E else io_return ()))))
           | _ \<Rightarrow> io_throw (Error ''Committee state payload is invalid'')) s)"

definition start :: "'x server_env \<Rightarrow> ('x server, json) io" where
  "start E =
     io_bind (io_guard (case sv_token E of None \<Rightarrow> True | Some t \<Rightarrow> length t < 24)
       ''COMMITTEE_API_TOKEN must be configured with at least 24 characters'') (\<lambda>_.
     io_bind (io_guard (case sv_stateKey E of None \<Rightarrow> True | Some k \<Rightarrow> \<not> is_hex_any k)
       ''COMMITTEE_STATE_KEY must be configured as 64 hex characters'') (\<lambda>_.
     case sv_encryptionKey E of
       None \<Rightarrow> io_throw (Error ''COMMITTEE_ENCRYPTION_KEY_PATH is required'')
     | Some keyFile \<Rightarrow>
         io_bind (set_member (newMember (sv_memberIndex E))) (\<lambda>_.
         io_bind (set_markets (\<lambda>_. [])) (\<lambda>_.
         io_bind (io_lift (readCommitteeEncryptionKey keyFile (sv_memberIndex E))) (\<lambda>encryptionKey.
         io_bind (restore E) (\<lambda>_. io_return encryptionKey))))))"

section \<open>Requests\<close>

record Request =
  rq_method :: string
  rq_url :: "string option"
  rq_host :: "string option"
  rq_authorization :: "string option"
  rq_body :: "byte list list"

definition MAX_BODY_BYTES :: nat where "MAX_BODY_BYTES = 64 * 1024"

definition authorized :: "'x server_env \<Rightarrow> Request \<Rightarrow> bool" where
  "authorized E request =
     (let expected = utf8 (''Bearer '' @ (case sv_token E of Some t \<Rightarrow> t | None \<Rightarrow> []));
          supplied = utf8 (case rq_authorization request of Some a \<Rightarrow> a | None \<Rightarrow> [])
      in length expected = length supplied \<and> length expected > 7 \<and> expected = supplied)"

text \<open>The loop over the chunks of the body.\<close>

definition bodyStep :: "byte list list \<times> nat \<Rightarrow> byte list \<Rightarrow> (byte list list \<times> nat) res" where
  "bodyStep st bytes =
     (case st of (chunks, count) \<Rightarrow>
       let count' = count + length bytes
       in if count' > MAX_BODY_BYTES then Inl (Error ''Request body is too large'')
          else Inr (chunks @ [bytes], count'))"

definition requestJson :: "Request \<Rightarrow> json res" where
  "requestJson request =
     rbind (rfold bodyStep ([], 0) (rq_body request)) (\<lambda>(chunks, count). json_parse (utf8_text (concat chunks)))"

text \<open>The status and the body of the response.\<close>

type_synonym response = "int \<times> string"

definition respond :: "int \<Rightarrow> json \<Rightarrow> ('x server, response) io" where
  "respond status v = io_return (status, stringify v @ [LF])"

definition program_account :: "'x server_env \<Rightarrow> pubkey \<Rightarrow> string \<Rightarrow> ('x server, byte list) io" where
  "program_account E address message =
     io_bind (ask (sv_account E address)) (\<lambda>info.
       case info of
         Some (owner, dat) \<Rightarrow>
           if owner = sv_program E then io_return dat else io_throw (Error message)
       | None \<Rightarrow> io_throw (Error message))"

definition INVOCATION :: string where
  "INVOCATION = ''Program 4S2EvdGrbKJ9zazvB4gtR83crTrVJWqqwoVVvEQy8VE9 invoke''"

definition check_order :: "'x server_env \<Rightarrow> CommitteeShare \<Rightarrow> pubkey \<Rightarrow> byte list \<Rightarrow> OrderAccount \<Rightarrow> unit res" where
  "check_order E share market commitment order =
     (if oc_market order \<noteq> market then Inl (Error ''Onchain order belongs to a different market'')
      else if JInt (oc_order_index order) \<noteq> cs_orderIndex share
      then Inl (Error ''Onchain order index does not match'')
      else if buffer_from (oc_commitment order) \<noteq> commitment
      then Inl (Error ''Onchain order commitment does not match'')
      else if cs_memberIndex share < 1 \<or> int (length (oc_share_commitments order)) < cs_memberIndex share
      then Inl (Error ''Onchain share commitment does not match this committee member'')
      else rbind (fieldBytes (cs_expectedShareCommitment share)) (\<lambda>expected.
        if buffer_from (oc_share_commitments order ! nat (cs_memberIndex share - 1)) \<noteq> expected
        then Inl (Error ''Onchain share commitment does not match this committee member'')
        else Inr ()))"

definition check_transaction :: "TransactionMeta option option \<Rightarrow> unit res" where
  "check_transaction transaction =
     (case transaction of
        None \<Rightarrow> Inl (Error ''Placement transaction is missing or failed'')
      | Some meta \<Rightarrow>
          if (case meta of Some m \<Rightarrow> tm_err m | None \<Rightarrow> False)
          then Inl (Error ''Placement transaction is missing or failed'')
          else case Option.bind meta tm_logMessages of
                 None \<Rightarrow> Inl (Error ''Placement transaction did not invoke Nortia'')
               | Some logs \<Rightarrow>
                   if list_ex (\<lambda>line. startsWith line INVOCATION) logs then Inr ()
                   else Inl (Error ''Placement transaction did not invoke Nortia''))"

definition verifyOnchainOrder :: "'x server_env \<Rightarrow> CommitteeShare \<Rightarrow> ('x server, unit) io" where
  "verifyOnchainOrder E share =
     io_bind (io_lift (sv_key E (cs_market share))) (\<lambda>market.
     io_bind (io_lift (fieldBytes (cs_orderCommitment share))) (\<lambda>commitment.
     io_bind (io_lift (sv_derive E [utf8 ''order'', market, commitment] (sv_program E))) (\<lambda>orderAddress.
     io_bind (program_account E orderAddress ''Onchain order account was not found'') (\<lambda>dat.
     io_bind (io_lift (sv_order E dat)) (\<lambda>order.
     io_bind (io_lift (check_order E share market commitment order)) (\<lambda>_.
     io_bind (ask (sv_transaction E (cs_placementSignature share))) (\<lambda>transaction.
       io_lift (check_transaction transaction))))))))"

text \<open>\<open>/^\/markets\/([^/]+)\/suffix$/\<close> on the path: the market part.\<close>

definition match_market :: "string \<Rightarrow> string \<Rightarrow> string option" where
  "match_market path suffix =
     (case split_char CHR ''/'' path of
        [a, b, m, c] \<Rightarrow> if a = [] \<and> b = ''markets'' \<and> m \<noteq> [] \<and> c = suffix then Some m else None
      | _ \<Rightarrow> None)"

definition market_account :: "'x server_env \<Rightarrow> string \<Rightarrow> ('x server, MarketAccount) io" where
  "market_account E marketValue =
     io_bind (io_lift (sv_key E marketValue)) (\<lambda>marketAddress.
     io_bind (program_account E marketAddress ''Onchain market account was not found'') (\<lambda>dat.
       io_lift (sv_market E dat)))"

definition is_open :: "MarketAccount \<Rightarrow> bool" where
  "is_open market \<longleftrightarrow> ''Open'' \<in> fst ` set (ma_phase market)"

definition handle_aggregate :: "'x server_env \<Rightarrow> string \<Rightarrow> ('x server, response) io" where
  "handle_aggregate E part =
     io_bind (io_lift (decodeURIComponent part)) (\<lambda>marketValue.
     io_bind (market_account E marketValue) (\<lambda>market.
     io_bind (io_guard (\<not> is_open market) ''Market is not open for batching'') (\<lambda>_.
     io_bind (ask (sv_clockMs E)) (\<lambda>nowMs.
     io_bind (io_lift (sv_toNumber E (ma_lock_ts market))) (\<lambda>lock.
     io_bind (io_guard (nowMs div 1000 < lock) ''Market is not locked yet'') (\<lambda>_.
     io_bind get_member (\<lambda>m.
       let localCount = length (member_snapshot m marketValue)
       in if localCount < MIN_PRIVATE_BATCH_ORDERS
          then respond 409 (JObject [(''error'', JString ''insufficient-privacy-set''),
                 (''orderCount'', JNumber (JInt (int localCount)))])
          else io_bind (io_lift (member_aggregate m marketValue)) (\<lambda>aggregate.
               io_bind (io_guard (int (ca_orderCount aggregate) \<noteq> ma_order_count market)
                 ''Committee member is missing accepted orders'') (\<lambda>_.
                 respond 200 (encodeAggregate aggregate))))))))))"

definition share_of_request :: "'x server_env \<Rightarrow> json \<Rightarrow> Request \<Rightarrow> CommitteeShare res" where
  "share_of_request E encryptionKey request =
     rbind (requestJson request) (\<lambda>envelope.
     rbind (openCommitteeShare (sv_webcrypto E) envelope
         (case field encryptionKey ''privateKey'' of Some k \<Rightarrow> k | None \<Rightarrow> JNull) (sv_memberIndex E)) decode)"

definition store_share :: "'x server_env \<Rightarrow> CommitteeShare \<Rightarrow> ('x server, response) io" where
  "store_share E share =
     io_bind get_member (\<lambda>m.
     io_bind (io_lift (member_submit (sv_hash E) m share)) (\<lambda>m'.
     io_bind (set_member m') (\<lambda>_.
     io_bind (set_markets (set_add (cs_market share))) (\<lambda>_.
     io_bind (persist E) (\<lambda>_.
       respond 202 (JObject [(''accepted'', JBool True), (''orderIndex'', JNumber (cs_orderIndex share))]))))))"

definition handle_share :: "'x server_env \<Rightarrow> json \<Rightarrow> Request \<Rightarrow> ('x server, response) io" where
  "handle_share E encryptionKey request =
     io_bind (io_lift (share_of_request E encryptionKey request)) (\<lambda>share.
     io_bind (io_guard (cs_memberIndex share \<noteq> sv_memberIndex E)
       ''Share was sent to the wrong member service'') (\<lambda>_.
     io_bind (verifyOnchainOrder E share) (\<lambda>_. store_share E share)))"

definition handle_purge :: "'x server_env \<Rightarrow> string \<Rightarrow> ('x server, response) io" where
  "handle_purge E part =
     io_bind (io_lift (decodeURIComponent part)) (\<lambda>marketValue.
     io_bind (market_account E marketValue) (\<lambda>market.
     io_bind (ask (sv_clockMs E)) (\<lambda>nowMs.
     io_bind (if is_open market
              then io_bind (io_lift (sv_toNumber E (ma_batch_deadline_ts market))) (\<lambda>deadline.
                io_guard (nowMs div 1000 \<le> deadline) ''Committee shares cannot be purged before batching closes'')
              else io_return ()) (\<lambda>_.
     io_bind get_member (\<lambda>m.
       case member_clearMarket m marketValue of (m', removed) \<Rightarrow>
         io_bind (set_member m') (\<lambda>_.
         io_bind (set_markets (set_delete marketValue)) (\<lambda>_.
         io_bind (persist E) (\<lambda>_. respond 200 (JObject [(''purged'', JBool removed)])))))))))"

definition route :: "'x server_env \<Rightarrow> json \<Rightarrow> Request \<Rightarrow> string \<Rightarrow> ('x server, response) io" where
  "route E encryptionKey request path =
     (if rq_method request = ''GET'' \<and> path = ''/health''
      then respond 200 (JObject [(''ok'', JBool True), (''memberIndex'', JNumber (JInt (sv_memberIndex E))),
             (''network'', JString ''solana-devnet'')])
      else if \<not> authorized E request then respond 401 (JObject [(''error'', JString ''Unauthorized'')])
      else if rq_method request = ''GET'' \<and> path = ''/encryption-key''
      then respond 200 (JObject [(''memberIndex'', JNumber (JInt (sv_memberIndex E))),
             (''publicKey'', case field encryptionKey ''publicKey'' of Some k \<Rightarrow> k | None \<Rightarrow> JNull)])
      else case (rq_method request = ''POST'', match_market path ''aggregate'') of
        (True, Some part) \<Rightarrow> handle_aggregate E part
      | _ \<Rightarrow>
          if rq_method request = ''POST'' \<and> path = ''/shares'' then handle_share E encryptionKey request
          else case (rq_method request = ''DELETE'', match_market path ''shares'') of
            (True, Some part) \<Rightarrow> handle_purge E part
          | _ \<Rightarrow> respond 404 (JObject [(''error'', JString ''Not found'')]))"

definition handler :: "'x server_env \<Rightarrow> json \<Rightarrow> Request \<Rightarrow> ('x server, response) io" where
  "handler E encryptionKey request =
     io_catch
       (io_bind (io_lift (sv_pathname E (case rq_url request of Some u \<Rightarrow> u | None \<Rightarrow> ''/'')
           (''http://'' @ (case rq_host request of Some h \<Rightarrow> h | None \<Rightarrow> ''localhost''))))
         (\<lambda>path. route E encryptionKey request path))
       (\<lambda>e. respond 400 (JObject [(''error'', JString (error_message e))]))"


text \<open>Requests one after the other.\<close>

definition serve :: "'x server_env \<Rightarrow> json \<Rightarrow> Request list \<Rightarrow> 'x server \<Rightarrow> 'x server" where
  "serve E encryptionKey requests s = foldl (\<lambda>s request. snd (handler E encryptionKey request s)) s requests"

section \<open>Lemmas\<close>

subsection \<open>The wire format\<close>

lemma decode_encode [simp]: "decode (encode s) = Inr s"
  by (simp add: decode_def encode_def map_get_def typed_def)

lemma market_of_encode [simp]: "market_of (encode s) = cs_market s"
  by (simp add: market_of_def encode_def map_get_def)

lemma safe_finite: "is_safe_integer n \<Longrightarrow> \<exists>i. n = JInt i \<and> \<bar>i\<bar> < 2 ^ 1024"
  by (cases n) (auto simp: safe_int_def MAX_SAFE_INTEGER_def)

lemma plain_encode:
  assumes "share_accepted H i s" "i \<in> {1, 2, 3}"
  shows "plain (encode s)"
proof -
  obtain j where "cs_orderIndex s = JInt j" "\<bar>j\<bar> < 2 ^ 1024"
    using assms(1) safe_finite by (auto simp: share_accepted_def)
  with assms show ?thesis by (auto simp: encode_def map_ok_def share_accepted_def)
qed

subsection \<open>Storing shares and reading them back\<close>

lemma submit_all:
  assumes "\<forall>s\<in>set xs. share_accepted H i s" "distinct (map share_key xs)"
  shows "\<exists>m. rfold (member_submit H) (newMember i) xs = Inr m \<and> cm_memberIndex m = i \<and> member_good m
    \<and> member_lookup m = map_of (map (\<lambda>s. (share_key s, s)) xs)"
  using assms
proof (induction xs rule: rev_induct)
  case Nil
  show ?case by (rule exI [of _ "newMember i"]) (auto simp: newMember_def member_lookup_def member_good_def)
next
  case (snoc s xs)
  then obtain m where m: "rfold (member_submit H) (newMember i) xs = Inr m" "cm_memberIndex m = i"
    "member_good m" "member_lookup m = map_of (map (\<lambda>s. (share_key s, s)) xs)" by auto
  have n: "member_lookup m (share_key s) = None"
    using snoc.prems(2) by (auto simp: m(4) map_of_eq_None_iff)
  obtain m' where m': "member_submit H m s = Inr m'"
    using member_submit_accepted [of H m s] snoc.prems(1) m(2) n by auto
  have "member_lookup m' = (member_lookup m)(share_key s \<mapsto> s)" "member_good m'"
    using member.submit_new [OF m(3) m' n] by simp_all
  moreover have "map_of (map (\<lambda>s. (share_key s, s)) (xs @ [s])) = (member_lookup m)(share_key s \<mapsto> s)"
    using n by (auto simp: m(4) map_add_def fun_eq_iff split: option.splits)
  ultimately show ?case
    using m m' member_submit_index [OF m'] by (simp add: rfold_append fun_upd_def)
qed

definition memory_good :: "'x server_env \<Rightarrow> CommitteeMember \<Rightarrow> string list \<Rightarrow> bool" where
  "memory_good E m markets \<longleftrightarrow>
     cm_memberIndex m = sv_memberIndex E \<and> member_good m \<and> distinct markets
     \<and> (\<forall>k s. member_lookup m k = Some s \<longrightarrow> share_accepted (sv_hash E) (sv_memberIndex E) s)
     \<and> (\<forall>k s. member_lookup m k = Some s \<longrightarrow> fst k \<in> set markets)"

definition env_ok :: "'x server_env \<Rightarrow> bool" where
  "env_ok E \<longleftrightarrow> gcm_ok (sv_gcm E) \<and> sv_memberIndex E \<in> {1, 2, 3}"

lemma member_lookup_key: "member_good m \<Longrightarrow> member_lookup m k = Some s \<Longrightarrow> share_key s = k"
  by (cases k) (auto simp: member_good_def member_lookup_def split: option.splits)

lemma snapshot_shares:
  assumes "member_good m"
  shows "s \<in> set (member_snapshot m mkt) \<longleftrightarrow> (\<exists>j. member_lookup m (mkt, j) = Some s)"
    and "distinct (map share_key (member_snapshot m mkt))"
proof -
  have "(s \<in> set (member_snapshot m mkt) \<longleftrightarrow> (\<exists>j. member_lookup m (mkt, j) = Some s))
    \<and> distinct (map share_key (member_snapshot m mkt))"
  proof (cases "map_get (cm_shares m) mkt")
    case None
    then show ?thesis by (simp add: member_snapshot_def member_lookup_def)
  next
    case (Some ms)
    with assms have ok: "map_ok ms" and key: "\<And>k s. map_get ms k = Some s \<Longrightarrow> share_key s = (mkt, k)"
      by (auto simp: member_good_def)
    have "map share_key (map_values ms) = map (\<lambda>k. (mkt, k)) (map fst ms)"
      using key ok by (auto simp: map_values_def map_get_def map_ok_def map_of_eq_Some_iff)
    with ok have "distinct (map share_key (map_values ms))" by (simp add: map_ok_def distinct_map inj_on_def)
    then have "distinct (map share_key (member_snapshot m mkt))"
      by (simp add: member_snapshot_def Some distinct_map)
    then show ?thesis using Some by (simp add: member_snapshot_def member_lookup_def map_values_iff [OF ok])
  qed
  then show "s \<in> set (member_snapshot m mkt) \<longleftrightarrow> (\<exists>j. member_lookup m (mkt, j) = Some s)"
    "distinct (map share_key (member_snapshot m mkt))" by blast+
qed

definition all_shares :: "CommitteeMember \<Rightarrow> string list \<Rightarrow> CommitteeShare list" where
  "all_shares m markets = concat (map (member_snapshot m) markets)"

lemma snapshot_key:
  assumes "member_good m" "s \<in> set (member_snapshot m mkt)"
  shows "fst (share_key s) = mkt"
proof -
  obtain j where "member_lookup m (mkt, j) = Some s" using assms snapshot_shares(1) by blast
  from member_lookup_key [OF assms(1) this] show ?thesis by simp
qed

lemma all_shares_iff:
  assumes "memory_good E m markets"
  shows "s \<in> set (all_shares m markets) \<longleftrightarrow> member_lookup m (share_key s) = Some s"
proof
  have g: "member_good m" using assms by (auto simp: memory_good_def)
  {
    assume "s \<in> set (all_shares m markets)"
    then obtain mkt where "s \<in> set (member_snapshot m mkt)" by (auto simp: all_shares_def)
    then obtain j where j: "member_lookup m (mkt, j) = Some s" using snapshot_shares(1) [OF g] by blast
    with member_lookup_key [OF g j] show "member_lookup m (share_key s) = Some s" by simp
  next
    assume l: "member_lookup m (share_key s) = Some s"
    then have "fst (share_key s) \<in> set markets" using assms unfolding memory_good_def by blast
    moreover have "s \<in> set (member_snapshot m (fst (share_key s)))"
      unfolding snapshot_shares(1) [OF g] using l by (intro exI [of _ "snd (share_key s)"]) simp
    ultimately show "s \<in> set (all_shares m markets)" by (auto simp: all_shares_def)
  }
qed

lemma all_shares_distinct:
  assumes "member_good m" "distinct markets"
  shows "distinct (map share_key (all_shares m markets))"
  using assms(2)
proof (induction markets)
  case (Cons mkt markets)
  have "share_key s \<noteq> share_key t"
    if s: "s \<in> set (member_snapshot m mkt)" and t: "t \<in> set (all_shares m markets)" for s t
  proof -
    obtain x where x: "x \<in> set markets" "t \<in> set (member_snapshot m x)" using t by (auto simp: all_shares_def)
    with Cons.prems snapshot_key [OF assms(1) s] snapshot_key [OF assms(1) x(2)] show ?thesis by auto
  qed
  then have "share_key ` set (member_snapshot m mkt) \<inter> share_key ` set (all_shares m markets) = {}" by blast
  moreover have "all_shares m (mkt # markets) = member_snapshot m mkt @ all_shares m markets"
    by (simp add: all_shares_def)
  ultimately show ?case using Cons snapshot_shares(2) [OF assms(1), of mkt] by simp
qed (simp add: all_shares_def)

lemma all_shares_lookup:
  assumes "memory_good E m markets"
  shows "map_of (map (\<lambda>s. (share_key s, s)) (all_shares m markets)) = member_lookup m"
proof (rule ext)
  fix k
  let ?l = "map (\<lambda>s. (share_key s, s)) (all_shares m markets)"
  have g: "member_good m" "distinct markets" using assms by (auto simp: memory_good_def)
  have d: "distinct (map fst ?l)" using all_shares_distinct [OF g] by (simp add: comp_def)
  have e: "map_of ?l k = Some s \<longleftrightarrow> member_lookup m k = Some s" for s
  proof -
    have "map_of ?l k = Some s \<longleftrightarrow> s \<in> set (all_shares m markets) \<and> share_key s = k"
      unfolding map_of_eq_Some_iff [OF d] by auto
    also have "\<dots> \<longleftrightarrow> member_lookup m (share_key s) = Some s \<and> share_key s = k"
      unfolding all_shares_iff [OF assms] ..
    also have "\<dots> \<longleftrightarrow> member_lookup m k = Some s"
      using member_lookup_key [OF g(1), of k s] by blast
    finally show ?thesis .
  qed
  show "map_of ?l k = member_lookup m k"
  proof (cases "member_lookup m k")
    case None
    then have "map_of ?l k \<noteq> Some s" for s unfolding e by simp
    then have "map_of ?l k = None" by (meson option.exhaust)
    with None show ?thesis by simp
  next
    case (Some s)
    with e show ?thesis by simp
  qed
qed

lemma submit_stored_encoded: "submit_stored H m (map encode xs) = rfold (member_submit H) m xs"
  by (induction xs arbitrary: m) (simp_all add: submit_stored_def)

text \<open>What the state file restores to: the shares by market and index.\<close>

definition restores_to :: "'x server_env \<Rightarrow> string option \<Rightarrow> (string \<times> int \<Rightarrow> CommitteeShare option) \<Rightarrow> bool" where
  "restores_to E file f \<longleftrightarrow>
     (\<exists>contents stored m. file = Some contents
        \<and> openCommitteeState (sv_gcm E) contents
            (case sv_stateKey E of Some k \<Rightarrow> k | None \<Rightarrow> []) (sv_memberIndex E) = Inr (JArray stored, False)
        \<and> submit_stored (sv_hash E) (newMember (sv_memberIndex E)) stored = Inr m \<and> member_lookup m = f)"

lemma sealed_restores:
  assumes "env_ok E" "memory_good E m markets"
    and "sealCommitteeState (sv_gcm E) iv (state_value m markets)
      (case sv_stateKey E of Some k \<Rightarrow> k | None \<Rightarrow> []) (sv_memberIndex E) = Inr contents"
  shows "restores_to E (Some contents) (member_lookup m)"
proof -
  let ?xs = "all_shares m markets"
  have g: "member_good m" "distinct markets" using assms(2) by (auto simp: memory_good_def)
  have acc: "\<forall>s\<in>set ?xs. share_accepted (sv_hash E) (sv_memberIndex E) s"
    using assms(2) all_shares_iff [OF assms(2)] unfolding memory_good_def by blast
  obtain m' where m': "rfold (member_submit (sv_hash E)) (newMember (sv_memberIndex E)) ?xs = Inr m'"
    "member_lookup m' = member_lookup m"
    using submit_all [OF acc all_shares_distinct [OF g]] all_shares_lookup [OF assms(2)] by auto
  have v: "state_value m markets = JArray (map encode ?xs)" by (simp add: state_value_def all_shares_def)
  have "plain (state_value m markets)"
    using acc assms(1) plain_encode by (fastforce simp: v env_ok_def)
  then have "openCommitteeState (sv_gcm E) contents (case sv_stateKey E of Some k \<Rightarrow> k | None \<Rightarrow> [])
      (sv_memberIndex E) = Inr (JArray (map encode ?xs), False)"
    using sealed_value_opens [OF _ _ _ assms(3)] assms(1) unfolding env_ok_def v by blast
  with m' show ?thesis unfolding restores_to_def submit_stored_encoded [symmetric] by blast
qed

subsection \<open>The pieces of the service\<close>

lemma wp_ask [wp_rules]:
  "wp (ask m) Q R s = (case m (sr_rest s) of (Inl e, x) \<Rightarrow> R e (s\<lparr>sr_rest := x\<rparr>) | (Inr y, x) \<Rightarrow> Q y (s\<lparr>sr_rest := x\<rparr>))"
  by (auto simp: wp_def ask_def split: prod.split sum.split)

lemma wp_state [wp_rules]:
  "wp get_member Q R s = Q (sr_member s) s"
  "wp (set_member m) Q' R s = Q' () (s\<lparr>sr_member := m\<rparr>)"
  "wp (set_markets f) Q' R s = Q' () (s\<lparr>sr_markets := f (sr_markets s)\<rparr>)"
  by (simp_all add: wp_def get_member_def set_member_def set_markets_def)

lemma wp_respond [wp_rules]: "wp (respond status v) Q R = Q (status, stringify v @ [LF])"
  by (simp add: respond_def wp_rules)

text \<open>The memory and the state file are those of another state.\<close>

definition untouched :: "'x server \<Rightarrow> 'x server \<Rightarrow> bool" where
  "untouched s0 s \<longleftrightarrow> sr_member s = sr_member s0 \<and> sr_markets s = sr_markets s0 \<and> sr_file s = sr_file s0"

lemma untouched_refl [simp]: "untouched s s"
  by (simp add: untouched_def)

lemma keeps_ask [keeps_intros]: "keeps (untouched s0) (ask m)"
  by (auto simp: keeps_def wp_rules untouched_def split: prod.split sum.split)

lemma keeps_program_account [keeps_intros]: "keeps (untouched s0) (program_account E a t)"
  unfolding program_account_def by (auto intro!: keeps_intros split: option.split)

lemma keeps_verifyOnchainOrder [keeps_intros]: "keeps (untouched s0) (verifyOnchainOrder E share)"
  unfolding verifyOnchainOrder_def by (intro keeps_intros)

lemma keeps_market_account [keeps_intros]: "keeps (untouched s0) (market_account E v)"
  unfolding market_account_def by (intro keeps_intros)

lemma keeps_respond [keeps_intros]: "keeps (untouched s0) (respond status v)"
  by (simp add: respond_def keeps_intros)

lemma keeps_get_member [keeps_intros]: "keeps (untouched s0) get_member"
  by (simp add: keeps_def wp_rules)

lemma keeps_handle_aggregate: "keeps (untouched s0) (handle_aggregate E part)"
  unfolding handle_aggregate_def Let_def by (intro keeps_intros)

lemma wp_untouched: "keeps (untouched s0) m \<Longrightarrow> untouched s0 s \<Longrightarrow> wp m (\<lambda>_. untouched s0) (\<lambda>_. untouched s0) s"
  by (simp add: keeps_def)

text \<open>Writing the state file: what it restores to afterwards, or the old file.\<close>

lemma wp_persist:
  assumes "env_ok E" "memory_good E (sr_member s) (sr_markets s)"
  shows "wp (persist E)
     (\<lambda>_ s'. sr_member s' = sr_member s \<and> sr_markets s' = sr_markets s
        \<and> restores_to E (sr_file s') (member_lookup (sr_member s)))
     (\<lambda>_. untouched s) s"
  using sealed_restores [OF assms]
  by (auto simp: persist_def persist_text_def persist_write_def persist_rename_def wp_rules untouched_def
      split: prod.split sum.split)

text \<open>Every share of the memory is still there.\<close>

definition extends_memory :: "CommitteeMember \<Rightarrow> CommitteeMember \<Rightarrow> bool" where
  "extends_memory m m' \<longleftrightarrow> (\<forall>k w. member_lookup m k = Some w \<longrightarrow> member_lookup m' k = Some w)"

lemma submit_memory:
  assumes "memory_good E m markets" "member_submit (sv_hash E) m share = Inr m'"
  shows "memory_good E m' (set_add (cs_market share) markets)" "extends_memory m m'"
    "\<exists>w. member_lookup m' (share_key share) = Some w \<and> (w = share \<or> sameShare w share)"
proof -
  have g: "member_good m" using assms(1) by (simp add: memory_good_def)
  show e: "extends_memory m m'"
    using member.submit_keeps [OF g assms(2)] by (auto simp: extends_memory_def)
  have new: "member_lookup m' k = Some w \<Longrightarrow> member_lookup m k = Some w \<or> w = share \<and> k = share_key share" for k w
    using member_submit_InrD [OF assms(2)] by (auto simp: share_key_def member_lookup_put split: if_splits)
  have "memory_good E m markets \<and> share_accepted (sv_hash E) (sv_memberIndex E) share"
    using assms member_submit_accepts [OF assms(2)] by (simp add: memory_good_def)
  then show "memory_good E m' (set_add (cs_market share) markets)"
    using member.submit_good [OF g assms(2)] member_submit_index [OF assms(2)] new
    unfolding memory_good_def by (fastforce simp: set_add_def share_key_def)
  show "\<exists>w. member_lookup m' (share_key share) = Some w \<and> (w = share \<or> sameShare w share)"
    using member_submit_InrD [OF assms(2)] by (auto simp: share_key_def member_lookup_put)
qed

lemma store_share_wp:
  assumes "env_ok E" "memory_good E (sr_member s) (sr_markets s)"
  shows "wp (store_share E share)
     (\<lambda>r s'. fst r = 202 \<and> memory_good E (sr_member s') (sr_markets s')
        \<and> extends_memory (sr_member s) (sr_member s')
        \<and> restores_to E (sr_file s') (member_lookup (sr_member s'))
        \<and> (\<exists>w. member_lookup (sr_member s') (share_key share) = Some w \<and> (w = share \<or> sameShare w share)))
     (\<lambda>_ s'. memory_good E (sr_member s') (sr_markets s') \<and> extends_memory (sr_member s) (sr_member s')
        \<and> sr_file s' = sr_file s) s"
    (is "wp _ ?Q ?R s")
proof (cases "member_submit (sv_hash E) (sr_member s) share")
  case (Inl e)
  with assms(2) show ?thesis by (simp add: store_share_def wp_rules extends_memory_def)
next
  case (Inr m')
  note m' = submit_memory [OF assms(2) Inr]
  let ?s = "s\<lparr>sr_member := m', sr_markets := set_add (cs_market share) (sr_markets s)\<rparr>"
  have p: "wp (persist E)
    (\<lambda>_ t. sr_member t = sr_member ?s \<and> sr_markets t = sr_markets ?s
       \<and> restores_to E (sr_file t) (member_lookup (sr_member ?s)))
    (\<lambda>_. untouched ?s) ?s"
    by (rule wp_persist [OF assms(1)]) (use m'(1) in simp)
  have "wp (persist E) (\<lambda>_. ?Q (202, t)) ?R ?s" for t
    using p by (rule wp_mono) (use m' in \<open>simp_all add: untouched_def\<close>)
  with Inr show ?thesis by (simp add: store_share_def wp_rules)
qed

lemma handle_share_wp:
  assumes "env_ok E" "memory_good E (sr_member s) (sr_markets s)"
  shows "wp (handle_share E encryptionKey request)
     (\<lambda>r s'. fst r = 202 \<and> memory_good E (sr_member s') (sr_markets s')
        \<and> extends_memory (sr_member s) (sr_member s')
        \<and> restores_to E (sr_file s') (member_lookup (sr_member s'))
        \<and> (\<exists>share w. share_of_request E encryptionKey request = Inr share
             \<and> member_lookup (sr_member s') (share_key share) = Some w \<and> (w = share \<or> sameShare w share)))
     (\<lambda>_ s'. memory_good E (sr_member s') (sr_markets s') \<and> extends_memory (sr_member s) (sr_member s')
        \<and> sr_file s' = sr_file s) s"
    (is "wp _ ?Q ?R s")
proof -
  have R: "?R e s'" if "untouched s s'" for e s'
    using that assms(2) by (simp add: untouched_def extends_memory_def)
  show ?thesis
  proof (cases "share_of_request E encryptionKey request")
    case (Inl e)
    then show ?thesis using R [of s] by (simp add: handle_share_def wp_rules)
  next
    case (Inr share)
    have v: "wp (verifyOnchainOrder E share) (\<lambda>_. untouched s) (\<lambda>_. untouched s) s"
      by (rule wp_untouched) (simp_all add: keeps_intros)
    have st: "wp (store_share E share) ?Q ?R s'" if u: "untouched s s'" for s'
    proof -
      have "memory_good E (sr_member s') (sr_markets s')" using u assms(2) by (simp add: untouched_def)
      from store_share_wp [OF assms(1) this, of share] show ?thesis
        by (rule wp_mono) (use u Inr in \<open>simp_all add: untouched_def\<close>)
    qed
    have "wp (verifyOnchainOrder E share) (\<lambda>_. wp (store_share E share) ?Q ?R) ?R s"
      using v by (rule wp_mono) (erule st, erule R)
    then show ?thesis using R [of s]
      unfolding handle_share_def Inr wp_bind wp_lift wp_guard sum.case by (simp only: if_split untouched_refl) simp
  qed
qed

subsection \<open>The handler\<close>

definition answers :: "(int \<Rightarrow> bool) \<Rightarrow> ('x server, response) io \<Rightarrow> bool" where
  "answers P m \<longleftrightarrow> (\<forall>s. wp m (\<lambda>r _. P (fst r)) (\<lambda>_ _. True) s)"

named_theorems answers_intros \<open>the statuses a handler answers with\<close>

lemma answers_respond [answers_intros]: "P status \<Longrightarrow> answers P (respond status v)"
  by (simp add: answers_def wp_rules)

lemma answers_throw [answers_intros]: "answers P (io_throw e)"
  by (simp add: answers_def wp_rules)

lemma answers_bind [answers_intros]: "(\<And>x. answers P (f x)) \<Longrightarrow> answers P (io_bind m f)"
  by (auto simp: answers_def wp_rules) (auto simp: wp_def split: prod.split sum.split)

lemma answers_if [answers_intros]: "(b \<Longrightarrow> answers P m) \<Longrightarrow> (\<not> b \<Longrightarrow> answers P n) \<Longrightarrow> answers P (if b then m else n)"
  by simp

lemma answers_aggregate: "answers (\<lambda>n. n \<noteq> 202) (handle_aggregate E part)"
  unfolding handle_aggregate_def Let_def by (intro answers_intros) simp_all

lemma clear_memory:
  assumes "memory_good E m markets" "member_clearMarket m mkt = (m', removed)"
  shows "memory_good E m' (set_delete mkt markets)"
proof -
  have m': "m' = m\<lparr>cm_shares := map_delete (cm_shares m) mkt\<rparr>"
    using assms(2) by (simp add: member_clearMarket_def)
  have l: "member_lookup m' k = (if fst k = mkt then None else member_lookup m k)" for k
    by (simp add: m' member_lookup_def)
  have "member_good m'" using assms(1) by (auto simp: m' memory_good_def member_good_def split: if_splits)
  moreover have "cm_memberIndex m' = cm_memberIndex m" by (simp add: m')
  ultimately show ?thesis
    using assms(1) unfolding memory_good_def by (auto simp: l set_delete_def split: if_splits)
qed

lemma handle_purge_wp:
  assumes "env_ok E" "memory_good E (sr_member s) (sr_markets s)"
  shows "wp (handle_purge E part) (\<lambda>r s'. fst r = 200 \<and> memory_good E (sr_member s') (sr_markets s'))
     (\<lambda>_ s'. memory_good E (sr_member s') (sr_markets s')) s"
    (is "wp _ ?Q ?R s")
proof -
  have R: "?R e s'" if "untouched s s'" for e s'
    using that assms(2) by (simp add: untouched_def)
  have p: "wp (persist E) (\<lambda>_. ?Q (200, t)) ?R
      (s'\<lparr>sr_member := m', sr_markets := set_delete mkt (sr_markets s')\<rparr>)" (is "wp _ _ _ ?s")
    if u: "untouched s s'" and c: "member_clearMarket (sr_member s') mkt = (m', removed)" for s' m' removed t mkt
  proof -
    have "memory_good E (sr_member ?s) (sr_markets ?s)"
      using clear_memory [OF assms(2), of mkt m' removed] u c by (simp add: untouched_def)
    from wp_persist [OF assms(1) this] show ?thesis
      by (rule wp_mono) (use \<open>memory_good E (sr_member ?s) (sr_markets ?s)\<close> in \<open>simp_all add: untouched_def\<close>)
  qed
  have c: "wp (io_bind get_member (\<lambda>m.
       case member_clearMarket m mkt of (m', removed) \<Rightarrow>
         io_bind (set_member m') (\<lambda>_.
         io_bind (set_markets (set_delete mkt)) (\<lambda>_.
         io_bind (persist E) (\<lambda>_. respond 200 (JObject [(''purged'', JBool removed)])))))) ?Q ?R s'"
    if u: "untouched s s'" for s' mkt
    using p [OF u] by (simp add: wp_rules split: prod.split)
  have "wp (handle_purge E part) ?Q ?R s"
    unfolding handle_purge_def wp_bind wp_lift
  proof (cases "decodeURIComponent part", simp_all only: sum.case, goal_cases)
    case 1
    show ?case using R [of s] by simp
  next
    case (2 mkt)
    have "wp (market_account E mkt) (\<lambda>_. untouched s) (\<lambda>_. untouched s) s"
      by (rule wp_untouched) (simp_all add: keeps_intros)
    then show ?case
    proof (rule wp_mono, goal_cases)
      case (1 market s1)
      have "wp (ask (sv_clockMs E)) (\<lambda>_. untouched s) (\<lambda>_. untouched s) s1"
        by (rule wp_untouched) (simp_all add: keeps_intros 1)
      then show ?case
      proof (rule wp_mono, goal_cases)
        case (1 nowMs s2)
        have "wp (if is_open market
              then io_bind (io_lift (sv_toNumber E (ma_batch_deadline_ts market))) (\<lambda>deadline.
                io_guard (nowMs div 1000 \<le> deadline) ''Committee shares cannot be purged before batching closes'')
              else io_return ()) (\<lambda>_. untouched s) (\<lambda>_. untouched s) s2"
          by (rule wp_untouched) (simp_all add: keeps_intros 1)
        then show ?case
          by (rule wp_mono) (erule c [unfolded wp_bind], erule R)
      qed (erule R)
    qed (erule R)
  qed
  then show ?thesis .
qed

text \<open>What a request does to the memory and the state file.\<close>

definition outcome :: "'x server_env \<Rightarrow> json \<Rightarrow> Request \<Rightarrow> 'x server \<Rightarrow> response \<Rightarrow> 'x server \<Rightarrow> bool" where
  "outcome E encryptionKey request s r s' \<longleftrightarrow>
     memory_good E (sr_member s') (sr_markets s')
     \<and> (rq_method request \<noteq> ''DELETE'' \<longrightarrow> extends_memory (sr_member s) (sr_member s')
          \<and> (sr_file s' = sr_file s \<or> restores_to E (sr_file s') (member_lookup (sr_member s'))))
     \<and> (fst r = 202 \<longrightarrow> restores_to E (sr_file s') (member_lookup (sr_member s'))
          \<and> (\<exists>share w. share_of_request E encryptionKey request = Inr share
               \<and> member_lookup (sr_member s') (share_key share) = Some w \<and> (w = share \<or> sameShare w share)))"

lemma outcome_untouched:
  assumes "memory_good E (sr_member s) (sr_markets s)" "untouched s s'" "fst r \<noteq> 202"
  shows "outcome E encryptionKey request s r s'"
  using assms by (simp add: outcome_def untouched_def extends_memory_def)

lemma handler_wp:
  assumes "env_ok E" "memory_good E (sr_member s) (sr_markets s)"
  shows "wp (handler E encryptionKey request) (outcome E encryptionKey request s) (\<lambda>_ _. False) s"
proof -
  let ?Q = "outcome E encryptionKey request s"
  define failed :: "error \<Rightarrow> response" where
    "failed e = (400, stringify (JObject [(''error'', JString (error_message e))]) @ [LF])" for e
  let ?R = "\<lambda>e. ?Q (failed e)"
  have q: "?Q (n, t) s" if "n \<noteq> 202" for n t
    by (rule outcome_untouched) (simp_all add: assms(2) that)
  have agg: "wp (handle_aggregate E part) ?Q ?R s" for part
  proof -
    have "wp (handle_aggregate E part) (\<lambda>_. untouched s) (\<lambda>_. untouched s) s"
      by (rule wp_untouched) (simp_all add: keeps_handle_aggregate)
    moreover have "wp (handle_aggregate E part) (\<lambda>r _. fst r \<noteq> 202) (\<lambda>_ _. True) s"
      using answers_aggregate unfolding answers_def by blast
    ultimately have "wp (handle_aggregate E part) (\<lambda>r s'. untouched s s' \<and> fst r \<noteq> 202) (\<lambda>_ s'. untouched s s' \<and> True) s"
      by (rule wp_conj)
    then show ?thesis by (rule wp_mono) (simp_all add: outcome_untouched assms(2) failed_def)
  qed
  have share: "wp (handle_share E encryptionKey request) ?Q ?R s"
    using handle_share_wp [OF assms] by (rule wp_mono) (simp_all add: outcome_def failed_def)
  have purge: "wp (handle_purge E part) ?Q ?R s" if "rq_method request = ''DELETE''" for part
    using handle_purge_wp [OF assms] by (rule wp_mono) (simp_all add: outcome_def that failed_def)
  have "wp (route E encryptionKey request path) ?Q ?R s" for path
    unfolding route_def
    by (auto simp: wp_rules q agg share purge split: option.split bool.split prod.split)
  moreover have "?R e s" for e unfolding failed_def by (rule q) simp
  ultimately show ?thesis
    unfolding handler_def wp_catch wp_bind wp_lift wp_respond failed_def [symmetric] by (simp split: sum.split)
qed

subsection \<open>Start and restart\<close>

lemma decode_market: "decode v = Inr share \<Longrightarrow> market_of v = cs_market share"
  by (auto simp: decode_def market_of_def typed_def rbind_eq_Inr split: option.splits)

lemma submit_stored_memory:
  assumes "memory_good E m markets" "submit_stored (sv_hash E) m stored = Inr m'"
  shows "memory_good E m' (foldl (\<lambda>ms x. set_add (market_of x) ms) markets stored)"
  using assms
proof (induction stored arbitrary: m markets)
  case (Cons v stored)
  then obtain share m1 where d: "decode v = Inr share" "member_submit (sv_hash E) m share = Inr m1"
    and r: "submit_stored (sv_hash E) m1 stored = Inr m'"
    by (auto simp: submit_stored_def rbind_eq_Inr)
  from submit_memory(1) [OF Cons.prems(1) d(2)] r show ?case
    by (simp add: Cons.IH decode_market [OF d(1)])
qed (simp add: submit_stored_def)

lemma memory_good_new: "memory_good E (newMember (sv_memberIndex E)) []"
  by (simp add: memory_good_def) (simp add: newMember_def member_lookup_def)

definition fresh :: "'x server_env \<Rightarrow> 'x server \<Rightarrow> 'x server" where
  "fresh E s = s\<lparr>sr_member := newMember (sv_memberIndex E), sr_markets := []\<rparr>"

lemma restore_good:
  assumes "env_ok E" "restore E (fresh E s) = (Inr u, s')"
  shows "memory_good E (sr_member s') (sr_markets s')"
proof -
  have "wp (restore E) (\<lambda>_ s'. memory_good E (sr_member s') (sr_markets s')) (\<lambda>_ _. True) (fresh E s)"
    (is "wp _ ?Q _ _")
  proof (cases "sr_file s")
    case None
    then show ?thesis using memory_good_new [of E] by (simp add: wp_def restore_def fresh_def)
  next
    case (Some contents)
    have p: "wp (persist E) ?Q (\<lambda>_ _. True) t" if g: "memory_good E (sr_member t) (sr_markets t)" for t
      by (rule wp_mono [OF wp_persist [OF assms(1) g]]) (use g in simp_all)
    have g: "memory_good E m' (foldl (\<lambda>ms x. set_add (market_of x) ms) [] stored)"
      if "submit_stored (sv_hash E) (newMember (sv_memberIndex E)) stored = Inr m'" for stored m'
      using submit_stored_memory [OF memory_good_new that] .
    have "wp (case v of
             JArray stored \<Rightarrow>
               io_bind get_member (\<lambda>m.
               io_bind (io_lift (submit_stored (sv_hash E) m stored)) (\<lambda>m'.
               io_bind (set_member m') (\<lambda>_.
               io_bind (set_markets (\<lambda>ms. foldl (\<lambda>ms x. set_add (market_of x) ms) ms stored)) (\<lambda>_.
                 if legacy then persist E else io_return ()))))
           | _ \<Rightarrow> io_throw (Error ''Committee state payload is invalid'')) ?Q (\<lambda>_ _. True) (fresh E s)" for v legacy
      using g p by (cases v) (auto simp: wp_rules fresh_def split: sum.split)
    then show ?thesis
      unfolding restore_def Some wp_def [of "\<lambda>s. _ s"] using Some
      by (auto simp: fresh_def wp_def [symmetric] wp_rules io_bind_def io_lift_def split: sum.split prod.split)
  qed
  from wpD [OF this assms(2)] show ?thesis .
qed

lemma start_InrD:
  assumes "start E s0 = (Inr key, s1)"
  shows "restore E (fresh E s0) = (Inr (), s1)"
    and "start E s = (case restore E (fresh E s) of (Inr u, s') \<Rightarrow> (Inr key, s') | (Inl e, s') \<Rightarrow> (Inl e, s'))"
proof -
  obtain keyFile where k: "sv_encryptionKey E = Some keyFile"
    using assms by (cases "sv_encryptionKey E") (auto simp: start_def io_guard_def io_throw_Inr split: if_splits)
  have g: "\<not> (case sv_token E of None \<Rightarrow> True | Some t \<Rightarrow> length t < 24)"
    "\<not> (case sv_stateKey E of None \<Rightarrow> True | Some k \<Rightarrow> \<not> is_hex_any k)"
    using assms unfolding start_def io_guard_def by (simp_all add: io_throw_Inr split: if_split_asm)
  have eq: "start E s = (case readCommitteeEncryptionKey keyFile (sv_memberIndex E) of
      Inl e \<Rightarrow> (Inl e, fresh E s)
    | Inr key \<Rightarrow> (case restore E (fresh E s) of (Inr u, s') \<Rightarrow> (Inr key, s') | (Inl e, s') \<Rightarrow> (Inl e, s')))" for s
    using g by (auto simp: start_def io_guard_def k io_bind_def set_member_def set_markets_def io_lift_def
        io_return_def fresh_def split: sum.split prod.split)
  then show "restore E (fresh E s0) = (Inr (), s1)"
    "start E s = (case restore E (fresh E s) of (Inr u, s') \<Rightarrow> (Inr key, s') | (Inl e, s') \<Rightarrow> (Inl e, s'))"
    using assms by (auto split: sum.splits prod.splits)
qed

lemma restart:
  assumes "start E s0 = (Inr key, s1)" "restores_to E (sr_file s) f"
  shows "\<exists>s'. start E s = (Inr key, s') \<and> member_lookup (sr_member s') = f"
proof -
  obtain contents stored m where c: "sr_file s = Some contents"
    "openCommitteeState (sv_gcm E) contents (case sv_stateKey E of Some k \<Rightarrow> k | None \<Rightarrow> [])
       (sv_memberIndex E) = Inr (JArray stored, False)"
    "submit_stored (sv_hash E) (newMember (sv_memberIndex E)) stored = Inr m" "member_lookup m = f"
    using assms(2) by (auto simp: restores_to_def)
  then have "\<exists>s'. restore E (fresh E s) = (Inr (), s') \<and> sr_member s' = m"
    by (simp add: restore_def fresh_def io_bind_def io_lift_def get_member_def set_member_def set_markets_def io_return_def)
  then obtain s' where "restore E (fresh E s) = (Inr (), s')" "sr_member s' = m" by blast
  with start_InrD(2) [OF assms(1), of s] c(4) show ?thesis by simp
qed

lemma serve_simps [simp]:
  "serve E key [] s = s" "serve E key (r # rs) s = serve E key rs (snd (handler E key r s))"
  by (simp_all add: serve_def)

lemma handler_outcome:
  assumes "env_ok E" "memory_good E (sr_member s) (sr_markets s)" "handler E key request s = (r, s')"
  shows "\<exists>x. r = Inr x \<and> outcome E key request s x s'"
  using handler_wp [OF assms(1,2), of key request] assms(3) by (auto simp: wp_def split: sum.splits)

lemma serve_good:
  assumes "env_ok E" "memory_good E (sr_member s) (sr_markets s)"
  shows "memory_good E (sr_member (serve E key rs s)) (sr_markets (serve E key rs s))"
  using assms(2)
proof (induction rs arbitrary: s)
  case (Cons r rs)
  obtain x s' where h: "handler E key r s = (x, s')" by fastforce
  from handler_outcome [OF assms(1) Cons.prems h] Cons.IH [of s'] h show ?case
    by (auto simp: outcome_def)
qed simp

text \<open>A share in memory and on disk.\<close>

definition stored_share :: "'x server_env \<Rightarrow> string \<times> int \<Rightarrow> CommitteeShare \<Rightarrow> 'x server \<Rightarrow> bool" where
  "stored_share E k w s \<longleftrightarrow> memory_good E (sr_member s) (sr_markets s) \<and> member_lookup (sr_member s) k = Some w
     \<and> (\<exists>f. restores_to E (sr_file s) f \<and> f k = Some w)"

lemma serve_stored:
  assumes "env_ok E" "\<forall>r\<in>set rs. rq_method r \<noteq> ''DELETE''" "stored_share E k w s"
  shows "stored_share E k w (serve E key rs s)"
  using assms(2,3)
proof (induction rs arbitrary: s)
  case (Cons r rs)
  obtain x s' where h: "handler E key r s = (x, s')" by fastforce
  have "memory_good E (sr_member s) (sr_markets s)" using Cons.prems(2) by (simp add: stored_share_def)
  from handler_outcome [OF assms(1) this h] obtain y where o: "outcome E key r s y s'" by blast
  have d: "rq_method r \<noteq> ''DELETE''" using Cons.prems(1) by simp
  have l: "member_lookup (sr_member s') k = Some w"
    using o d Cons.prems(2) unfolding outcome_def extends_memory_def stored_share_def by blast
  moreover have "\<exists>f. restores_to E (sr_file s') f \<and> f k = Some w"
    using o d l Cons.prems(2) unfolding outcome_def stored_share_def by metis
  ultimately have "stored_share E k w s'" using o by (simp add: stored_share_def outcome_def)
  with Cons h show ?case by simp
qed simp

section \<open>A service to try the properties on\<close>

definition share_example :: CommitteeShare where
  "share_example = \<lparr>cs_market = ''m'', cs_orderIndex = JInt 0, cs_orderCommitment = 0, cs_memberIndex = 1,
     cs_sideShare = 5, cs_yesAmountShare = 6, cs_totalAmountShare = 7, cs_salt = 8,
     cs_expectedShareCommitment = 0, cs_placementSignature = ''signature''\<rparr>"

definition encryption_key_example :: json where
  "encryption_key_example = JObject [(''format'', JString ''nortia-committee-encryption-key''),
     (''memberIndex'', JNumber (JInt 1)), (''publicKey'', JObject [(''kty'', JString ''RSA'')]),
     (''privateKey'', JObject [(''kty'', JString ''RSA'')])]"

definition server_env_example :: "unit server_env" where
  "server_env_example = \<lparr>sv_token = Some (replicate 24 CHR ''t''), sv_stateKey = Some (replicate 64 CHR ''a''),
     sv_encryptionKey = Some (stringify encryption_key_example), sv_memberIndex = 1, sv_hash = (\<lambda>a b. 0),
     sv_gcm = gcm_example, sv_iv = io_return (replicate 12 7),
     sv_webcrypto = \<lparr>wc_random = (\<lambda>n. io_return (replicate n 0)), wc_rsa_encrypt = (\<lambda>k p. io_return p),
       wc_rsa_decrypt = (\<lambda>k c. Inr c), wc_aes_encrypt = (\<lambda>k iv a p. p),
       wc_aes_decrypt = (\<lambda>k iv a c. Inr (utf8 (stringify (encode share_example))))\<rparr>,
     sv_pathname = (\<lambda>u h. Inr u), sv_program = [], sv_key = (\<lambda>v. Inr []), sv_derive = (\<lambda>seeds program. Inr []),
     sv_account = (\<lambda>a. io_return (Some ([], []))),
     sv_order = (\<lambda>d. Inr \<lparr>oc_market = [], oc_order_index = 0, oc_commitment = replicate 32 0,
       oc_share_commitments = [replicate 32 0]\<rparr>),
     sv_market = (\<lambda>d. Inr \<lparr>ma_lock_ts = 0, ma_batch_deadline_ts = 0, ma_order_count = 0, ma_phase = []\<rparr>),
     sv_toNumber = Inr,
     sv_transaction = (\<lambda>t. io_return (Some (Some \<lparr>tm_err = False, tm_logMessages = Some [INVOCATION]\<rparr>))),
     sv_clockMs = io_return 0, sv_disk = (\<lambda>op. io_return ())\<rparr>"

definition request_example :: Request where
  "request_example = \<lparr>rq_method = ''POST'', rq_url = Some ''/shares'', rq_host = None,
     rq_authorization = Some (''Bearer '' @ replicate 24 CHR ''t''),
     rq_body = [utf8 (stringify (envelope_json 1 (replicate 256 0) (replicate 12 0) [0]))]\<rparr>"

definition server_example :: "unit server" where
  "server_example = \<lparr>sr_member = newMember 1, sr_markets = [], sr_file = None, sr_temporary = None, sr_rest = ()\<rparr>"

lemma env_ok_example: "env_ok server_env_example"
  by (simp add: env_ok_def server_env_example_def gcm_ok_def gcm_example_def)

lemma start_example: "start server_env_example server_example = (Inr encryption_key_example, server_example)"
proof -
  have p: "plain encryption_key_example" by (simp add: encryption_key_example_def map_ok_def)
  have h: "is_hex_any (replicate 64 CHR ''a'')" by code_simp
  have "readCommitteeEncryptionKey (stringify encryption_key_example) 1 = Inr encryption_key_example"
    by (simp add: readCommitteeEncryptionKey_def json_round_trip [OF p])
      (simp add: encryption_key_example_def map_get_def jwk_kty_def)
  with h show ?thesis
    by (simp add: start_def server_env_example_def server_example_def io_guard_def set_member_def set_markets_def
      io_bind_def io_lift_def io_return_def restore_def)
qed

lemma length_utf8: "length (utf8 s) \<le> 2 * length s"
  by (induction s) (auto simp: utf8_def utf8_char_def Let_def)

lemma length_json_quote: "length (json_quote s) \<le> 6 * length s + 2"
proof -
  have "length (escape_char c) \<le> 6" for c by (simp add: escape_char_def hex4_def Let_def)
  then have "length (concat (map escape_char s)) \<le> 6 * length s" for s
    by (induction s) (auto intro: order_trans [OF add_mono])
  then show ?thesis by (simp add: json_quote_def)
qed

lemma share_of_request_example:
  "share_of_request server_env_example encryption_key_example request_example = Inr share_example"
proof -
  let ?v = "envelope_json 1 (replicate 256 0) (replicate 12 0) [0]"
  have p: "plain ?v" by (simp add: envelope_json_def map_ok_def)
  have i: "int_str 1 = ''1''" by code_simp
  have l: "length (utf8 (stringify ?v)) \<le> MAX_BODY_BYTES"
    using length_utf8 [of "stringify ?v"] length_json_quote [of "base64_encode (replicate 256 0)"]
      length_json_quote [of "base64_encode (replicate 12 0)"] length_json_quote [of "base64_encode [0]"]
      length_json_quote [of "''memberIndex''"] length_json_quote [of "''wrappedKey''"]
      length_json_quote [of "''iv''"] length_json_quote [of "''ciphertext''"]
    by (simp add: envelope_json_def length_base64_encode MAX_BODY_BYTES_def
        i del: base64_encode.simps)
  have "requestJson request_example = Inr ?v"
    using l by (simp add: requestJson_def request_example_def bodyStep_def Let_def json_round_trip [OF p])
  moreover have "openCommitteeShare (sv_webcrypto server_env_example) ?v k 1 = Inr (encode share_example)" for k
  proof -
    note c = canonicalBase64_encode
    have "canonicalBase64 (Some (JString (base64_encode (replicate 256 0)))) t (Some 256) 4096 = Inr (replicate 256 0)"
      and "canonicalBase64 (Some (JString (base64_encode (replicate 12 0)))) t (Some 12) 4096 = Inr (replicate 12 0)"
      and "canonicalBase64 (Some (JString (base64_encode [0]))) t None 4096 = Inr [0]" for t
      by (rule c [of "replicate 256 0" 4096 "Some 256" t], simp, simp, simp,
          rule c [of "replicate 12 0" 4096 "Some 12" t], simp, simp, simp,
          rule c [of "[0]" 4096 None t], simp, simp, simp)
    moreover have "plain (encode share_example)"
      by (rule plain_encode [of "\<lambda>a b. 0" 1])
        (simp_all add: share_accepted_def share_example_def safe_int_def MAX_SAFE_INTEGER_def shareFields_def
          BN254_SCALAR_MODULUS_def shareCommitment_def)
    ultimately show ?thesis
      by (simp add: openCommitteeShare_def envelope_json_def map_get_def checkedMemberIndex_def
        server_env_example_def json_round_trip del: base64_encode.simps)
  qed
  ultimately show ?thesis
    by (simp add: share_of_request_def) (simp add: server_env_example_def)
qed

lemma submit_example:
  "\<exists>m1 m2. member_submit (sv_hash server_env_example) (newMember 1) share_example = Inr m1
    \<and> member_submit (sv_hash server_env_example) m1 (share_example\<lparr>cs_orderIndex := JInt 1\<rparr>) = Inr m2
    \<and> member_lookup m1 (share_key (share_example\<lparr>cs_orderIndex := JInt 1\<rparr>)) = None"
  by (simp add: member_submit_def share_example_def newMember_def safe_int_def MAX_SAFE_INTEGER_def shareFields_def
      BN254_SCALAR_MODULUS_def shareCommitment_def server_env_example_def Let_def member_lookup_def share_key_def
      map_put_def map_get_def)

lemma seal_example: "\<exists>t. sealCommitteeState gcm_example iv v (replicate 64 CHR ''a'') 1 = Inr t"
proof -
  have "is_hex_any (replicate 64 CHR ''a'')" by code_simp
  then show ?thesis by (simp add: sealCommitteeState_def keyBytes_def gcm_example_def)
qed

lemma verify_example: "verifyOnchainOrder server_env_example share_example s = (Inr (), s)"
proof -
  have f: "fieldBytes 0 = Inr (replicate 32 0)" by code_simp
  have b: "buffer_from (replicate 32 0) = replicate 32 0" by code_simp
  have i: "startsWith INVOCATION INVOCATION" by (simp add: startsWith_def)
  show ?thesis
    using i by (simp add: verifyOnchainOrder_def server_env_example_def share_example_def io_bind_def io_lift_def
        program_account_def ask_def io_return_def f check_order_def check_transaction_def b del: replicate.simps)
qed

lemma handler_example:
  "\<exists>body s2. handler server_env_example encryption_key_example request_example server_example = (Inr (202, body), s2)"
proof -
  obtain m1 where m1: "member_submit (sv_hash server_env_example) (newMember 1) share_example = Inr m1"
    using submit_example by blast
  obtain t where t: "sealCommitteeState gcm_example (replicate 12 7)
      (state_value m1 (set_add (cs_market share_example) [])) (replicate 64 CHR ''a'') 1 = Inr t"
    using seal_example by blast
  have st: "\<exists>body s2. store_share server_env_example share_example server_example = (Inr (202, body), s2)"
    using m1 t by (simp add: store_share_def persist_def persist_text_def persist_write_def persist_rename_def
      io_bind_def io_lift_def io_return_def ask_def get_member_def set_member_def set_markets_def respond_def
      server_example_def) (simp add: server_env_example_def io_return_def)
  have a: "authorized server_env_example request_example"
    by (simp add: authorized_def server_env_example_def request_example_def) code_simp
  have m: "match_market ''/shares'' ''aggregate'' = None" by code_simp
  have "route server_env_example encryption_key_example request_example ''/shares'' server_example
      = store_share server_env_example share_example server_example"
    using a m share_of_request_example verify_example [of server_example]
    by (simp add: route_def request_example_def handle_share_def io_bind_def io_lift_def io_guard_def io_return_def)
      (simp add: server_env_example_def share_example_def)
  with st show ?thesis
    by (auto simp: handler_def io_catch_def io_bind_def io_lift_def server_env_example_def request_example_def)
qed

section \<open>Properties\<close>



text \<open>
  Claim C23. Without the service's token a request is answered by the health report, a refusal or an
  error, and changes nothing: neither the memory nor the files, and no other service is asked.
\<close>

theorem unauthorized_changes_nothing:
  assumes "\<not> authorized E request"
  shows "\<exists>status body. handler E key request s = (Inr (status, body), s) \<and> (status = 401 \<or> status = 400
    \<or> status = 200 \<and> rq_method request = ''GET''
        \<and> body = stringify (JObject [(''ok'', JBool True), (''memberIndex'', JNumber (JInt (sv_memberIndex E))),
             (''network'', JString ''solana-devnet'')]) @ [LF])"
  using assms
  by (auto simp: handler_def route_def io_catch_def io_bind_def io_lift_def respond_def io_return_def
      simp del: stringify.simps split: sum.split)

theorem unauthorized_changes_nothing_witness:
  "\<exists>status body. handler server_env_example encryption_key_example (request_example\<lparr>rq_authorization := None\<rparr>) server_example
     = (Inr (status, body), server_example) \<and> status \<noteq> 202"
proof -
  have c: "utf8_char c \<noteq> []" for c by (simp add: utf8_char_def Let_def)
  have "\<not> authorized server_env_example (request_example\<lparr>rq_authorization := None\<rparr>)"
    using c by (simp add: authorized_def utf8_def)
  from unauthorized_changes_nothing [OF this, of encryption_key_example server_example] show ?thesis by auto
qed



end
