(* ===== verification/CommitteeFlow.thy ===== *)
theory CommitteeFlow
  imports CommitteeServer
begin

text \<open>
  The two clients of the member services: the coordinator that turns two aggregates into one batch
  transaction (\<open>services/src/committee/coordinator.ts\<close>, \<open>auth.ts\<close>) and the web route that relays the
  keys and the encrypted shares (\<open>web/app/api/committee/shares/route.ts\<close>).

  \<open>Promise.all\<close> issues every request; when several fail, which of them failed first comes from the
  outside.  An aggregate is read at its declared type, as a share is in \<open>CommitteeServer\<close>.
\<close>

section \<open>Requests side by side\<close>

primrec io_settle :: "('w, 'a) io list \<Rightarrow> ('w, 'a res list) io" where
  "io_settle [] = io_return []"
| "io_settle (m # ms) = (\<lambda>w. case m w of (r, w') \<Rightarrow> io_bind (io_settle ms) (\<lambda>rs. io_return (r # rs)) w')"

primrec errors_of :: "'a res list \<Rightarrow> error list" where
  "errors_of [] = []"
| "errors_of (r # rs) = (case r of Inl e \<Rightarrow> e # errors_of rs | Inr x \<Rightarrow> errors_of rs)"

primrec values_of :: "'a res list \<Rightarrow> 'a list" where
  "values_of [] = []"
| "values_of (r # rs) = (case r of Inl e \<Rightarrow> values_of rs | Inr x \<Rightarrow> x # values_of rs)"

definition io_all :: "(error list \<Rightarrow> ('w, error) io) \<Rightarrow> ('w, 'a) io list \<Rightarrow> ('w, 'a list) io" where
  "io_all first ms =
     io_bind (io_settle ms) (\<lambda>rs.
       if errors_of rs = [] then io_return (values_of rs)
       else io_bind (first (errors_of rs)) io_throw)"

definition io_try :: "('w, 'a) io \<Rightarrow> ('w, 'a res) io" where
  "io_try m = (\<lambda>w. case m w of (r, w') \<Rightarrow> (Inr r, w'))"

text \<open>\<open>(text ?? '').split(',').map(trim).filter(Boolean)\<close>.\<close>

definition env_list :: "string option \<Rightarrow> string list" where
  "env_list v = filter (\<lambda>s. s \<noteq> []) (map trim (split_char CHR '','' (case v of Some s \<Rightarrow> s | None \<Rightarrow> [])))"

section \<open>The coordinator\<close>

definition checkedCommitteeApiTokens :: "string list \<Rightarrow> string list res" where
  "checkedCommitteeApiTokens vs =
     (if length vs \<noteq> 3 \<or> list_ex (\<lambda>v. length v < 24) vs
      then Inl (Error ''COMMITTEE_API_TOKENS must contain three long tokens in member order'')
      else if length (remdups vs) \<noteq> 3 then Inl (Error ''Committee API tokens must be distinct'')
      else Inr vs)"

definition decodeAggregate :: "json \<Rightarrow> CommitteeAggregate res" where
  "decodeAggregate v =
     rbind (json_BigInt (field v ''aggregateSideShare'')) (\<lambda>side.
     rbind (json_BigInt (field v ''aggregateYesAmountShare'')) (\<lambda>yes.
     rbind (json_BigInt (field v ''aggregateTotalAmountShare'')) (\<lambda>tot.
     rbind (typed (array_of (field v ''orderCommitments''))) (\<lambda>commitments.
     rbind (rmap_list (\<lambda>c. json_BigInt (Some c)) commitments) (\<lambda>orderCommitments.
     rbind (typed (string_of (field v ''market''))) (\<lambda>market.
     rbind (typed (num_value (field v ''memberIndex''))) (\<lambda>memberIndex.
     rbind (typed (num_value (field v ''orderCount''))) (\<lambda>orderCount.
       if orderCount < 0 then Inl Type_Error
       else Inr \<lparr>ca_market = market, ca_memberIndex = memberIndex, ca_orderCount = nat orderCount,
            ca_sideShare = side, ca_yesAmountShare = yes, ca_totalAmountShare = tot,
            ca_orderCommitments = orderCommitments\<rparr>))))))))"

text \<open>\<open>fetch\<close> with method, address, token and body.\<close>

type_synonym 'x member_fetch = "string \<Rightarrow> string \<Rightarrow> string \<Rightarrow> string option \<Rightarrow> ('x, int \<times> string) outside"

record 'x batch_env =
  bc_argument :: "string option"
  bc_keypairPath :: "string option"
  bc_endpoints :: "string list"
  bc_keypairPaths :: "string list"
  bc_tokens :: "string list"
  bc_key :: "string \<Rightarrow> pubkey res"
  bc_fetch :: "'x member_fetch"
  bc_first :: "error list \<Rightarrow> ('x, error) outside"
  bc_readKeypair :: "string \<Rightarrow> ('x, pubkey) outside"
  bc_hash :: hash2
  bc_rpc :: "tx \<Rightarrow> ('x, string) outside"

definition memberAggregate :: "'x batch_env \<Rightarrow> string \<Rightarrow> string \<Rightarrow> string \<Rightarrow> ('x world, CommitteeAggregate) io" where
  "memberAggregate E endpoint token market =
     io_bind (outside (bc_fetch E ''POST''
         (strip_slash endpoint @ ''/markets/'' @ encodeURIComponent market @ ''/aggregate'') token None)) (\<lambda>(status, body).
       if status = 409
       then io_throw (Ineligible_Private_Batch ''Private batch does not meet the minimum anonymity set'')
       else if \<not> response_ok status
       then io_throw (Error (''Committee aggregate failed with '' @ int_str status))
       else io_lift (rbind (json_parse body) decodeAggregate))"

definition purgeMember :: "'x batch_env \<Rightarrow> string \<Rightarrow> string \<Rightarrow> string \<Rightarrow> ('x world, bool) io" where
  "purgeMember E endpoint token market =
     io_bind (outside (bc_fetch E ''DELETE''
         (strip_slash endpoint @ ''/markets/'' @ encodeURIComponent market @ ''/shares'') token None)) (\<lambda>(status, body).
       io_return (response_ok status))"

definition purgeAll :: "'x batch_env \<Rightarrow> string list \<Rightarrow> string \<Rightarrow> ('x world, bool list) io" where
  "purgeAll E tokens market =
     io_all (\<lambda>es. outside (bc_first E es))
       (map (\<lambda>(endpoint, token). purgeMember E endpoint token market) (zip (bc_endpoints E) tokens))"

fun is_ineligible :: "error \<Rightarrow> bool" where
  "is_ineligible (Ineligible_Private_Batch s) = True"
| "is_ineligible e = js_includes (error_message e) ''one-sided''"

definition make_batch :: "'x batch_env \<Rightarrow> string list \<Rightarrow> string \<Rightarrow> ('x world, CommitteeBatch) io" where
  "make_batch E tokens market =
     io_bind (io_all (\<lambda>es. outside (bc_first E es))
       [memberAggregate E (bc_endpoints E ! 0) (tokens ! 0) market,
        memberAggregate E (bc_endpoints E ! 1) (tokens ! 1) market]) (\<lambda>aggregates.
       io_lift (finalizeCommitteeAggregates (bc_hash E) market (aggregates ! 0) (aggregates ! 1)))"

definition submit_tx :: "pubkey \<Rightarrow> pubkey list \<Rightarrow> CommitteeBatch \<Rightarrow> byte list \<Rightarrow> tx" where
  "submit_tx market signers batch rootBytes =
     (call_tx ''submitBatch''
        [A_struct [(''commitmentRoot'', A_bytes (bytes_to_numbers rootBytes)), (''yesCount'', A_int (cb_yesCount batch)),
           (''noCount'', A_int (cb_noCount batch)), (''yesAmount'', A_int (cb_yesAmount batch)),
           (''noAmount'', A_int (cb_noAmount batch))]]
        ((''market'', market) # map (\<lambda>s. (''remaining'', s)) signers))\<lparr>tx_signers := signers\<rparr>"

definition bools_json :: "bool list \<Rightarrow> json" where
  "bools_json bs = JArray (map JBool bs)"

definition submit_batch ::
    "'x batch_env \<Rightarrow> string list \<Rightarrow> string \<Rightarrow> pubkey \<Rightarrow> CommitteeBatch \<Rightarrow> ('x world, unit) io" where
  "submit_batch E tokens marketValue market batch =
     io_bind (outside (bc_readKeypair E (case bc_keypairPath E of Some p \<Rightarrow> p | None \<Rightarrow> []))) (\<lambda>payer.
     io_bind (io_all (\<lambda>es. outside (bc_first E es))
         (map (\<lambda>p. outside (bc_readKeypair E p)) (take 2 (bc_keypairPaths E)))) (\<lambda>signers.
     io_bind (io_lift (fieldBytes (cb_commitmentRoot batch))) (\<lambda>rootBytes.
     io_bind (send_tx (bc_rpc E) (submit_tx market signers batch rootBytes)) (\<lambda>signature.
     io_bind (purgeAll E tokens marketValue) (\<lambda>purged.
       log_event [(''event'', JString ''batch-submitted''), (''market'', JString marketValue),
         (''signature'', JString signature), (''yesCount'', JNumber (JInt (cb_yesCount batch))),
         (''noCount'', JNumber (JInt (cb_noCount batch))), (''yesAmount'', JString (int_str (cb_yesAmount batch))),
         (''noAmount'', JString (int_str (cb_noAmount batch))), (''purged'', bools_json purged)])))))"

definition coordinate :: "'x batch_env \<Rightarrow> ('x world, unit) io" where
  "coordinate E =
     (case bc_argument E of
        None \<Rightarrow> io_throw (Error ''Usage: npm run committee:batch -- <market-address>'')
      | Some marketValue \<Rightarrow>
          if marketValue = [] then io_throw (Error ''Usage: npm run committee:batch -- <market-address>'')
          else
          io_bind (io_guard (bc_keypairPath E = None) ''NORTIA_KEYPAIR_PATH is required as the transaction payer'') (\<lambda>_.
          io_bind (io_guard (length (bc_endpoints E) \<noteq> 3 \<or> length (bc_keypairPaths E) < 2)
            ''Three committee endpoints and two committee keypair paths are required'') (\<lambda>_.
          io_bind (io_lift (checkedCommitteeApiTokens (bc_tokens E))) (\<lambda>tokens.
          io_bind (io_lift (bc_key E marketValue)) (\<lambda>market.
          io_bind (io_try (make_batch E tokens marketValue)) (\<lambda>made.
            case made of
              Inr batch \<Rightarrow> submit_batch E tokens marketValue market batch
            | Inl e \<Rightarrow>
                if \<not> is_ineligible e then io_throw e
                else io_bind (purgeAll E tokens marketValue) (\<lambda>purged.
                  log_event [(''event'', JString ''batch-ineligible''), (''market'', JString marketValue),
                    (''reason'', JString (error_message e)), (''purged'', bools_json purged)])))))))"

section \<open>The web route\<close>

record 'x relay_env =
  rl_endpoints :: "string option"
  rl_tokens :: "string option"
  rl_fetch :: "'x member_fetch"
  rl_first :: "error list \<Rightarrow> ('x, error) outside"

definition configuration :: "'x relay_env \<Rightarrow> string list \<times> string list" where
  "configuration E = (env_list (rl_endpoints E), env_list (rl_tokens E))"

definition bad_tokens :: "string list \<Rightarrow> bool" where
  "bad_tokens tokens \<longleftrightarrow> length tokens \<noteq> 3 \<or> list_ex (\<lambda>t. length t < 24) tokens \<or> length (remdups tokens) \<noteq> 3"

type_synonym json_response = "int \<times> json"

definition error_response :: "int \<Rightarrow> string \<Rightarrow> json_response" where
  "error_response status message = (status, JObject [(''error'', JString message)])"

definition member_key :: "'x relay_env \<Rightarrow> nat \<times> string \<times> string \<Rightarrow> ('x, json) outside" where
  "member_key E entry = (case entry of (index, endpoint, token) \<Rightarrow>
     io_bind (rl_fetch E ''GET'' (strip_slash endpoint @ ''/encryption-key'') token None) (\<lambda>(status, body).
     io_bind (io_lift (json_parse body)) (\<lambda>v.
       if response_ok status \<and> v = JNull then io_throw Type_Error
       else if \<not> response_ok status \<or> field v ''memberIndex'' \<noteq> Some (JNumber (JInt (int index + 1)))
          \<or> jwk_kty (field v ''publicKey'') \<noteq> Some (JString ''RSA'')
       then io_throw (Error (''Committee member '' @ int_str (int index + 1) @ '' encryption key is unavailable''))
       else io_return v)))"

definition keys_route :: "'x relay_env \<Rightarrow> ('x, json_response) outside" where
  "keys_route E = (case configuration E of (endpoints, tokens) \<Rightarrow>
     if length endpoints \<noteq> 3 \<or> bad_tokens tokens
     then io_return (error_response 503 ''Committee encryption is not configured'')
     else io_catch
       (io_bind (io_all (rl_first E) (map (member_key E) (zip [0..<3] (zip endpoints tokens)))) (\<lambda>keys.
          io_return (200, JObject [(''keys'', JArray keys)])))
       (\<lambda>e. io_return (error_response 502 (error_message e))))"

text \<open>\<open>/re/.test(value)\<close> sees the text of any value.\<close>

definition test_text :: "json option \<Rightarrow> string" where
  "test_text v = (case v of None \<Rightarrow> ''undefined'' | Some x \<Rightarrow> js_String x)"

text \<open>\<open>value.length > n\<close>.\<close>

fun longer_than :: "nat \<Rightarrow> json option \<Rightarrow> bool res" where
  "longer_than n None = Inl Type_Error"
| "longer_than n (Some JNull) = Inl Type_Error"
| "longer_than n (Some (JString s)) = Inr (length s > n)"
| "longer_than n (Some (JArray xs)) = Inr (length xs > n)"
| "longer_than n (Some v) = Inr False"

definition check_envelope :: "nat \<Rightarrow> json \<Rightarrow> unit res" where
  "check_envelope index envelope =
     (if envelope = JNull then Inl Type_Error
      else if field envelope ''memberIndex'' \<noteq> Some (JNumber (JInt (int index + 1)))
      then Inl (Error ''Committee envelopes must be ordered by member index'')
      else
        let w = test_text (field envelope ''wrappedKey''); iv = test_text (field envelope ''iv'') in
        if \<not> (length w = 344 \<and> list_all b64_std (take 342 w) \<and> drop 342 w = ''=='')
           \<or> \<not> (length iv = 16 \<and> list_all b64_std iv)
           \<or> \<not> base64_syntax (test_text (field envelope ''ciphertext''))
        then Inl (Error ''Committee envelope is invalid'')
        else rbind (longer_than 8192 (field envelope ''ciphertext'')) (\<lambda>long.
          if long then Inl (Error ''Committee envelope is invalid'') else Inr ()))"

definition forward_envelope :: "'x relay_env \<Rightarrow> nat \<times> json \<times> string \<times> string \<Rightarrow> ('x, json) outside" where
  "forward_envelope E entry = (case entry of (index, envelope, endpoint, token) \<Rightarrow>
     io_bind (io_lift (check_envelope index envelope)) (\<lambda>_.
     io_bind (rl_fetch E ''POST'' (strip_slash endpoint @ ''/shares'') token (Some (stringify envelope))) (\<lambda>(status, body).
       if \<not> response_ok status
       then io_throw (Error (''Committee member '' @ int_str (int index + 1) @ '' rejected the share''))
       else io_lift (json_parse body))))"

text \<open>The content length is the one the platform read from the header; the body its text.\<close>

definition shares_route :: "'x relay_env \<Rightarrow> int \<Rightarrow> string \<Rightarrow> ('x, json_response) outside" where
  "shares_route E contentLength body = (case configuration E of (endpoints, tokens) \<Rightarrow>
     if length endpoints \<noteq> 3 then io_return (error_response 503 ''Three committee endpoints are required'')
     else if bad_tokens tokens
     then io_return (error_response 503 ''Distinct committee authentication is not configured'')
     else if contentLength > 32 * 1024 then io_return (error_response 413 ''Committee request is too large'')
     else io_catch
       (io_bind (io_lift (json_parse body)) (\<lambda>v.
          if v = JNull then io_throw Type_Error
          else case array_of (field v ''envelopes'') of
            None \<Rightarrow> io_return (error_response 400 ''Exactly three encrypted committee envelopes are required'')
          | Some envelopes \<Rightarrow>
              if length envelopes \<noteq> 3
              then io_return (error_response 400 ''Exactly three encrypted committee envelopes are required'')
              else io_bind (io_all (rl_first E)
                  (map (forward_envelope E) (zip [0..<3] (zip envelopes (zip endpoints tokens))))) (\<lambda>results.
                io_return (200, JObject [(''accepted'', JBool True), (''members'', JArray results)]))))
       (\<lambda>e. io_return (error_response 502 (error_message e))))"

section \<open>Lemmas\<close>

lemma io_settle_results:
  "\<exists>rs w'. io_settle ms w = (Inr rs, w') \<and> length rs = length ms
    \<and> (\<forall>i<length ms. \<exists>u u'. (ms ! i) u = (rs ! i, u'))"
proof (induction ms arbitrary: w)
  case (Cons m ms)
  obtain r w1 where m: "m w = (r, w1)" by fastforce
  from Cons obtain rs w' where rs: "io_settle ms w1 = (Inr rs, w')" "length rs = length ms"
    "\<forall>i<length ms. \<exists>u u'. (ms ! i) u = (rs ! i, u')" by blast
  have "\<exists>u u'. ((m # ms) ! i) u = ((r # rs) ! i, u')" if "i < length (m # ms)" for i
    using that m rs(3) by (cases i) auto
  with rs(1,2) m show ?case by (auto simp: io_bind_def io_return_def)
qed (simp add: io_return_def)

lemma no_errors: "errors_of rs = [] \<Longrightarrow> rs = map Inr (values_of rs)"
  by (induction rs) (auto split: sum.splits)

lemma io_all_InrD:
  assumes "io_all first ms w = (Inr vs, w')"
  shows "length vs = length ms" "i < length ms \<Longrightarrow> \<exists>u u'. (ms ! i) u = (Inr (vs ! i), u')"
proof -
  obtain rs w1 where rs: "io_settle ms w = (Inr rs, w1)" "length rs = length ms"
    "\<forall>i<length ms. \<exists>u u'. (ms ! i) u = (rs ! i, u')"
    using io_settle_results [of ms w] by (elim exE conjE)
  from assms rs(1) have e: "errors_of rs = []" and vs: "vs = values_of rs"
    by (auto simp: io_all_def io_bind_def io_return_def io_throw_def split: if_splits prod.splits sum.splits)
  from no_errors [OF e] vs have m: "rs = map Inr vs" by simp
  then show l: "length vs = length ms" using rs(2) by simp
  show "\<exists>u u'. (ms ! i) u = (Inr (vs ! i), u')" if "i < length ms"
    using that rs(3) l by (simp add: m)
qed

lemma silent_settle: "(\<And>m. m \<in> set ms \<Longrightarrow> silent m) \<Longrightarrow> silent (io_settle ms)"
proof (induction ms)
  case (Cons m ms)
  then have m: "silent m" "silent (io_settle ms)" by simp_all
  then have "silent (io_bind (io_settle ms) (\<lambda>rs. io_return (r # rs)))" for r
    by (intro sends_intros)
  with m show ?case by (auto simp: silent_def split: prod.split) (metis snd_conv)
qed (simp add: silent_return)

lemma silent_all:
  "(\<And>m. m \<in> set ms \<Longrightarrow> silent m) \<Longrightarrow> (\<And>es. silent (first es)) \<Longrightarrow> silent (io_all first ms)"
  unfolding io_all_def by (intro sends_intros silent_settle) simp_all

lemma silent_try: "silent m \<Longrightarrow> silent (io_try m)"
  by (auto simp: silent_def io_try_def split: prod.split) (metis snd_conv)

lemma silent_purgeAll: "silent (purgeAll E tokens market)"
  unfolding purgeAll_def
  by (intro silent_all) (auto simp: purgeMember_def split: prod.split intro!: sends_intros)

lemma silent_make_batch: "silent (make_batch E tokens market)"
  unfolding make_batch_def
  by (intro sends_intros silent_all) (auto simp: memberAggregate_def split: prod.split intro!: sends_intros)

lemma make_batch_InrD:
  "make_batch E tokens market w = (Inr batch, w')
    \<Longrightarrow> \<exists>a b. finalizeCommitteeAggregates (bc_hash E) market a b = Inr batch"
  by (auto simp: make_batch_def io_bind_def io_lift_def split: prod.splits sum.splits)

section \<open>Properties\<close>

text \<open>The one transaction a run may send.\<close>

definition sound_submission :: "'x batch_env \<Rightarrow> tx \<Rightarrow> bool" where
  "sound_submission E t \<longleftrightarrow>
     (\<exists>marketValue market signers batch rootBytes. bc_argument E = Some marketValue \<and> bc_key E marketValue = Inr market
        \<and> t = submit_tx market signers batch rootBytes \<and> fieldBytes (cb_commitmentRoot batch) = Inr rootBytes
        \<and> length signers = 2 \<and> 4 \<le> cb_orderCount batch \<and> 0 < cb_yesCount batch \<and> 0 < cb_noCount batch
        \<and> cb_yesCount batch + cb_noCount batch = int (cb_orderCount batch)
        \<and> cb_yesCount batch * 1000000 \<le> cb_yesAmount batch \<and> cb_noCount batch * 1000000 \<le> cb_noAmount batch)"

lemma submit_batch_sends:
  assumes "bc_argument E = Some marketValue" "bc_key E marketValue = Inr market"
    and "finalizeCommitteeAggregates (bc_hash E) marketValue a b = Inr batch" "2 \<le> length (bc_keypairPaths E)"
  shows "sends (sound_submission E) (submit_batch E tokens marketValue market batch)"
proof -
  note f = finalized_batch [OF assms(3)]
  have "sends (sound_submission E)
      (io_bind (io_all (\<lambda>es. outside (bc_first E es)) (map (\<lambda>p. outside (bc_readKeypair E p)) (take 2 (bc_keypairPaths E))))
        (\<lambda>signers. io_bind (io_lift (fieldBytes (cb_commitmentRoot batch))) (\<lambda>rootBytes.
         io_bind (send_tx (bc_rpc E) (submit_tx market signers batch rootBytes)) (rest signers))))"
    (is "sends _ (io_bind ?all ?next)")
    if rest: "\<And>signers signature. silent (rest signers signature)" for rest
  proof -
    have s: "silent ?all" by (intro silent_all) (auto intro: sends_intros)
    have n: "sends (sound_submission E) (?next signers)" if "length signers = 2" for signers
    proof (cases "fieldBytes (cb_commitmentRoot batch)")
      case (Inl e)
      then show ?thesis by (simp add: io_bind_lift silent_sends silent_throw)
    next
      case (Inr rootBytes)
      have "sound_submission E (submit_tx market signers batch rootBytes)"
        unfolding sound_submission_def using assms f that Inr by blast
      then show ?thesis using rest by (simp add: io_bind_lift Inr sends_before_silent sends_send_tx)
    qed
    show ?thesis
      by (rule sends_after_value [OF s]) (use n io_all_InrD(1) assms(4) in fastforce)
  qed
  note tail = this
  show ?thesis unfolding submit_batch_def
    by (rule sends_after_silent [OF silent_outside], rule tail) (intro sends_intros silent_purgeAll)
qed

text \<open>
  Claim C25. A run of the coordinator sends nothing or exactly one transaction, and that one is a
  batch for the market it was called with, signed by two committee keys, of at least four orders,
  with orders on both sides that add up and the minimum wager behind every order, whatever the
  members answer and in whatever order.
\<close>

theorem coordinator_sends_sound_batch:
  "w_sent (snd (coordinate E w)) = w_sent w
     \<or> (\<exists>t. sound_submission E t \<and> w_sent (snd (coordinate E w)) = w_sent w @ [t])"
proof -
  have run: "sends (sound_submission E) (io_bind (io_try (make_batch E tokens marketValue)) (\<lambda>made.
      case made of
        Inr batch \<Rightarrow> submit_batch E tokens marketValue market batch
      | Inl e \<Rightarrow> if \<not> is_ineligible e then io_throw e
          else io_bind (purgeAll E tokens marketValue) (\<lambda>purged. log_event (entry e purged))))"
    (is "sends _ (io_bind ?m ?f)")
    if "bc_argument E = Some marketValue" "bc_key E marketValue = Inr market" "2 \<le> length (bc_keypairPaths E)"
    for tokens marketValue market entry
  proof (rule sends_after_value [OF silent_try [OF silent_make_batch]])
    fix w made w'
    assume "?m w = (Inr made, w')"
    then have m: "make_batch E tokens marketValue w = (made, w')" by (auto simp: io_try_def split: prod.splits)
    show "sends (sound_submission E) (?f made)"
    proof (cases made)
      case (Inl e)
      then show ?thesis by (auto intro!: silent_sends sends_intros silent_purgeAll)
    next
      case (Inr batch)
      with make_batch_InrD m submit_batch_sends [OF that(1,2) _ that(3)] show ?thesis by fastforce
    qed
  qed
  have "sends (sound_submission E) (coordinate E)"
  proof (cases "bc_argument E")
    case None
    then show ?thesis by (simp add: coordinate_def silent_sends silent_throw)
  next
    case (Some marketValue)
    show ?thesis
    proof (cases "length (bc_endpoints E) \<noteq> 3 \<or> length (bc_keypairPaths E) < 2")
      case True
      then show ?thesis unfolding coordinate_def Some io_guard_def
        by (auto intro!: silent_sends sends_intros split: option.split)
    next
      case False
      then show ?thesis using run [OF Some]
        unfolding coordinate_def Some io_guard_def
        by (auto simp: io_bind_lift intro!: silent_sends [OF silent_throw] split: sum.split)
    qed
  qed
  then show ?thesis by (simp add: sends_def)
qed

text \<open>
  Claim C26. The browser is told that its shares were accepted only if every member accepted its
  own: the body holds three envelopes in member order with well-formed parts, and the answer of
  each member to the request that forwarded its envelope with its own token was a success.
\<close>

theorem relayed_shares_reach_every_member:
  assumes "shares_route E contentLength body x = (Inr (200, v), x')"
  shows "\<exists>request envelopes endpoints tokens. configuration E = (endpoints, tokens) \<and> length endpoints = 3
    \<and> distinct tokens \<and> json_parse body = Inr request \<and> array_of (field request ''envelopes'') = Some envelopes
    \<and> length envelopes = 3
    \<and> (\<forall>i<3. check_envelope i (envelopes ! i) = Inr ()
        \<and> (\<exists>u u' status answer. rl_fetch E ''POST'' (strip_slash (endpoints ! i) @ ''/shares'') (tokens ! i)
              (Some (stringify (envelopes ! i))) u = (Inr (status, answer), u') \<and> response_ok status))"
proof -
  obtain endpoints tokens where c: "configuration E = (endpoints, tokens)" by fastforce
  let ?f = "\<lambda>envelopes. map (forward_envelope E) (zip [0..<3] (zip envelopes (zip endpoints tokens)))"
  have l: "length endpoints = 3" "\<not> bad_tokens tokens"
    using assms by (auto simp: shares_route_def c error_response_def io_return_def split: if_splits)
  then have t: "length tokens = 3" "distinct tokens"
    by (auto simp: bad_tokens_def dest: card_distinct) (metis card_distinct length_remdups_card_conv)
  obtain request where r: "json_parse body = Inr request"
    using assms l by (auto simp: shares_route_def c error_response_def io_return_def io_catch_def io_bind_def
        io_lift_def split: if_splits sum.splits)
  obtain envelopes results x1 where e: "array_of (field request ''envelopes'') = Some envelopes"
    "length envelopes = 3" "io_all (rl_first E) (?f envelopes) x = (Inr results, x1)"
    using assms l r by (auto simp: shares_route_def c error_response_def io_return_def io_catch_def io_bind_def
        io_lift_def io_throw_def split: if_splits sum.splits option.splits prod.splits)
  have "check_envelope i (envelopes ! i) = Inr ()
      \<and> (\<exists>u u' status answer. rl_fetch E ''POST'' (strip_slash (endpoints ! i) @ ''/shares'') (tokens ! i)
            (Some (stringify (envelopes ! i))) u = (Inr (status, answer), u') \<and> response_ok status)"
    if i: "i < 3" for i
  proof -
    have "i < length (?f envelopes)" using i l(1) t(1) e(2) by simp
    from io_all_InrD(2) [OF e(3) this] obtain u u' where
      "forward_envelope E (i, envelopes ! i, endpoints ! i, tokens ! i) u = (Inr (results ! i), u')"
      using i l(1) t(1) e(2) by (auto simp: nth_append)
    then show ?thesis
      by (auto simp: forward_envelope_def io_bind_def io_lift_def io_throw_def split: sum.splits prod.splits if_splits)
  qed
  with c l(1) t(2) r e(1,2) show ?thesis by blast
qed

definition envelope_example :: "int \<Rightarrow> json" where
  "envelope_example i = JObject [(''memberIndex'', JNumber (JInt i)),
     (''wrappedKey'', JString (replicate 342 CHR ''A'' @ ''=='')), (''iv'', JString (replicate 16 CHR ''A'')),
     (''ciphertext'', JString ''AAAA'')]"

definition relay_env_example :: "unit relay_env" where
  "relay_env_example = \<lparr>rl_endpoints = Some ''a,b,c'',
     rl_tokens = Some (replicate 24 CHR ''x'' @ '','' @ replicate 24 CHR ''y'' @ '','' @ replicate 24 CHR ''z''),
     rl_fetch = (\<lambda>method address token body. io_return (202, ''null'')), rl_first = (\<lambda>es. io_return (hd es))\<rparr>"

theorem relayed_shares_reach_every_member_witness:
  "\<exists>v endpoints tokens. shares_route relay_env_example 0
      (stringify (JObject [(''envelopes'', JArray (map envelope_example [1, 2, 3]))])) () = (Inr (200, v), ())
    \<and> configuration relay_env_example = (endpoints, tokens) \<and> length endpoints = 3 \<and> distinct tokens"
proof -
  have c: "configuration relay_env_example = ([''a'', ''b'', ''c''],
      [replicate 24 CHR ''x'', replicate 24 CHR ''y'', replicate 24 CHR ''z''])"
    by (simp add: configuration_def relay_env_example_def) code_simp
  have t: "\<not> bad_tokens [replicate 24 CHR ''x'', replicate 24 CHR ''y'', replicate 24 CHR ''z'']" by code_simp
  have p: "plain (JObject [(''envelopes'', JArray (map envelope_example [1, 2, 3]))])"
    by (simp add: envelope_example_def map_ok_def)
  have A: "b64_std CHR ''A''" by code_simp
  have s: "base64_syntax ''AAAA''" by code_simp
  have k: "check_envelope n (envelope_example i) = Inr ()" if "i = int n + 1" for n i
    using that A s by (simp add: check_envelope_def envelope_example_def test_text_def map_get_def Let_def list_all_iff)
  have n: "json_parse ''null'' = Inr JNull" by code_simp
  have f: "rl_fetch relay_env_example m a t b = io_return (202, ''null'')" for m a t b
    by (simp add: relay_env_example_def)
  have w: "forward_envelope relay_env_example (j, envelope_example i, e, t) = io_return JNull" if "i = int j + 1" for i j e t
    using k [OF that] n by (simp add: forward_envelope_def f io_bind_lift response_ok_def)
      (simp add: io_lift_def io_return_def)
  have u: "[0..<3] = [0, 1, 2]" by code_simp
  have r: "io_all (rl_first relay_env_example) (map (forward_envelope relay_env_example) (zip [0..<3]
      (zip (map envelope_example [1, 2, 3]) (zip [''a'', ''b'', ''c'']
        [replicate 24 CHR ''x'', replicate 24 CHR ''y'', replicate 24 CHR ''z'']))))
    = io_return [JNull, JNull, JNull]"
    using w [of 1 0] w [of 2 1] w [of 3 2]
    by (simp add: u io_all_def) (simp add: io_bind_def io_return_def)
  have "shares_route relay_env_example 0
      (stringify (JObject [(''envelopes'', JArray (map envelope_example [1, 2, 3]))])) ()
    = (Inr (200, JObject [(''accepted'', JBool True), (''members'', JArray [JNull, JNull, JNull])]), ())"
    unfolding shares_route_def c prod.case json_round_trip [OF p] io_bind_lift sum.case
    using t r by (simp add: map_get_def io_catch_def) (simp add: io_bind_def io_return_def)
  from relayed_shares_reach_every_member [OF this] this c show ?thesis by auto
qed

end
