(* ===== verification/Prover.thy ===== *)
theory Prover
  imports Economics Committee CommitteeCrypto EffectLogic
begin

text \<open>
  The proof service: the checks of its requests (\<open>services/src/prover/requests.ts\<close>) and its handler
  with the circuit inputs it computes (\<open>services/src/prover/server.ts\<close>).

  Public keys, the file system and the child processes of the proving tools are the parameters of
  \<open>prover_env\<close>: each call may fail and acts on the state \<open>'x\<close> of the outside.
\<close>

section \<open>Checks of the requests\<close>

definition SCALAR_MODULUS :: int where
  "SCALAR_MODULUS = 21888242871839275222246405745257275088548364400416034343698204186575808495617"

record PlaceRequest =
  pl_marketId :: string
  pl_stakeAmount :: string
  pl_amount :: string
  pl_payer :: string
  pl_side :: bool
  pl_secret :: string
  pl_nullifier :: string
  pl_sideCoefficient :: string
  pl_yesAmountCoefficient :: string
  pl_totalAmountCoefficient :: string
  pl_salts :: "string list"

record RedeemRequest =
  rd_marketId :: string
  rd_stakeAmount :: string
  rd_amount :: string
  rd_commitmentRoot :: string
  rd_outcome :: bool
  rd_recipient :: string
  rd_payoutAmount :: string
  rd_netPool :: string
  rd_winningAmount :: string
  rd_side :: bool
  rd_secret :: string
  rd_nullifier :: string
  rd_pathBits :: "bool list"
  rd_siblings :: "string list"

text \<open>\<open>/^0x[0-9a-fA-F]{64}$/\<close> and \<open>/^\d+$/\<close>.\<close>

definition field_syntax :: "string \<Rightarrow> bool" where
  "field_syntax s \<longleftrightarrow> take 2 s = ''0x'' \<and> is_hex_any (drop 2 s)"

definition digits_syntax :: "string \<Rightarrow> bool" where
  "digits_syntax s \<longleftrightarrow> s \<noteq> [] \<and> list_all is_digit s"

definition proof_field :: "json option \<Rightarrow> string \<Rightarrow> int res" where
  "proof_field v name =
     (case string_of v of
        None \<Rightarrow> Inl (Error (name @ '' must be a 32-byte field''))
      | Some s \<Rightarrow>
          if \<not> field_syntax s then Inl (Error (name @ '' must be a 32-byte field''))
          else rbind (js_BigInt s) (\<lambda>parsed.
            if parsed \<ge> SCALAR_MODULUS then Inl (Error (name @ '' exceeds the BN254 scalar field'')) else Inr parsed))"

definition decimalU64 :: "json option \<Rightarrow> string \<Rightarrow> int res" where
  "decimalU64 v name =
     (case string_of v of
        None \<Rightarrow> Inl (Error (name @ '' must be a decimal integer''))
      | Some s \<Rightarrow>
          if \<not> digits_syntax s then Inl (Error (name @ '' must be a decimal integer''))
          else rbind (js_BigInt s) (\<lambda>parsed.
            if parsed > 18446744073709551615 then Inl (Error (name @ '' is outside the u64 range'')) else Inr parsed))"

definition privateStake :: "json option \<Rightarrow> int res" where
  "privateStake v =
     rbind (decimalU64 v ''stakeAmount'') (\<lambda>parsed.
       if \<not> list_ex (\<lambda>tokens. tokens * 1000000 = parsed) [1, 5, 10, 25, 50, 100, 250, 500, 1000]
       then Inl (Error ''stakeAmount is not a supported private collateral ceiling'') else Inr parsed)"

definition object_like :: "json \<Rightarrow> bool" where
  "object_like v \<longleftrightarrow> is_object v \<or> array_of (Some v) \<noteq> None"

definition text_of_field :: "json \<Rightarrow> string \<Rightarrow> string" where
  "text_of_field v k = (case string_of (field v k) of Some s \<Rightarrow> s | None \<Rightarrow> [])"

definition bool_of_field :: "json \<Rightarrow> string \<Rightarrow> bool" where
  "bool_of_field v k = (bool_of (field v k) = Some True)"

text \<open>A loop over named values that must be fields other than zero.\<close>

fun nonzero_fields :: "(string \<times> json option) list \<Rightarrow> unit res" where
  "nonzero_fields [] = Inr ()"
| "nonzero_fields ((name, item) # rest) =
     rbind (proof_field item name) (\<lambda>x.
       if x = 0 then Inl (Error (name @ '' must be non-zero'')) else nonzero_fields rest)"

definition checked_market_id :: "string \<Rightarrow> int res" where
  "checked_market_id s =
     rbind (js_BigInt s) (\<lambda>marketId.
       if marketId \<le> 0 \<or> marketId > 18446744073709551615
       then Inl (Error ''marketId is outside the u64 range'') else Inr marketId)"

definition strings_of :: "json list \<Rightarrow> string list" where
  "strings_of xs = map (\<lambda>x. case string_of (Some x) of Some s \<Rightarrow> s | None \<Rightarrow> []) xs"

definition checkedPlace :: "(string \<Rightarrow> pubkey res) \<Rightarrow> json \<Rightarrow> PlaceRequest res" where
  "checkedPlace key v =
     (if \<not> object_like v then Inl (Error ''Invalid proof request'')
      else if \<not> (case string_of (field v ''marketId'') of Some s \<Rightarrow> digits_syntax s | None \<Rightarrow> False)
      then Inl (Error ''marketId must be a decimal integer'')
      else
      rbind (privateStake (field v ''stakeAmount'')) (\<lambda>stakeAmount.
      rbind (decimalU64 (field v ''amount'') ''amount'') (\<lambda>amount.
      if amount < 1000000 \<or> amount > stakeAmount
      then Inl (Error ''amount must be between 1 USDC and stakeAmount'')
      else if string_of (field v ''payer'') = None then Inl (Error ''payer is required'')
      else if bool_of (field v ''side'') = None then Inl (Error ''side must be boolean'')
      else case array_of (field v ''salts'') of
        None \<Rightarrow> Inl (Error ''salts must contain three fields'')
      | Some saltFields \<Rightarrow>
          if length saltFields \<noteq> 3 then Inl (Error ''salts must contain three fields'')
          else
          rbind (checked_market_id (text_of_field v ''marketId'')) (\<lambda>_.
          rbind (key (text_of_field v ''payer'')) (\<lambda>_.
          rbind (nonzero_fields
              [(''secret'', field v ''secret''), (''nullifier'', field v ''nullifier''),
               (''sideCoefficient'', field v ''sideCoefficient''),
               (''yesAmountCoefficient'', field v ''yesAmountCoefficient''),
               (''totalAmountCoefficient'', field v ''totalAmountCoefficient''),
               (''salts[0]'', Some (saltFields ! 0)), (''salts[1]'', Some (saltFields ! 1)), (''salts[2]'', Some (saltFields ! 2))]) (\<lambda>_.
            Inr \<lparr>pl_marketId = text_of_field v ''marketId'', pl_stakeAmount = text_of_field v ''stakeAmount'',
                 pl_amount = text_of_field v ''amount'', pl_payer = text_of_field v ''payer'',
                 pl_side = bool_of_field v ''side'', pl_secret = text_of_field v ''secret'',
                 pl_nullifier = text_of_field v ''nullifier'',
                 pl_sideCoefficient = text_of_field v ''sideCoefficient'',
                 pl_yesAmountCoefficient = text_of_field v ''yesAmountCoefficient'',
                 pl_totalAmountCoefficient = text_of_field v ''totalAmountCoefficient'',
                 pl_salts = strings_of saltFields\<rparr>))))))"

definition bools_of :: "json list \<Rightarrow> bool list" where
  "bools_of xs = map (\<lambda>x. bool_of (Some x) = Some True) xs"

fun check_fields :: "nat \<Rightarrow> json list \<Rightarrow> unit res" where
  "check_fields n [] = Inr ()"
| "check_fields n (x # xs) =
     rbind (proof_field (Some x) (''siblings['' @ int_str (int n) @ '']'')) (\<lambda>_. check_fields (Suc n) xs)"

definition checkedRedeem :: "(string \<Rightarrow> pubkey res) \<Rightarrow> (pubkey \<Rightarrow> bool) \<Rightarrow> json \<Rightarrow> RedeemRequest res" where
  "checkedRedeem key isOnCurve v =
     (if \<not> object_like v then Inl (Error ''Invalid redeem proof request'')
      else if \<not> (case string_of (field v ''marketId'') of Some s \<Rightarrow> digits_syntax s | None \<Rightarrow> False)
      then Inl (Error ''marketId must be a decimal integer'')
      else
      rbind (privateStake (field v ''stakeAmount'')) (\<lambda>stakeAmount.
      rbind (decimalU64 (field v ''amount'') ''amount'') (\<lambda>amount.
      rbind (decimalU64 (field v ''payoutAmount'') ''payoutAmount'') (\<lambda>payout.
      rbind (decimalU64 (field v ''netPool'') ''netPool'') (\<lambda>net.
      rbind (decimalU64 (field v ''winningAmount'') ''winningAmount'') (\<lambda>winningAmount.
      if amount < 1000000 \<or> amount > stakeAmount
      then Inl (Error ''amount must be between 1 USDC and stakeAmount'')
      else if winningAmount = 0 then Inl (Error ''winningAmount must be positive'')
      else if string_of (field v ''recipient'') = None then Inl (Error ''recipient is required'')
      else if bool_of (field v ''outcome'') = None \<or> bool_of (field v ''side'') = None
      then Inl (Error ''outcome and side must be boolean'')
      else
      rbind (calculatePrivatePayout stakeAmount amount
          (bool_of_field v ''side'' = bool_of_field v ''outcome'') net winningAmount) (\<lambda>expected.
      if payout \<noteq> payoutAmount expected
      then Inl (Error ''payoutAmount does not match the confidential position settlement'')
      else case (array_of (field v ''pathBits''), array_of (field v ''siblings'')) of
        (Some bitFields, siblingFields) \<Rightarrow>
          if length bitFields \<noteq> TREE_DEPTH \<or> list_ex (\<lambda>b. bool_of (Some b) = None) bitFields
          then Inl (Error (''pathBits must contain '' @ int_str (int TREE_DEPTH) @ '' booleans''))
          else (case siblingFields of
            None \<Rightarrow> Inl (Error (''siblings must contain '' @ int_str (int TREE_DEPTH) @ '' fields''))
          | Some siblingFields \<Rightarrow>
              if length siblingFields \<noteq> TREE_DEPTH
              then Inl (Error (''siblings must contain '' @ int_str (int TREE_DEPTH) @ '' fields''))
              else
              rbind (checked_market_id (text_of_field v ''marketId'')) (\<lambda>_.
              rbind (key (text_of_field v ''recipient'')) (\<lambda>recipient.
              if \<not> isOnCurve recipient then Inl (Error ''recipient must be a wallet address'')
              else
              rbind (proof_field (field v ''commitmentRoot'') ''commitmentRoot'') (\<lambda>_.
              rbind (nonzero_fields [(''secret'', field v ''secret''), (''nullifier'', field v ''nullifier'')]) (\<lambda>_.
              rbind (check_fields 0 siblingFields) (\<lambda>_.
                Inr \<lparr>rd_marketId = text_of_field v ''marketId'', rd_stakeAmount = text_of_field v ''stakeAmount'',
                     rd_amount = text_of_field v ''amount'', rd_commitmentRoot = text_of_field v ''commitmentRoot'',
                     rd_outcome = bool_of_field v ''outcome'', rd_recipient = text_of_field v ''recipient'',
                     rd_payoutAmount = text_of_field v ''payoutAmount'', rd_netPool = text_of_field v ''netPool'',
                     rd_winningAmount = text_of_field v ''winningAmount'', rd_side = bool_of_field v ''side'',
                     rd_secret = text_of_field v ''secret'', rd_nullifier = text_of_field v ''nullifier'',
                     rd_pathBits = bools_of bitFields, rd_siblings = strings_of siblingFields\<rparr>))))))
      | _ \<Rightarrow> Inl (Error (''pathBits must contain '' @ int_str (int TREE_DEPTH) @ '' booleans'')))))))))"

section \<open>Circuit inputs\<close>

record 'x prover_env =
  pv_token :: "string option"
  pv_hash :: hash2
  pv_key :: "string \<Rightarrow> pubkey res"
  pv_isOnCurve :: "pubkey \<Rightarrow> bool"
  pv_repoRoot :: string
  pv_tmpdir :: string
  pv_join :: "string \<Rightarrow> string \<Rightarrow> string"
  pv_access :: "string \<Rightarrow> ('x, unit) outside"
  pv_mkdtemp :: "string \<Rightarrow> ('x, string) outside"
  pv_cp :: "string \<Rightarrow> string \<Rightarrow> ('x, unit) outside"
  pv_mkdir :: "string \<Rightarrow> ('x, unit) outside"
  pv_writeFile :: "string \<Rightarrow> string \<Rightarrow> ('x, unit) outside"
  pv_readFile :: "string \<Rightarrow> ('x, byte list) outside"
  pv_rm :: "string \<Rightarrow> ('x, unit) outside"
  pv_run :: "string \<Rightarrow> string list \<Rightarrow> string option \<Rightarrow> ('x, unit) outside"

definition prover_littleEndian :: "byte list \<Rightarrow> int res" where
  "prover_littleEndian bytes = js_BigInt (''0x'' @ bytes_hex (rev bytes))"

definition payerHash :: "hash2 \<Rightarrow> pubkey \<Rightarrow> int res" where
  "payerHash H payer =
     rbind (prover_littleEndian (take 16 payer)) (\<lambda>low.
     rbind (prover_littleEndian (drop 16 payer)) (\<lambda>high. Inr (H low high)))"

definition toml_field :: "string \<Rightarrow> int \<Rightarrow> string res" where
  "toml_field name v = rbind (fieldHex v) (\<lambda>h. Inr (name @ '' = '' @ [CHR 0x22] @ h @ [CHR 0x22]))"

definition toml_lines :: "(string \<times> int) list \<Rightarrow> string list res" where
  "toml_lines named = rmap_list (\<lambda>(name, v). toml_field name v) named"

definition bool_text :: "bool \<Rightarrow> string" where
  "bool_text b = (if b then ''true'' else ''false'')"

record PlaceStatement =
  ps_marketId :: int
  ps_stakeAmount :: int
  ps_payerHash :: int
  ps_commitment :: int
  ps_shareCommitments :: "int list"
  ps_secrets :: OrderSecrets

definition place_statement :: "'x prover_env \<Rightarrow> PlaceRequest \<Rightarrow> PlaceStatement res" where
  "place_statement E input =
     rbind (js_BigInt (pl_marketId input)) (\<lambda>marketId.
     rbind (js_BigInt (pl_stakeAmount input)) (\<lambda>stakeAmount.
     rbind (js_BigInt (pl_amount input)) (\<lambda>amount.
     rbind (pv_key E (pl_payer input)) (\<lambda>payer.
     rbind (proof_field (Some (JString (pl_secret input))) ''secret'') (\<lambda>secret.
     rbind (proof_field (Some (JString (pl_nullifier input))) ''nullifier'') (\<lambda>nullifier.
     rbind (proof_field (Some (JString (pl_sideCoefficient input))) ''sideCoefficient'') (\<lambda>sideCoefficient.
     rbind (proof_field (Some (JString (pl_yesAmountCoefficient input))) ''yesAmountCoefficient'') (\<lambda>yesAmountCoefficient.
     rbind (proof_field (Some (JString (pl_totalAmountCoefficient input))) ''totalAmountCoefficient'') (\<lambda>totalAmountCoefficient.
     rbind (rmap_list (\<lambda>(index, s). proof_field (Some (JString s)) (''salts['' @ int_str (int index) @ '']''))
         (enumerate 0 (pl_salts input))) (\<lambda>saltFields.
     let bundles = map (\<lambda>memberIndex.
           (createShamirShare (if pl_side input then 1 else 0) sideCoefficient memberIndex,
            createShamirShare (if pl_side input then amount else 0) yesAmountCoefficient memberIndex,
            createShamirShare amount totalAmountCoefficient memberIndex)) [1, 2, 3];
         commitment = orderCommitment (pv_hash E) marketId stakeAmount amount (pl_side input) secret nullifier;
         shareCommitments = map (\<lambda>(index, side, yes, tot). shareCommitment (pv_hash E) side yes tot (at_or saltFields index 0))
           (enumerate 0 bundles)
     in rbind (payerHash (pv_hash E) payer) (\<lambda>hash.
          Inr \<lparr>ps_marketId = marketId, ps_stakeAmount = stakeAmount, ps_payerHash = hash, ps_commitment = commitment,
               ps_shareCommitments = shareCommitments,
               ps_secrets = \<lparr>os_side = pl_side input, os_amount = amount, os_secret = secret, os_nullifier = nullifier,
                 os_sideCoefficient = sideCoefficient, os_yesAmountCoefficient = yesAmountCoefficient,
                 os_totalAmountCoefficient = totalAmountCoefficient, os_salts = saltFields\<rparr>\<rparr>)))))))))))"

definition place_toml :: "PlaceStatement \<Rightarrow> string res" where
  "place_toml p =
     (let s = ps_secrets p in
      rbind (toml_lines ([(''market_id'', ps_marketId p), (''stake_amount'', ps_stakeAmount p),
          (''payer_hash'', ps_payerHash p), (''commitment'', ps_commitment p)]
          @ map (\<lambda>(index, v). (''share_commitment_'' @ int_str (int index + 1), v)) (enumerate 0 (ps_shareCommitments p)))) (\<lambda>public.
      rbind (toml_lines ([(''secret'', os_secret s), (''nullifier'', os_nullifier s),
          (''side_coefficient'', os_sideCoefficient s), (''yes_amount_coefficient'', os_yesAmountCoefficient s),
          (''total_amount_coefficient'', os_totalAmountCoefficient s)]
          @ map (\<lambda>(index, v). (''salt_'' @ int_str (int index + 1), v)) (enumerate 0 (os_salts s)))) (\<lambda>private.
        Inr (js_join [LF] (public
          @ [''amount = '' @ int_str (os_amount s), ''side = '' @ bool_text (os_side s)] @ private @ [[]])))))"

text \<open>
  \<open>try ... finally\<close>, and the run of a circuit in a fresh directory, which both routines below write
  out with their own names of files.
\<close>

definition io_finally :: "('w, 'a) io \<Rightarrow> ('w, unit) io \<Rightarrow> ('w, 'a) io" where
  "io_finally m f w =
     (case m w of (r, w') \<Rightarrow>
        (case f w' of (Inl e, w'') \<Rightarrow> (Inl e, w'') | (Inr _, w'') \<Rightarrow> (r, w'')))"

definition runCircuit :: "'x prover_env \<Rightarrow> string \<Rightarrow> string \<Rightarrow> string \<Rightarrow> ('x, byte list \<times> byte list) outside" where
  "runCircuit E prefix circuit proverToml =
     io_bind (pv_mkdtemp E (pv_join E (pv_tmpdir E) prefix)) (\<lambda>temporaryRoot.
       let packageRoot = pv_join E temporaryRoot circuit;
           targetRoot = pv_join E packageRoot ''target'';
           target = (\<lambda>ext. ''target/'' @ circuit @ ext)
       in io_finally
         (io_bind (pv_cp E (pv_join E (pv_repoRoot E) (''circuits/'' @ circuit)) packageRoot) (\<lambda>_.
          io_bind (pv_mkdir E targetRoot) (\<lambda>_.
          io_bind (pv_writeFile E (pv_join E packageRoot ''Prover.toml'') proverToml) (\<lambda>_.
          io_bind (io_for (\<lambda>artifact.
              pv_cp E (pv_join E (pv_join E (pv_repoRoot E) ''circuits/target'') artifact) (pv_join E targetRoot artifact))
            [circuit @ ''.json'', circuit @ ''.ccs'', circuit @ ''.pk'']) (\<lambda>_.
          io_bind (pv_run E ''nargo'' [''execute''] (Some packageRoot)) (\<lambda>_.
          io_bind (pv_run E ''sunspot''
              [''prove'', target ''.json'', target ''.gz'', target ''.ccs'', target ''.pk''] (Some packageRoot)) (\<lambda>_.
          io_bind (pv_readFile E (pv_join E targetRoot (circuit @ ''.proof''))) (\<lambda>prf.
          io_bind (pv_readFile E (pv_join E targetRoot (circuit @ ''.pw''))) (\<lambda>publicWitness.
            io_return (prf, publicWitness))))))))))
         (if startsWith temporaryRoot (pv_join E (pv_tmpdir E) prefix) then pv_rm E temporaryRoot else io_return ()))"

definition provePlace :: "'x prover_env \<Rightarrow> PlaceRequest \<Rightarrow> ('x, json) outside" where
  "provePlace E input =
     io_bind (io_lift (rbind (place_statement E input) place_toml)) (\<lambda>proverToml.
     io_bind (runCircuit E ''nortia-place-'' ''place_order'' proverToml) (\<lambda>(prf, publicWitness).
       io_return (JObject [(''proof'', JString (base64_encode prf)),
         (''publicWitness'', JString (base64_encode publicWitness))])))"

record RedeemStatement =
  rs_marketId :: int
  rs_stakeAmount :: int
  rs_commitmentRoot :: int
  rs_nullifierHash :: int
  rs_recipientHash :: int
  rs_amounts :: "int \<times> int \<times> int"
  rs_amount :: int
  rs_secret :: int
  rs_nullifier :: int
  rs_siblings :: "int list"

definition redeem_statement :: "'x prover_env \<Rightarrow> RedeemRequest \<Rightarrow> RedeemStatement res" where
  "redeem_statement E input =
     rbind (js_BigInt (rd_marketId input)) (\<lambda>marketId.
     rbind (js_BigInt (rd_stakeAmount input)) (\<lambda>stakeAmount.
     rbind (js_BigInt (rd_amount input)) (\<lambda>amount.
     rbind (proof_field (Some (JString (rd_commitmentRoot input))) ''commitmentRoot'') (\<lambda>commitmentRoot.
     rbind (proof_field (Some (JString (rd_secret input))) ''secret'') (\<lambda>secret.
     rbind (proof_field (Some (JString (rd_nullifier input))) ''nullifier'') (\<lambda>nullifier.
     rbind (rmap_list (\<lambda>(index, s). proof_field (Some (JString s)) (''siblings['' @ int_str (int index) @ '']''))
         (enumerate 0 (rd_siblings input))) (\<lambda>siblingFields.
     let commitment = orderCommitment (pv_hash E) marketId stakeAmount amount (rd_side input) secret nullifier in
     rbind (merkleRoot (pv_hash E) commitment (rd_pathBits input) siblingFields) (\<lambda>computed.
     if computed \<noteq> commitmentRoot then Inl (Error ''Position is not included in the submitted commitment root'')
     else
     rbind (pv_key E (rd_recipient input)) (\<lambda>recipient.
     rbind (payerHash (pv_hash E) recipient) (\<lambda>hash.
     rbind (js_BigInt (rd_netPool input)) (\<lambda>net.
     rbind (js_BigInt (rd_winningAmount input)) (\<lambda>winningAmount.
     rbind (js_BigInt (rd_payoutAmount input)) (\<lambda>payout.
       Inr \<lparr>rs_marketId = marketId, rs_stakeAmount = stakeAmount, rs_commitmentRoot = commitmentRoot,
            rs_nullifierHash = nullifierHash (pv_hash E) marketId nullifier, rs_recipientHash = hash,
            rs_amounts = (net, winningAmount, payout), rs_amount = amount, rs_secret = secret,
            rs_nullifier = nullifier, rs_siblings = siblingFields\<rparr>)))))))))))))"

definition redeem_toml :: "RedeemRequest \<Rightarrow> RedeemStatement \<Rightarrow> string res" where
  "redeem_toml input r =
     (case rs_amounts r of (net, winningAmount, payout) \<Rightarrow>
      rbind (toml_lines [(''market_id'', rs_marketId r), (''stake_amount'', rs_stakeAmount r),
          (''commitment_root'', rs_commitmentRoot r)]) (\<lambda>first.
      rbind (toml_lines [(''nullifier_hash'', rs_nullifierHash r), (''recipient_hash'', rs_recipientHash r),
          (''net_pool'', net), (''winning_amount'', winningAmount), (''payout_amount'', payout)]) (\<lambda>second.
      rbind (toml_lines [(''secret'', rs_secret r), (''nullifier'', rs_nullifier r)]) (\<lambda>private.
      rbind (rmap_list fieldHex (rs_siblings r)) (\<lambda>siblingFields.
        Inr (js_join [LF] (first @ [''outcome = '' @ bool_text (rd_outcome input)] @ second
          @ [''amount = '' @ int_str (rs_amount r), ''side = '' @ bool_text (rd_side input)] @ private
          @ [''path_bits = ['' @ js_join '', '' (map bool_text (rd_pathBits input)) @ '']'',
             ''siblings = ['' @ js_join '', '' (map (\<lambda>h. [CHR 0x22] @ h @ [CHR 0x22]) siblingFields) @ '']'', []])))))))"

definition proveRedeem :: "'x prover_env \<Rightarrow> RedeemRequest \<Rightarrow> ('x, json) outside" where
  "proveRedeem E input =
     io_bind (io_lift (redeem_statement E input)) (\<lambda>r.
     io_bind (io_lift (redeem_toml input r)) (\<lambda>proverToml.
     io_bind (runCircuit E ''nortia-redeem-'' ''redeem'' proverToml) (\<lambda>(prf, publicWitness).
     io_bind (io_lift (fieldHex (rs_nullifierHash r))) (\<lambda>h.
       io_return (JObject [(''nullifierHash'', JString h), (''proof'', JString (base64_encode prf)),
         (''publicWitness'', JString (base64_encode publicWitness))])))))"

section \<open>The handler\<close>

record ServiceRequest =
  sq_method :: string
  sq_url :: string
  sq_authorization :: "string option"
  sq_body :: "byte list list"

definition bearer_authorized :: "string option \<Rightarrow> string option \<Rightarrow> bool" where
  "bearer_authorized token v =
     (let expected = utf8 (''Bearer '' @ (case token of Some t \<Rightarrow> t | None \<Rightarrow> []));
          actual = utf8 (case v of Some a \<Rightarrow> a | None \<Rightarrow> [])
      in length expected = length actual \<and> expected = actual)"

definition limitStep :: "nat \<Rightarrow> byte list list \<times> nat \<Rightarrow> byte list \<Rightarrow> (byte list list \<times> nat) res" where
  "limitStep limit st bytes =
     (case st of (chunks, count) \<Rightarrow>
       if count + length bytes > limit then Inl (Error ''Request body is too large'')
       else Inr (chunks @ [bytes], count + length bytes))"

definition limitedJson :: "nat \<Rightarrow> byte list list \<Rightarrow> json res" where
  "limitedJson limit body =
     rbind (rfold (limitStep limit) ([], 0) body) (\<lambda>(chunks, count). json_parse (utf8_text (concat chunks)))"

definition PROVER_MAX_BODY_BYTES :: nat where "PROVER_MAX_BODY_BYTES = 16 * 1024"

definition PROVER_ARTIFACTS :: "string list" where
  "PROVER_ARTIFACTS = [''place_order.json'', ''place_order.ccs'', ''place_order.pk'',
     ''redeem.json'', ''redeem.ccs'', ''redeem.pk'']"

definition prover_start :: "'x prover_env \<Rightarrow> ('x, unit) outside" where
  "prover_start E =
     io_bind (io_guard (case pv_token E of None \<Rightarrow> True | Some t \<Rightarrow> length t < 24)
       ''PROVER_API_TOKEN must be configured with at least 24 characters'') (\<lambda>_.
       io_for (\<lambda>artifact. pv_access E (pv_join E (pv_join E (pv_repoRoot E) ''circuits/target'') artifact))
         PROVER_ARTIFACTS)"

definition available :: "'x prover_env \<Rightarrow> string \<Rightarrow> string list \<Rightarrow> ('x, bool) outside" where
  "available E command args =
     io_catch (io_bind (pv_run E command args None) (\<lambda>_. io_return True)) (\<lambda>_. io_return False)"

definition prover_handler :: "'x prover_env \<Rightarrow> ServiceRequest \<Rightarrow> ('x, int \<times> json) outside" where
  "prover_handler E request =
     io_catch
       (if sq_method request = ''GET'' \<and> sq_url request = ''/health''
        then io_bind (available E ''nargo'' [''--version'']) (\<lambda>nargo.
             io_bind (available E ''sunspot'' [''--help'']) (\<lambda>sunspot.
               io_return (if nargo \<and> sunspot then 200 else 503,
                 JObject [(''ok'', JBool (nargo \<and> sunspot)), (''nargo'', JBool nargo), (''sunspot'', JBool sunspot)])))
        else if sq_method request \<noteq> ''POST'' \<or> (sq_url request \<noteq> ''/place'' \<and> sq_url request \<noteq> ''/redeem'')
        then io_return (404, JObject [(''error'', JString ''Not found'')])
        else if \<not> bearer_authorized (pv_token E) (sq_authorization request)
        then io_return (401, JObject [(''error'', JString ''Unauthorized'')])
        else io_bind (io_lift (limitedJson PROVER_MAX_BODY_BYTES (sq_body request))) (\<lambda>v.
             io_bind (if sq_url request = ''/place''
                 then io_bind (io_lift (checkedPlace (pv_key E) v)) (provePlace E)
                 else io_bind (io_lift (checkedRedeem (pv_key E) (pv_isOnCurve E) v)) (proveRedeem E)) (\<lambda>answer.
               io_return (200, answer))))
       (\<lambda>e. io_return (400, JObject [(''error'', JString (error_message e))]))"

section \<open>Lemmas\<close>

lemma string_of_Some: "string_of v = Some s \<longleftrightarrow> v = Some (JString s)"
  by (cases v rule: string_of.cases) auto

lemma digits_value:
  assumes "digits_syntax s"
  shows "\<exists>x. js_BigInt s = Inr x \<and> 0 \<le> x"
proof -
  have "all_digits 10 s" using assms by (simp add: digits_syntax_def all_digits_def is_digit_iff [abs_def])
  from js_BigInt_digits [OF this] show ?thesis by (simp add: radix_val_nonneg)
qed

lemma decimalU64_InrD:
  assumes "decimalU64 v name = Inr x"
  shows "\<exists>s. v = Some (JString s) \<and> js_BigInt s = Inr x \<and> 0 \<le> x \<and> x \<le> 18446744073709551615"
  using assms digits_value by (fastforce simp: decimalU64_def string_of_Some split: option.splits if_splits)

lemma privateStake_InrD:
  assumes "privateStake v = Inr x"
  shows "\<exists>s. v = Some (JString s) \<and> js_BigInt s = Inr x \<and> x \<in> (\<lambda>t. t * 1000000) ` {1, 5, 10, 25, 50, 100, 250, 500, 1000}"
  using assms decimalU64_InrD [of v "''stakeAmount''"] by (auto simp: privateStake_def split: if_splits)

lemma field_value:
  assumes "field_syntax s"
  shows "\<exists>x. js_BigInt s = Inr x \<and> 0 \<le> x"
proof -
  have s: "s = ''0x'' @ drop 2 s" using assms append_take_drop_id [of 2 s] by (simp add: field_syntax_def)
  have "all_digits 16 (drop 2 s)" using assms by (auto simp: field_syntax_def is_hex_any_def all_digits_def)
  then have "js_BigInt (''0x'' @ drop 2 s) = Inr (radix_val 16 (drop 2 s))" by (rule js_BigInt_hex)
  then show ?thesis unfolding s [symmetric] by (simp add: radix_val_nonneg)
qed

lemma proof_field_InrD:
  assumes "proof_field v name = Inr x"
  shows "\<exists>s. v = Some (JString s) \<and> 0 \<le> x \<and> x < SCALAR_MODULUS \<and> (\<forall>n. proof_field (Some (JString s)) n = Inr x)"
  using assms field_value by (fastforce simp: proof_field_def string_of_Some split: option.splits if_splits)

text \<open>A checked field of the request and its value.\<close>

definition field_text :: "string \<Rightarrow> int \<Rightarrow> bool" where
  "field_text s x \<longleftrightarrow> 0 \<le> x \<and> x < SCALAR_MODULUS \<and> (\<forall>n. proof_field (Some (JString s)) n = Inr x)"

lemma proof_field_text:
  assumes "proof_field (field v k) name = Inr x"
  shows "field_text (text_of_field v k) x"
  using proof_field_InrD [OF assms] by (auto simp: field_text_def text_of_field_def)

lemma nonzero_fields_Cons:
  "nonzero_fields ((name, item) # rest) = Inr u \<longleftrightarrow>
     (\<exists>x. proof_field item name = Inr x \<and> x \<noteq> 0 \<and> nonzero_fields rest = Inr u)"
  by (auto simp: rbind_eq_Inr)

lemma check_fields_values:
  assumes "check_fields n xs = Inr u"
  shows "\<exists>ys. length ys = length xs \<and> list_all2 field_text (strings_of xs) ys"
  using assms
proof (induction n xs rule: check_fields.induct)
  case (2 n x xs)
  then obtain y where y: "proof_field (Some x) (''siblings['' @ int_str (int n) @ '']'') = Inr y"
    and "check_fields (Suc n) xs = Inr u" by (auto simp: rbind_eq_Inr)
  with 2 obtain ys where "length ys = length xs" "list_all2 field_text (strings_of xs) ys" by auto
  moreover obtain s where "x = JString s" "field_text s y"
    using proof_field_InrD [OF y] by (auto simp: field_text_def)
  ultimately show ?case by (intro exI [of _ "y # ys"]) (simp add: strings_of_def)
qed (simp add: strings_of_def)

lemma rmap_field_text:
  assumes "list_all2 field_text ts ys"
  shows "rmap_list (\<lambda>(index, s). proof_field (Some (JString s)) (name index)) (enumerate n ts) = Inr ys"
  using assms by (induction ts ys arbitrary: n rule: list_all2_induct) (simp_all add: field_text_def)

subsection \<open>The hash of a wallet\<close>

lemma foldl_hex_bytes:
  "foldl (\<lambda>a c. a * 16 + digit_val c) a (bytes_hex bs) = foldl (\<lambda>a b. a * 256 + uint b) a bs"
proof (induction bs arbitrary: a)
  case (Cons b bs)
  have "(a * 16 + uint b div 16) * 16 + uint b mod 16 = a * 256 + uint b" for a :: int
    using div_mult_mod_eq [of "uint b" 16] by (simp add: distrib_right)
  then show ?case using Cons byte_nibbles [of b] by (simp add: bytes_hex_def hex_byte_def ac_simps)
qed (simp add: bytes_hex_def)

lemma foldl_or_bytes:
  "0 \<le> a \<Longrightarrow> foldl (\<lambda>v b. or (push_bit 8 v) (uint (b :: byte))) a bs = foldl (\<lambda>a b. a * 256 + uint b) a bs"
proof (induction bs arbitrary: a)
  case (Cons b bs)
  then have "or (push_bit 8 a) (uint b) = a * 256 + uint b"
    using uint_byte_range [of b] by (intro or_push_bit_8) auto
  with Cons uint_byte_range [of b] show ?case by simp
qed simp

lemma prover_littleEndian_eq:
  assumes "bs \<noteq> []"
  shows "prover_littleEndian bs = Inr (littleEndianInteger bs)"
proof -
  have "all_digits 16 (bytes_hex (rev bs))"
    using bytes_hex_lower [of "rev bs"] length_bytes_hex [of "rev bs"] assms lower_hex_digit
    by (auto simp: all_digits_def list_all_iff)
  from js_BigInt_hex [OF this] have "prover_littleEndian bs = Inr (radix_val 16 (bytes_hex (rev bs)))"
    by (simp add: prover_littleEndian_def)
  then show ?thesis
    unfolding radix_val_def foldl_hex_bytes littleEndianInteger_def foldl_or_bytes [OF order_refl] .
qed

lemma payerHash_eq: "length key = 32 \<Longrightarrow> payerHash H key = solanaPublicKeyHash H key"
proof -
  assume l: "length key = 32"
  then have "take 16 key \<noteq> []" "drop 16 key \<noteq> []" by auto
  from prover_littleEndian_eq [OF this(1)] prover_littleEndian_eq [OF this(2)] l show ?thesis
    by (simp add: payerHash_def solanaPublicKeyHash_def)
qed

subsection \<open>Accepted requests\<close>

lemma checked_market_id_InrD: "checked_market_id s = Inr x \<Longrightarrow> js_BigInt s = Inr x \<and> 0 < x \<and> x < 2 ^ 64"
  by (auto simp: checked_market_id_def split: if_splits)

lemma decimal_text: "decimalU64 (field v k) name = Inr x \<Longrightarrow> js_BigInt (text_of_field v k) = Inr x \<and> 0 \<le> x"
  using decimalU64_InrD [of "field v k" name x] by (auto simp: text_of_field_def)

lemma stake_text: "privateStake (field v k) = Inr x \<Longrightarrow> js_BigInt (text_of_field v k) = Inr x
    \<and> x \<in> (\<lambda>t. t * 1000000) ` {1, 5, 10, 25, 50, 100, 250, 500, 1000}"
  using privateStake_InrD [of "field v k" x] by (auto simp: text_of_field_def)

text \<open>What the checks of an order establish of each of its parts.\<close>

definition place_values ::
    "(string \<Rightarrow> pubkey res) \<Rightarrow> PlaceRequest \<Rightarrow> int \<Rightarrow> int \<Rightarrow> int \<Rightarrow> pubkey \<Rightarrow> int list \<Rightarrow> int list \<Rightarrow> bool" where
  "place_values key p marketId stake amount payer secrets saltValues \<longleftrightarrow>
     js_BigInt (pl_marketId p) = Inr marketId \<and> 0 < marketId \<and> marketId < 2 ^ 64
     \<and> js_BigInt (pl_stakeAmount p) = Inr stake \<and> stake \<in> (\<lambda>t. t * 1000000) ` {1, 5, 10, 25, 50, 100, 250, 500, 1000}
     \<and> js_BigInt (pl_amount p) = Inr amount \<and> 1000000 \<le> amount \<and> amount \<le> stake
     \<and> key (pl_payer p) = Inr payer
     \<and> list_all2 field_text [pl_secret p, pl_nullifier p, pl_sideCoefficient p, pl_yesAmountCoefficient p,
          pl_totalAmountCoefficient p] secrets
     \<and> list_all2 field_text (pl_salts p) saltValues \<and> length saltValues = 3
     \<and> 0 \<notin> set (secrets @ saltValues)"

lemma checkedPlace_parts:
  assumes "checkedPlace key v = Inr p"
  obtains saltFields stake amount marketId payer u where
    "array_of (field v ''salts'') = Some saltFields"
    "privateStake (field v ''stakeAmount'') = Inr stake"
    "decimalU64 (field v ''amount'') ''amount'' = Inr amount" "\<not> (amount < 1000000 \<or> stake < amount)"
    "length saltFields = 3"
    "checked_market_id (text_of_field v ''marketId'') = Inr marketId"
    "key (text_of_field v ''payer'') = Inr payer"
    "nonzero_fields
              [(''secret'', field v ''secret''), (''nullifier'', field v ''nullifier''),
               (''sideCoefficient'', field v ''sideCoefficient''),
               (''yesAmountCoefficient'', field v ''yesAmountCoefficient''),
               (''totalAmountCoefficient'', field v ''totalAmountCoefficient''),
               (''salts[0]'', Some (saltFields ! 0)), (''salts[1]'', Some (saltFields ! 1)),
               (''salts[2]'', Some (saltFields ! 2))] = Inr u"
    "p = \<lparr>pl_marketId = text_of_field v ''marketId'', pl_stakeAmount = text_of_field v ''stakeAmount'',
                 pl_amount = text_of_field v ''amount'', pl_payer = text_of_field v ''payer'',
                 pl_side = bool_of_field v ''side'', pl_secret = text_of_field v ''secret'',
                 pl_nullifier = text_of_field v ''nullifier'',
                 pl_sideCoefficient = text_of_field v ''sideCoefficient'',
                 pl_yesAmountCoefficient = text_of_field v ''yesAmountCoefficient'',
                 pl_totalAmountCoefficient = text_of_field v ''totalAmountCoefficient'',
                 pl_salts = strings_of saltFields\<rparr>"
  using assms unfolding checkedPlace_def rbind_eq_Inr check_Inr not_not sum.inject(2)
  apply (elim exE conjE)
  subgoal premises prems by (rule prems(1) [OF prems(9) prems(4-6,10-13) prems(14) [symmetric]])
  done


lemma nonzero_field_text:
  assumes "nonzero_fields ((name, field v k) # rest) = Inr u"
  shows "\<exists>x. field_text (text_of_field v k) x \<and> x \<noteq> 0 \<and> nonzero_fields rest = Inr u"
  using assms proof_field_text unfolding nonzero_fields_Cons by blast

lemma nonzero_value_text:
  assumes "nonzero_fields ((name, Some x) # rest) = Inr u"
  shows "\<exists>y. list_all2 field_text (strings_of [x]) [y] \<and> y \<noteq> 0 \<and> nonzero_fields rest = Inr u"
proof -
  obtain y where y: "proof_field (Some x) name = Inr y" "y \<noteq> 0" "nonzero_fields rest = Inr u"
    using assms unfolding nonzero_fields_Cons by blast
  with proof_field_InrD [OF y(1)] show ?thesis by (auto simp: strings_of_def field_text_def)
qed

lemma three_values:
  assumes "length xs = 3"
    and "nonzero_fields [(n, Some (xs ! 0)), (m, Some (xs ! 1)), (k, Some (xs ! 2))] = Inr u"
  shows "\<exists>ys. list_all2 field_text (strings_of xs) ys \<and> length ys = 3 \<and> 0 \<notin> set ys"
proof -
  obtain a b c where xs: "xs = [a, b, c]"
    using assms(1) by (auto simp: numeral_3_eq_3 length_Suc_conv)
  with assms(2) have f: "nonzero_fields [(n, Some a), (m, Some b), (k, Some c)] = Inr u" by simp
  obtain x where x: "list_all2 field_text (strings_of [a]) [x]" "x \<noteq> 0"
    and g: "nonzero_fields [(m, Some b), (k, Some c)] = Inr u" using nonzero_value_text [OF f] by blast
  obtain y where y: "list_all2 field_text (strings_of [b]) [y]" "y \<noteq> 0"
    and h: "nonzero_fields [(k, Some c)] = Inr u" using nonzero_value_text [OF g] by blast
  obtain z where z: "list_all2 field_text (strings_of [c]) [z]" "z \<noteq> 0" using nonzero_value_text [OF h] by blast
  show ?thesis using x y z by (intro exI [of _ "[x, y, z]"]) (simp add: xs strings_of_def)
qed

lemma checkedPlace_values:
  assumes "checkedPlace key v = Inr p"
  shows "\<exists>marketId stake amount payer xs ys. length xs = 5
    \<and> place_values key p marketId stake amount payer xs ys"
  using assms
proof (rule checkedPlace_parts)
  fix saltFields stake amount marketId payer u
  assume st: "privateStake (field v ''stakeAmount'') = Inr stake"
    and am: "decimalU64 (field v ''amount'') ''amount'' = Inr amount" "\<not> (amount < 1000000 \<or> stake < amount)"
    and l: "length saltFields = 3"
    and mi: "checked_market_id (text_of_field v ''marketId'') = Inr marketId"
    and pa: "key (text_of_field v ''payer'') = Inr payer"
    and nz: "nonzero_fields
              [(''secret'', field v ''secret''), (''nullifier'', field v ''nullifier''),
               (''sideCoefficient'', field v ''sideCoefficient''),
               (''yesAmountCoefficient'', field v ''yesAmountCoefficient''),
               (''totalAmountCoefficient'', field v ''totalAmountCoefficient''),
               (''salts[0]'', Some (saltFields ! 0)), (''salts[1]'', Some (saltFields ! 1)),
               (''salts[2]'', Some (saltFields ! 2))] = Inr u"
    and p: "p = \<lparr>pl_marketId = text_of_field v ''marketId'', pl_stakeAmount = text_of_field v ''stakeAmount'',
                 pl_amount = text_of_field v ''amount'', pl_payer = text_of_field v ''payer'',
                 pl_side = bool_of_field v ''side'', pl_secret = text_of_field v ''secret'',
                 pl_nullifier = text_of_field v ''nullifier'',
                 pl_sideCoefficient = text_of_field v ''sideCoefficient'',
                 pl_yesAmountCoefficient = text_of_field v ''yesAmountCoefficient'',
                 pl_totalAmountCoefficient = text_of_field v ''totalAmountCoefficient'',
                 pl_salts = strings_of saltFields\<rparr>"
  note step = nonzero_field_text
  from step [OF nz] obtain a where a: "field_text (text_of_field v ''secret'') a" "a \<noteq> 0" and n: "nonzero_fields
              [(''nullifier'', field v ''nullifier''),
               (''sideCoefficient'', field v ''sideCoefficient''),
               (''yesAmountCoefficient'', field v ''yesAmountCoefficient''),
               (''totalAmountCoefficient'', field v ''totalAmountCoefficient''),
               (''salts[0]'', Some (saltFields ! 0)), (''salts[1]'', Some (saltFields ! 1)),
               (''salts[2]'', Some (saltFields ! 2))] = Inr u" by blast
  from step [OF n] obtain b where b: "field_text (text_of_field v ''nullifier'') b" "b \<noteq> 0" and n: "nonzero_fields
              [(''sideCoefficient'', field v ''sideCoefficient''),
               (''yesAmountCoefficient'', field v ''yesAmountCoefficient''),
               (''totalAmountCoefficient'', field v ''totalAmountCoefficient''),
               (''salts[0]'', Some (saltFields ! 0)), (''salts[1]'', Some (saltFields ! 1)),
               (''salts[2]'', Some (saltFields ! 2))] = Inr u" by blast
  from step [OF n] obtain c where c: "field_text (text_of_field v ''sideCoefficient'') c" "c \<noteq> 0" and n: "nonzero_fields
              [(''yesAmountCoefficient'', field v ''yesAmountCoefficient''),
               (''totalAmountCoefficient'', field v ''totalAmountCoefficient''),
               (''salts[0]'', Some (saltFields ! 0)), (''salts[1]'', Some (saltFields ! 1)),
               (''salts[2]'', Some (saltFields ! 2))] = Inr u" by blast
  from step [OF n] obtain d where d: "field_text (text_of_field v ''yesAmountCoefficient'') d" "d \<noteq> 0"
    and n: "nonzero_fields [(''totalAmountCoefficient'', field v ''totalAmountCoefficient''),
               (''salts[0]'', Some (saltFields ! 0)), (''salts[1]'', Some (saltFields ! 1)),
               (''salts[2]'', Some (saltFields ! 2))] = Inr u" by blast
  from step [OF n] obtain f where f: "field_text (text_of_field v ''totalAmountCoefficient'') f" "f \<noteq> 0"
    and n: "nonzero_fields [(''salts[0]'', Some (saltFields ! 0)), (''salts[1]'', Some (saltFields ! 1)),
               (''salts[2]'', Some (saltFields ! 2))] = Inr u" by blast
  from three_values [OF l n] obtain ys where ys: "list_all2 field_text (strings_of saltFields) ys" "length ys = 3"
    "0 \<notin> set ys" by blast
  have "place_values key p marketId stake amount payer [a, b, c, d, f] ys"
    unfolding place_values_def
    apply (intro conjI)
    using stake_text [OF st] decimal_text [OF am(1)] am(2) checked_market_id_InrD [OF mi] pa ys a b c d f
    apply (simp_all add: p)
    done
  then show ?thesis by (intro exI [of _ "[a, b, c, d, f]"] exI conjI) simp_all
qed

text \<open>
  Every part of an accepted order is in range, and the statement is the one of these values.
\<close>

lemma place_statement_values:
  assumes "place_values (pv_key E) p marketId stake amount payer [a, b, c, d, f] saltValues" "length payer = 32"
  shows "\<exists>hash. solanaPublicKeyHash (pv_hash E) payer = Inr hash \<and>
    place_statement E p = Inr \<lparr>ps_marketId = marketId, ps_stakeAmount = stake, ps_payerHash = hash,
      ps_commitment = orderCommitment (pv_hash E) marketId stake amount (pl_side p) a b,
      ps_shareCommitments = map (\<lambda>(index, side, yes, tot). shareCommitment (pv_hash E) side yes tot (at_or saltValues index 0))
        (enumerate 0 (map (\<lambda>memberIndex.
           (createShamirShare (if pl_side p then 1 else 0) c memberIndex,
            createShamirShare (if pl_side p then amount else 0) d memberIndex,
            createShamirShare amount f memberIndex)) [1, 2, 3])),
      ps_secrets = \<lparr>os_side = pl_side p, os_amount = amount, os_secret = a, os_nullifier = b,
        os_sideCoefficient = c, os_yesAmountCoefficient = d, os_totalAmountCoefficient = f,
        os_salts = saltValues\<rparr>\<rparr>"
proof -
  obtain hash where h: "solanaPublicKeyHash (pv_hash E) payer = Inr hash"
    using assms(2) by (simp add: solanaPublicKeyHash_def)
  have t: "rmap_list (\<lambda>(index, s). proof_field (Some (JString s)) (''salts['' @ int_str (int index) @ '']''))
      (enumerate 0 (pl_salts p)) = Inr saltValues"
    by (rule rmap_field_text) (use assms(1) in \<open>simp add: place_values_def\<close>)
  show ?thesis
    using assms(1) h unfolding place_statement_def Let_def t payerHash_eq [OF assms(2)]
    by (simp add: place_values_def field_text_def payerHash_eq [OF assms(2)])
qed

lemma numbered_three: "enumerate 0 [a, b, c] = [(0, a), (1, b), (2, c)]"
  by (simp add: enumerate_eq_zip numeral_3_eq_3)

lemma less_three: "(i :: nat) < 3 \<Longrightarrow> i = 0 \<or> i = 1 \<or> i = 2"
  by linarith

lemma int_lt_three: "int i + 1 = (if i = 0 then 1 else if i = 1 then 2 else 3)" if "i < 3" for i :: nat
  using less_three [OF that] by auto

text \<open>The share commitments the prover computes are those of the bundles the panel cuts.\<close>

lemma prover_shares_are_panel_shares:
  assumes "i < 3"
  shows "map (\<lambda>(index, side, yes, tot). shareCommitment H side yes tot (at_or (os_salts s) index 0))
        (enumerate 0 (map (shareBundle s) [1, 2, 3])) ! i
      = cs_expectedShareCommitment (panelShare H mkt marketId stake s k signature i)"
  using less_three [OF assms]
  by (auto simp: numbered_three panelShare_def Let_def numeral_2_eq_2 split: prod.splits)

text \<open>
  Claim C27. An accepted order is well typed: the market identifier is a positive 64-bit integer, the
  stake is one of the supported ceilings, the amount lies between one USDC and the stake, the payer
  is a public key, and the secret, the nullifier, the three coefficients and exactly three salts
  are field elements other than zero, so that no later step of the proof can fail to read them.
\<close>

theorem checked_place_typed:
  assumes "checkedPlace key v = Inr p"
  shows "\<exists>marketId stake amount payer.
    js_BigInt (pl_marketId p) = Inr marketId \<and> 0 < marketId \<and> marketId < 2 ^ 64
    \<and> js_BigInt (pl_stakeAmount p) = Inr stake
    \<and> stake \<in> (\<lambda>tokens. tokens * 1000000) ` {1, 5, 10, 25, 50, 100, 250, 500, 1000}
    \<and> js_BigInt (pl_amount p) = Inr amount \<and> 1000000 \<le> amount \<and> amount \<le> stake
    \<and> key (pl_payer p) = Inr payer \<and> length (pl_salts p) = 3
    \<and> (\<forall>s \<in> set ([pl_secret p, pl_nullifier p, pl_sideCoefficient p, pl_yesAmountCoefficient p,
          pl_totalAmountCoefficient p] @ pl_salts p).
        \<exists>x. 0 < x \<and> x < SCALAR_MODULUS \<and> (\<forall>name. proof_field (Some (JString s)) name = Inr x))"
proof -
  from checkedPlace_values [OF assms] obtain marketId stake amount payer xs ys where
    pv: "place_values key p marketId stake amount payer xs ys" by blast
  let ?ts = "[pl_secret p, pl_nullifier p, pl_sideCoefficient p, pl_yesAmountCoefficient p,
          pl_totalAmountCoefficient p] @ pl_salts p"
  from pv have all: "list_all2 field_text ?ts (xs @ ys)" and nz: "0 \<notin> set (xs @ ys)"
    unfolding place_values_def by (blast intro: list_all2_appendI)+
  have l: "length (pl_salts p) = 3" using pv unfolding place_values_def by (metis list_all2_lengthD)
  have "\<exists>x. 0 < x \<and> x < SCALAR_MODULUS \<and> (\<forall>name. proof_field (Some (JString s)) name = Inr x)"
    if s: "s \<in> set ?ts" for s
  proof -
    from all s obtain x where "x \<in> set (xs @ ys)" "field_text s x"
      by (metis in_set_conv_nth list_all2_conv_all_nth)
    with nz show ?thesis by (metis field_text_def order_le_less)
  qed
  with pv l show ?thesis unfolding place_values_def by blast
qed

text \<open>
  What an order request carries, read off its texts: decimal and hexadecimal numbers, the side and
  the three salts.  It is stated without the service's own parsing, and fixes the numbers uniquely.
\<close>

definition number_field :: "json \<Rightarrow> string \<Rightarrow> int \<Rightarrow> bool" where
  "number_field v k x \<longleftrightarrow> (case field v k of Some (JString t) \<Rightarrow> js_BigInt t = Inr x | _ \<Rightarrow> False)"

definition request_carries :: "json \<Rightarrow> int \<Rightarrow> int \<Rightarrow> OrderSecrets \<Rightarrow> bool" where
  "request_carries v marketId stake s \<longleftrightarrow>
     number_field v ''marketId'' marketId \<and> number_field v ''stakeAmount'' stake
     \<and> number_field v ''amount'' (os_amount s) \<and> field v ''side'' = Some (JBool (os_side s))
     \<and> number_field v ''secret'' (os_secret s) \<and> number_field v ''nullifier'' (os_nullifier s)
     \<and> number_field v ''sideCoefficient'' (os_sideCoefficient s)
     \<and> number_field v ''yesAmountCoefficient'' (os_yesAmountCoefficient s)
     \<and> number_field v ''totalAmountCoefficient'' (os_totalAmountCoefficient s)
     \<and> (case field v ''salts'' of
          Some (JArray saltTexts) \<Rightarrow>
            list_all2 (\<lambda>j x. case j of JString t \<Rightarrow> js_BigInt t = Inr x | _ \<Rightarrow> False) saltTexts (os_salts s)
        | _ \<Rightarrow> False)"

lemma field_text_BigInt: "field_text s x \<Longrightarrow> js_BigInt s = Inr x"
  by (auto simp: field_text_def proof_field_def string_of_Some rbind_eq_Inr split: if_splits)

lemma number_field_text: "number_field v k x \<Longrightarrow> js_BigInt (text_of_field v k) = Inr x"
  by (auto simp: number_field_def text_of_field_def split: option.splits json.splits)

lemma salts_carried:
  assumes "list_all2 (\<lambda>j x. case j of JString t \<Rightarrow> js_BigInt t = Inr x | _ \<Rightarrow> False) saltTexts xs"
    and "list_all2 field_text (strings_of saltTexts) ys"
  shows "ys = xs"
  using assms
proof (induction saltTexts xs arbitrary: ys rule: list_all2_induct)
  case (Cons j js x xs)
  then show ?case
    by (cases ys) (auto simp: strings_of_def dest: field_text_BigInt split: json.splits)
qed (simp add: strings_of_def)

lemma accepted_order_values:
  assumes "checkedPlace key v = Inr p" "request_carries v marketId stake s"
    and "field v ''payer'' = Some (JString w)" "key w = Inr payer"
  shows "place_values key p marketId stake (os_amount s) payer
      [os_secret s, os_nullifier s, os_sideCoefficient s, os_yesAmountCoefficient s, os_totalAmountCoefficient s]
      (os_salts s) \<and> pl_side p = os_side s"
proof -
  from checkedPlace_values [OF assms(1)] obtain marketId' stake' amount payer' xs ys where
    l: "length xs = 5" and pv: "place_values key p marketId' stake' amount payer' xs ys" by blast
  obtain a b c d f where xs: "xs = [a, b, c, d, f]"
    using l by (auto simp: numeral_eq_Suc length_Suc_conv)
  obtain saltTexts where saltTexts: "field v ''salts'' = Some (JArray saltTexts)"
    "list_all2 (\<lambda>j x. case j of JString t \<Rightarrow> js_BigInt t = Inr x | _ \<Rightarrow> False) saltTexts (os_salts s)"
    using assms(2) by (auto simp: request_carries_def split: option.splits json.splits)
  from assms(1) obtain "text_of_field v ''payer'' = pl_payer p" "pl_salts p = strings_of saltTexts"
    "pl_side p = bool_of_field v ''side''" "pl_marketId p = text_of_field v ''marketId''"
    "pl_stakeAmount p = text_of_field v ''stakeAmount''" "pl_amount p = text_of_field v ''amount''"
    "pl_secret p = text_of_field v ''secret''" "pl_nullifier p = text_of_field v ''nullifier''"
    "pl_sideCoefficient p = text_of_field v ''sideCoefficient''"
    "pl_yesAmountCoefficient p = text_of_field v ''yesAmountCoefficient''"
    "pl_totalAmountCoefficient p = text_of_field v ''totalAmountCoefficient''"
    by (rule checkedPlace_parts) (simp add: saltTexts)
  note p = this
  have t: "js_BigInt (text_of_field v k) = Inr x" if "number_field v k x" for k x
    using that by (rule number_field_text)
  have fx: "field_text (pl_secret p) a" "field_text (pl_nullifier p) b" "field_text (pl_sideCoefficient p) c"
    "field_text (pl_yesAmountCoefficient p) d" "field_text (pl_totalAmountCoefficient p) f"
    "list_all2 field_text (strings_of saltTexts) ys" "key (pl_payer p) = Inr payer'"
    "js_BigInt (pl_marketId p) = Inr marketId'" "js_BigInt (pl_stakeAmount p) = Inr stake'"
    "js_BigInt (pl_amount p) = Inr amount"
    using pv by (simp_all add: place_values_def xs p)
  have "ys = os_salts s" by (rule salts_carried [OF saltTexts(2) fx(6)])
  moreover have "pl_payer p = w" using p(1) assms(3) by (simp add: text_of_field_def)
  moreover have "pl_side p = os_side s"
    using assms(2) by (simp add: request_carries_def p bool_of_field_def)
  moreover have "a = os_secret s" "b = os_nullifier s" "c = os_sideCoefficient s" "d = os_yesAmountCoefficient s"
    "f = os_totalAmountCoefficient s" "marketId' = marketId" "stake' = stake" "amount = os_amount s"
    using assms(2) fx(1-5) [THEN field_text_BigInt] fx(8-10) unfolding p request_carries_def
    by (auto dest!: t)
  ultimately show ?thesis using pv fx(7) assms(4) xs by simp
qed

text \<open>
  Claim C28. The hosted prover proves the statement the order panel commits to: if the service
  accepts a request, and \<open>s\<close> are the numbers that the panel wrote into it, the public inputs it
  writes for the circuit are the wallet hash of the payer named in the request, the commitment the
  panel computes from \<open>s\<close>, and the share commitments of the three shares the panel cuts from \<open>s\<close> for
  the members, although the service reads the numbers back from text and hashes the key with its own
  routine.  The private inputs are \<open>s\<close> as well.
\<close>

theorem hosted_prover_matches_panel:
  assumes "checkedPlace (pv_key E) v = Inr p" "request_carries v marketId stake s"
    and "field v ''payer'' = Some (JString w)" "pv_key E w = Inr payer" "length payer = 32"
  shows "\<exists>st. place_statement E p = Inr st
    \<and> ps_marketId st = marketId \<and> ps_stakeAmount st = stake \<and> ps_secrets st = s
    \<and> solanaPublicKeyHash (pv_hash E) payer = Inr (ps_payerHash st)
    \<and> ps_commitment st = panelCommitment (pv_hash E) marketId stake s
    \<and> length (ps_shareCommitments st) = 3
    \<and> (\<forall>i < 3. ps_shareCommitments st ! i
        = cs_expectedShareCommitment (panelShare (pv_hash E) mkt marketId stake s orderIndex signature i))"
proof -
  from accepted_order_values [OF assms(1-4)] have side: "pl_side p = os_side s"
    and pv: "place_values (pv_key E) p marketId stake (os_amount s) payer
      [os_secret s, os_nullifier s, os_sideCoefficient s, os_yesAmountCoefficient s, os_totalAmountCoefficient s]
      (os_salts s)" by simp_all
  from place_statement_values [OF pv assms(5)] obtain hash where
    h: "solanaPublicKeyHash (pv_hash E) payer = Inr hash"
    and st: "place_statement E p = Inr \<lparr>ps_marketId = marketId, ps_stakeAmount = stake, ps_payerHash = hash,
      ps_commitment = panelCommitment (pv_hash E) marketId stake s,
      ps_shareCommitments = map (\<lambda>(index, side, yes, tot). shareCommitment (pv_hash E) side yes tot (at_or (os_salts s) index 0))
        (enumerate 0 (map (shareBundle s) [1, 2, 3])), ps_secrets = s\<rparr>" (is "_ = Inr ?st")
    unfolding side by (auto simp: panelCommitment_def shareBundle_def)
  have sh: "ps_shareCommitments ?st ! i = cs_expectedShareCommitment (panelShare (pv_hash E) mkt
       marketId stake s orderIndex signature i)" if "i < 3" for i
    using prover_shares_are_panel_shares [OF that] by (simp only: PlaceStatement.select_convs)
  show ?thesis
    by (rule exI [of _ ?st]) (use h st sh in simp)
qed

subsection \<open>Accepted redemptions\<close>

lemma pair_check_Inr:
  "(case (x, y) of (Some a, s) \<Rightarrow> f a s | _ \<Rightarrow> Inl e) = Inr z \<longleftrightarrow> (\<exists>a. x = Some a \<and> f a y = Inr z)"
  by (auto split: option.splits)

lemma checkedRedeem_parts:
  assumes "checkedRedeem key isOnCurve v = Inr p"
  obtains stake amount payout net winningAmount expected bitFields where
    "privateStake (field v ''stakeAmount'') = Inr stake"
    "decimalU64 (field v ''amount'') ''amount'' = Inr amount"
    "decimalU64 (field v ''payoutAmount'') ''payoutAmount'' = Inr payout"
    "decimalU64 (field v ''netPool'') ''netPool'' = Inr net"
    "decimalU64 (field v ''winningAmount'') ''winningAmount'' = Inr winningAmount"
    "calculatePrivatePayout stake amount
      (bool_of_field v ''side'' = bool_of_field v ''outcome'') net winningAmount = Inr expected"
    "payout = payoutAmount expected"
    "length bitFields = TREE_DEPTH"
    "array_of (field v ''pathBits'') = Some bitFields" "\<not> list_ex (\<lambda>b. bool_of (Some b) = None) bitFields"
    "string_of (field v ''marketId'') \<noteq> None" "bool_of (field v ''side'') \<noteq> None" "rd_pathBits p = bools_of bitFields"
    "nonzero_fields [(''secret'', field v ''secret''), (''nullifier'', field v ''nullifier'')] = Inr ()"
    "\<exists>r. proof_field (field v ''commitmentRoot'') ''commitmentRoot'' = Inr r"
    "rd_commitmentRoot p = text_of_field v ''commitmentRoot''"
    "rd_marketId p = text_of_field v ''marketId''" "rd_secret p = text_of_field v ''secret''"
    "rd_nullifier p = text_of_field v ''nullifier''"
    "rd_stakeAmount p = text_of_field v ''stakeAmount''"
    "rd_amount p = text_of_field v ''amount''" "rd_payoutAmount p = text_of_field v ''payoutAmount''"
    "rd_netPool p = text_of_field v ''netPool''" "rd_winningAmount p = text_of_field v ''winningAmount''"
    "rd_side p = bool_of_field v ''side''" "rd_outcome p = bool_of_field v ''outcome''"
  using assms unfolding checkedRedeem_def rbind_eq_Inr check_Inr pair_check_Inr not_not sum.inject(2)
  apply (elim exE conjE)
  subgoal premises prems
    by (rule prems(1) [OF prems(4-8,13,14)]) (use prems(3,12,15,16,22,23) prems(25) [symmetric] in \<open>auto split: option.splits\<close>)
  done

lemma redeem_statement_parts:
  assumes "redeem_statement E p = Inr st"
  obtains computed where
    "js_BigInt (rd_stakeAmount p) = Inr (rs_stakeAmount st)" "js_BigInt (rd_amount p) = Inr (rs_amount st)"
    "merkleRoot (pv_hash E) (orderCommitment (pv_hash E) (rs_marketId st) (rs_stakeAmount st) (rs_amount st)
      (rd_side p) (rs_secret st) (rs_nullifier st)) (rd_pathBits p) (rs_siblings st) = Inr computed"
    "computed = rs_commitmentRoot st"
    "js_BigInt (rd_netPool p) = Inr (fst (rs_amounts st))"
    "js_BigInt (rd_winningAmount p) = Inr (fst (snd (rs_amounts st)))"
    "js_BigInt (rd_payoutAmount p) = Inr (snd (snd (rs_amounts st)))"
    "rs_nullifierHash st = nullifierHash (pv_hash E) (rs_marketId st) (rs_nullifier st)"
    "js_BigInt (rd_marketId p) = Inr (rs_marketId st)"
    "proof_field (Some (JString (rd_commitmentRoot p))) ''commitmentRoot'' = Inr (rs_commitmentRoot st)"
    "proof_field (Some (JString (rd_secret p))) ''secret'' = Inr (rs_secret st)"
    "proof_field (Some (JString (rd_nullifier p))) ''nullifier'' = Inr (rs_nullifier st)"
  using assms unfolding redeem_statement_def Let_def rbind_eq_Inr check_Inr not_not sum.inject(2)
  apply (elim exE conjE)
  subgoal premises prems
    by (rule prems(1)) (use prems(2-7,9,10,13-15) prems(16) [symmetric] in simp_all)
  done

lemma number_fieldI:
  "string_of (field v k) \<noteq> None \<Longrightarrow> js_BigInt (text_of_field v k) = Inr x \<Longrightarrow> number_field v k x"
  by (auto simp: number_field_def text_of_field_def string_of_Some split: option.splits)

lemma decimal_number: "decimalU64 (field v k) name = Inr x \<Longrightarrow> number_field v k x"
  using decimalU64_InrD [of "field v k" name x] by (auto simp: number_field_def)

lemma stake_number: "privateStake (field v k) = Inr x \<Longrightarrow> number_field v k x"
  using privateStake_InrD [of "field v k" x] by (auto simp: number_field_def)

lemma proof_number:
  assumes "proof_field (field v k) name = Inr y" "proof_field (Some (JString (text_of_field v k))) m = Inr x"
  shows "number_field v k x"
proof -
  from proof_field_InrD [OF assms(1)] obtain t where t: "field v k = Some (JString t)" by blast
  with assms(2) have "js_BigInt t = Inr x"
    using field_text_BigInt proof_field_InrD [OF assms(2)] by (auto simp: field_text_def text_of_field_def)
  with t show ?thesis by (simp add: number_field_def)
qed

lemma nonzero_number:
  assumes "nonzero_fields ((name, field v k) # rest) = Inr u" "proof_field (Some (JString (text_of_field v k))) m = Inr x"
  shows "number_field v k x"
  using assms proof_number unfolding nonzero_fields_Cons by blast

lemma all_bools: "\<not> list_ex (\<lambda>b. bool_of (Some b) = None) xs \<Longrightarrow> xs = map JBool (bools_of xs)"
proof (induction xs)
  case (Cons x xs)
  then show ?case by (cases x) (simp_all add: bools_of_def)
qed (simp add: bools_of_def)

text \<open>
  What a redemption request says of the position it redeems and of the batch, read off its texts.
\<close>

definition redemption_carries ::
    "json \<Rightarrow> int \<Rightarrow> order_opening \<Rightarrow> bool list \<Rightarrow> int \<Rightarrow> int \<Rightarrow> int \<Rightarrow> bool" where
  "redemption_carries v batch position bits net winningAmount payout \<longleftrightarrow>
     number_field v ''commitmentRoot'' batch
     \<and> (case position of (m, s, a, d, k, n) \<Rightarrow>
        number_field v ''marketId'' m \<and> number_field v ''stakeAmount'' s
        \<and> number_field v ''amount'' a \<and> field v ''side'' = Some (JBool d)
        \<and> number_field v ''secret'' k \<and> number_field v ''nullifier'' n)
     \<and> field v ''pathBits'' = Some (JArray (map JBool bits))
     \<and> number_field v ''netPool'' net \<and> number_field v ''winningAmount'' winningAmount
     \<and> number_field v ''payoutAmount'' payout"

lemma redeem_carries:
  assumes "checkedRedeem (pv_key E) isOnCurve v = Inr p" "redeem_statement E p = Inr st"
    and "rs_amounts st = (net, winningAmount, payout)" "field v ''outcome'' = Some (JBool outcome)"
  shows "redemption_carries v (rs_commitmentRoot st)
      (rs_marketId st, rs_stakeAmount st, rs_amount st, rd_side p, rs_secret st, rs_nullifier st)
      (rd_pathBits p) net winningAmount payout
    \<and> (\<exists>pay. calculatePrivatePayout (rs_stakeAmount st) (rs_amount st) (rd_side p = outcome) net winningAmount
        = Inr pay \<and> payout = payoutAmount pay)"
  using assms(1)
proof (rule checkedRedeem_parts)
  fix stake amount pay net' win' expected bitFields
  assume c: "privateStake (field v ''stakeAmount'') = Inr stake"
    "decimalU64 (field v ''amount'') ''amount'' = Inr amount"
    "decimalU64 (field v ''payoutAmount'') ''payoutAmount'' = Inr pay"
    "decimalU64 (field v ''netPool'') ''netPool'' = Inr net'"
    "decimalU64 (field v ''winningAmount'') ''winningAmount'' = Inr win'"
    and e: "calculatePrivatePayout stake amount (bool_of_field v ''side'' = bool_of_field v ''outcome'') net' win'
      = Inr expected" "pay = payoutAmount expected"
    and b: "array_of (field v ''pathBits'') = Some bitFields" "\<not> list_ex (\<lambda>b. bool_of (Some b) = None) bitFields"
      "rd_pathBits p = bools_of bitFields"
    and m: "string_of (field v ''marketId'') \<noteq> None" "rd_marketId p = text_of_field v ''marketId''"
    and nz: "nonzero_fields [(''secret'', field v ''secret''), (''nullifier'', field v ''nullifier'')] = Inr ()"
    and p: "rd_stakeAmount p = text_of_field v ''stakeAmount''"
      "rd_amount p = text_of_field v ''amount''" "rd_payoutAmount p = text_of_field v ''payoutAmount''"
      "rd_netPool p = text_of_field v ''netPool''" "rd_winningAmount p = text_of_field v ''winningAmount''"
      "rd_side p = bool_of_field v ''side''" "rd_secret p = text_of_field v ''secret''"
      "rd_nullifier p = text_of_field v ''nullifier''"
    and si: "bool_of (field v ''side'') \<noteq> None"
    and ro: "\<exists>r. proof_field (field v ''commitmentRoot'') ''commitmentRoot'' = Inr r"
      "rd_commitmentRoot p = text_of_field v ''commitmentRoot''"
  from assms(2) show ?thesis
  proof (rule redeem_statement_parts)
    assume s: "js_BigInt (rd_stakeAmount p) = Inr (rs_stakeAmount st)" "js_BigInt (rd_amount p) = Inr (rs_amount st)"
      "js_BigInt (rd_netPool p) = Inr (fst (rs_amounts st))"
      "js_BigInt (rd_winningAmount p) = Inr (fst (snd (rs_amounts st)))"
      "js_BigInt (rd_payoutAmount p) = Inr (snd (snd (rs_amounts st)))"
      and n: "js_BigInt (rd_marketId p) = Inr (rs_marketId st)"
      and ro': "proof_field (Some (JString (rd_commitmentRoot p))) ''commitmentRoot'' = Inr (rs_commitmentRoot st)"
      and sn:
      "proof_field (Some (JString (rd_secret p))) ''secret'' = Inr (rs_secret st)"
      "proof_field (Some (JString (rd_nullifier p))) ''nullifier'' = Inr (rs_nullifier st)"
    have v: "stake = rs_stakeAmount st" "amount = rs_amount st" "pay = payout" "net' = net" "win' = winningAmount"
      using s stake_text [OF c(1)] decimal_text [OF c(2)] decimal_text [OF c(3)] decimal_text [OF c(4)]
        decimal_text [OF c(5)] by (simp_all add: p assms(3))
    have se: "number_field v ''secret'' (rs_secret st)"
      by (rule nonzero_number [OF nz]) (use sn(1) p in simp)
    from nz have "nonzero_fields [(''nullifier'', field v ''nullifier'')] = Inr ()"
      unfolding nonzero_fields_Cons by blast
    from nonzero_number [OF this] sn(2) p have nu: "number_field v ''nullifier'' (rs_nullifier st)" by simp
    have ma: "number_field v ''marketId'' (rs_marketId st)" using n m by (intro number_fieldI) simp_all
    have rt: "number_field v ''commitmentRoot'' (rs_commitmentRoot st)"
      using ro ro' proof_number by auto
    have sd: "field v ''side'' = Some (JBool (rd_side p))"
      using si by (cases "field v ''side''" rule: bool_of.cases) (simp_all add: p bool_of_field_def)
    have bi: "field v ''pathBits'' = Some (JArray (map JBool (rd_pathBits p)))"
      using b(1) all_bools [OF b(2)] b(3) by (cases "field v ''pathBits''" rule: array_of.cases) simp_all
    have "redemption_carries v (rs_commitmentRoot st)
      (rs_marketId st, rs_stakeAmount st, rs_amount st, rd_side p, rs_secret st, rs_nullifier st)
      (rd_pathBits p) net winningAmount payout"
      using stake_number [OF c(1)] decimal_number [OF c(2)] decimal_number [OF c(3)] decimal_number [OF c(4)]
        decimal_number [OF c(5)] ma se nu sd bi rt unfolding v redemption_carries_def by simp
    moreover have "bool_of_field v ''outcome'' = outcome"
      by (simp add: bool_of_field_def assms(4))
    ultimately show ?thesis using e by (simp add: v p)
  qed
qed

text \<open>
  Claim C29. A redemption the service proves is one the batch settled.  When the request passes the
  checks and the statement is built, its numbers are those written in the request, the amount to pay
  is the unused collateral plus the winner's part of the pool, and the position is included under
  the submitted root; so if that root is the root of a batch of orders, and the hash has no
  collision among the pairs it is applied to in the two commitments and along the two paths, the
  position in the request is the order at the path's place, field by field.
\<close>

theorem proved_redemption_is_settled:
  assumes "checkedRedeem (pv_key E) isOnCurve v = Inr p" "redeem_statement E p = Inr st"
    and "rs_amounts st = (net, winningAmount, payout)" "field v ''outcome'' = Some (JBool outcome)"
    and "commitmentRoot (pv_hash E)
      (map (\<lambda>(m, s, a, d, k, n). orderCommitment (pv_hash E) m s a d k n) orders) = Inr (rs_commitmentRoot st)"
    and "bits_index (rd_pathBits p) < length orders"
    and "position = (rs_marketId st, rs_stakeAmount st, rs_amount st, rd_side p, rs_secret st, rs_nullifier st)"
    and "collision_free_on (pv_hash E) (opening_inputs (pv_hash E) orders position (rd_pathBits p) (rs_siblings st))"
  shows "redemption_carries v (rs_commitmentRoot st) position (rd_pathBits p) net winningAmount payout
    \<and> (\<exists>pay. calculatePrivatePayout (rs_stakeAmount st) (rs_amount st) (rd_side p = outcome) net winningAmount
        = Inr pay \<and> payout = payoutAmount pay)
    \<and> orders ! bits_index (rd_pathBits p) = position"
proof -
  from assms(2) have "orders ! bits_index (rd_pathBits p) = position"
  proof (rule redeem_statement_parts)
    fix computed
    assume m: "merkleRoot (pv_hash E) (orderCommitment (pv_hash E) (rs_marketId st) (rs_stakeAmount st) (rs_amount st)
      (rd_side p) (rs_secret st) (rs_nullifier st)) (rd_pathBits p) (rs_siblings st) = Inr computed"
      "computed = rs_commitmentRoot st"
    show ?thesis
      by (rule included_order [OF assms(8)])
        (use assms(5,6) m in \<open>simp_all add: open_commitment_def assms(7)\<close>)
  qed
  with redeem_carries [OF assms(1-4)] show ?thesis by (simp add: assms(7))
qed

subsection \<open>Examples\<close>

text \<open>A small order for the examples: one USDC of the smallest ceiling, with small field elements.\<close>

definition example_text :: "char \<Rightarrow> string" where
  "example_text c = ''0x'' @ replicate 63 CHR ''0'' @ [c]"

abbreviation example_field :: "char \<Rightarrow> json" where
  "example_field c \<equiv> JString (example_text c)"

definition example_order :: json where
  "example_order = JObject [(''marketId'', JString ''7''), (''stakeAmount'', JString ''5000000''),
     (''amount'', JString ''2000000''), (''payer'', JString ''wallet''), (''side'', JBool True),
     (''secret'', example_field CHR ''2''), (''nullifier'', example_field CHR ''3''),
     (''sideCoefficient'', example_field CHR ''4''), (''yesAmountCoefficient'', example_field CHR ''5''),
     (''totalAmountCoefficient'', example_field CHR ''6''),
     (''salts'', JArray [example_field CHR ''7'', example_field CHR ''8'', example_field CHR ''9''])]"

text \<open>A batch of one order, and the request that redeems it.\<close>

definition example_hash :: hash2 where
  "example_hash = (\<lambda>x y. (7 * x + 11 * y + 1) mod SCALAR_MODULUS)"

text \<open>The empty subtrees under this hash, and the root of the batch.\<close>

definition example_siblings :: "int list" where
  "example_siblings = [0, 1, 19, 343, 6175, 111151, 2000719, 36012943, 648232975, 11668193551, 210027483919,
     3780494710543, 68048904789775, 1224880286215951, 22047845151887119, 396861212733968143]"

definition example_root :: int where "example_root = 48627156679564935176069"

definition example_env :: "unit prover_env" where
  "example_env = \<lparr>pv_token = None, pv_hash = example_hash, pv_key = (\<lambda>s. Inr (replicate 32 7)),
     pv_isOnCurve = (\<lambda>k. True), pv_repoRoot = ''/app'', pv_tmpdir = ''/tmp'', pv_join = (\<lambda>a b. a @ ''/'' @ b),
     pv_access = (\<lambda>f. io_return ()), pv_mkdtemp = (\<lambda>f. io_return (f @ ''x'')), pv_cp = (\<lambda>f g. io_return ()),
     pv_mkdir = (\<lambda>f. io_return ()), pv_writeFile = (\<lambda>f t. io_return ()), pv_readFile = (\<lambda>f. io_return []),
     pv_rm = (\<lambda>f. io_return ()), pv_run = (\<lambda>c args cwd. io_return ())\<rparr>"

definition example_redemption :: json where
  "example_redemption = JObject [(''marketId'', JString ''7''), (''stakeAmount'', JString ''5000000''),
     (''amount'', JString ''2000000''), (''commitmentRoot'', JString (web_fieldHex example_root)), (''outcome'', JBool True),
     (''recipient'', JString ''wallet''), (''payoutAmount'', JString ''6000000''), (''netPool'', JString ''3000000''),
     (''winningAmount'', JString ''2000000''), (''side'', JBool True), (''secret'', example_field CHR ''2''),
     (''nullifier'', example_field CHR ''3''), (''pathBits'', JArray (replicate 16 (JBool False))),
     (''siblings'', JArray (map (\<lambda>x. JString (web_fieldHex x)) example_siblings))]"

lemma single_leaf_root:
  "commitmentRoot H [c] = merkleRoot H c (replicate TREE_DEPTH False) (map (zero_at H) [0..<TREE_DEPTH])"
proof -
  have s: "tree_sibling H [c] 0 l = zero_at H l" for l
    using tree_node_mono_zero [of 1 l "[c]" H] by (simp add: tree_sibling_def at_or_def)
  have b: "map (tree_bit 0) [0..<TREE_DEPTH] = replicate TREE_DEPTH False"
    by (simp add: tree_bit_def list_eq_iff_nth_eq)
  have l: "0 < length [c]" "length [c] \<le> 2 ^ TREE_DEPTH" by simp_all
  from merkleRoot_path [OF l, of H] commitmentRoot_tree [OF l(2), of H] show ?thesis
    by (simp only: s b nth_Cons_0 cong: map_cong)
qed

lemma example_zeros: "map (zero_at example_hash) [0..<TREE_DEPTH] = example_siblings"
proof -
  have "web_zeroHashes example_hash = example_siblings @ [7143501829211426575]" by code_simp
  then show ?thesis unfolding web_zeroHashes_eq by simp
qed

lemma proof_field_hex:
  assumes "0 \<le> x" "x < SCALAR_MODULUS"
  shows "proof_field (Some (JString (web_fieldHex x))) name = Inr x"
proof -
  have "length (web_fieldHex x) = 66" using assms by (intro web_fieldHex_length) (simp_all add: SCALAR_MODULUS_def)
  moreover have "is_radix_digit 16 CHR ''0''" by code_simp
  then have "all_digits 16 (padStart 64 CHR ''0'' (radix_str 16 x))"
    using assms by (intro all_digits_padStart radix_str_digits) auto
  ultimately have "field_syntax (web_fieldHex x)"
    using assms(1) by (auto simp: field_syntax_def is_hex_any_def all_digits_def web_fieldHex_def toString_radix_def)
  with assms show ?thesis by (simp add: proof_field_def string_of_Some web_fieldHex_value)
qed

lemma example_order_accepted: "\<exists>p. checkedPlace (pv_key example_env) example_order = Inr p"
proof -
  have "isl (checkedPlace (pv_key example_env) example_order) = False" by code_simp
  then show ?thesis by (cases "checkedPlace (pv_key example_env) example_order") auto
qed

theorem checked_place_typed_witness:
  "\<exists>p stake. checkedPlace (pv_key example_env) example_order = Inr p
    \<and> js_BigInt (pl_stakeAmount p) = Inr stake \<and> 1000000 \<le> stake \<and> length (pl_salts p) = 3"
proof -
  obtain p where p: "checkedPlace (pv_key example_env) example_order = Inr p" using example_order_accepted by blast
  from checked_place_typed [OF this] obtain stake amount where "js_BigInt (pl_stakeAmount p) = Inr stake"
    "(1000000 :: int) \<le> amount" "amount \<le> stake" "length (pl_salts p) = 3" by blast
  then have "1000000 \<le> stake" by linarith
  with p \<open>js_BigInt (pl_stakeAmount p) = Inr stake\<close> \<open>length (pl_salts p) = 3\<close> show ?thesis by blast
qed

definition example_secrets :: OrderSecrets where
  "example_secrets = \<lparr>os_side = True, os_amount = 2000000, os_secret = 2, os_nullifier = 3, os_sideCoefficient = 4,
     os_yesAmountCoefficient = 5, os_totalAmountCoefficient = 6, os_salts = [7, 8, 9]\<rparr>"

theorem hosted_prover_matches_panel_witness:
  "\<exists>p st. checkedPlace (pv_key example_env) example_order = Inr p \<and> place_statement example_env p = Inr st
    \<and> request_carries example_order 7 5000000 example_secrets
    \<and> solanaPublicKeyHash example_hash (replicate 32 7) = Inr (ps_payerHash st)
    \<and> ps_commitment st = orderCommitment example_hash 7 5000000 2000000 True 2 3"
proof -
  obtain p where p: "checkedPlace (pv_key example_env) example_order = Inr p" using example_order_accepted by blast
  have k: "pv_key example_env ''wallet'' = Inr (replicate 32 7)" "length (replicate 32 (7 :: byte)) = 32"
    by (simp_all add: example_env_def)
  have h: "pv_hash example_env = example_hash" by (simp add: example_env_def)
  have c: "request_carries example_order 7 5000000 example_secrets" by code_simp
  have w: "field example_order ''payer'' = Some (JString ''wallet'')"
    by (simp add: example_order_def map_get_def)
  from hosted_prover_matches_panel [OF p c w k] obtain st where
    "place_statement example_env p = Inr st" "solanaPublicKeyHash example_hash (replicate 32 7) = Inr (ps_payerHash st)"
    "ps_commitment st = panelCommitment example_hash 7 5000000 example_secrets"
    unfolding h by blast
  with p c show ?thesis by (auto simp: panelCommitment_def example_secrets_def)
qed

lemma example_order_hash: "orderCommitment example_hash 7 5000000 2000000 True 2 3 = 1463007094"
  by code_simp

lemma example_fold: "merkleRoot example_hash 1463007094 (replicate TREE_DEPTH False) example_siblings = Inr example_root"
  by code_simp

lemma example_values:
  "proof_field (Some (JString (web_fieldHex example_root))) name = Inr example_root"
  "proof_field (Some (example_field CHR ''2'')) name = Inr 2" "proof_field (Some (example_field CHR ''3'')) name = Inr 3"
proof -
  have v: "list_all (\<lambda>(c, x). proof_field (Some (example_field c)) [] = Inr x)
      [(CHR ''2'', 2), (CHR ''3'', 3)] = True" by code_simp
  have r: "proof_field (Some (example_field c)) [] = Inr x \<Longrightarrow> proof_field (Some (example_field c)) name = Inr x" for c x
    using proof_field_InrD by fastforce
  show "proof_field (Some (example_field CHR ''2'')) name = Inr 2" "proof_field (Some (example_field CHR ''3'')) name = Inr 3"
    using v by (simp_all add: r)
  show "proof_field (Some (JString (web_fieldHex example_root))) name = Inr example_root"
    by (rule proof_field_hex) (simp_all add: example_root_def SCALAR_MODULUS_def)
qed

lemma example_numbers:
  "privateStake (Some (JString ''5000000'')) = Inr 5000000"
  "decimalU64 (Some (JString ''2000000'')) name = Inr 2000000"
  "decimalU64 (Some (JString ''6000000'')) name = Inr 6000000"
  "decimalU64 (Some (JString ''3000000'')) name = Inr 3000000"
  "checked_market_id ''7'' = Inr 7" "digits_syntax ''7''"
  "js_BigInt ''7'' = Inr 7" "js_BigInt ''5000000'' = Inr 5000000" "js_BigInt ''2000000'' = Inr 2000000"
  "js_BigInt ''3000000'' = Inr 3000000" "js_BigInt ''6000000'' = Inr 6000000"
  "calculatePrivatePayout 5000000 2000000 True 3000000 2000000
    = Inr \<lparr>unusedCollateral = 3000000, marketPayout = 3000000, payoutAmount = 6000000\<rparr>"
  by code_simp+


lemma example_parts:
  "object_like example_redemption"
  "field example_redemption ''marketId'' = Some (JString ''7'')"
  "field example_redemption ''stakeAmount'' = Some (JString ''5000000'')"
  "field example_redemption ''amount'' = Some (JString ''2000000'')"
  "field example_redemption ''commitmentRoot'' = Some (JString (web_fieldHex example_root))"
  "field example_redemption ''outcome'' = Some (JBool True)"
  "field example_redemption ''recipient'' = Some (JString ''wallet'')"
  "field example_redemption ''payoutAmount'' = Some (JString ''6000000'')"
  "field example_redemption ''netPool'' = Some (JString ''3000000'')"
  "field example_redemption ''winningAmount'' = Some (JString ''2000000'')"
  "field example_redemption ''side'' = Some (JBool True)"
  "field example_redemption ''secret'' = Some (example_field CHR ''2'')"
  "field example_redemption ''nullifier'' = Some (example_field CHR ''3'')"
  "field example_redemption ''pathBits'' = Some (JArray (replicate 16 (JBool False)))"
  "field example_redemption ''siblings''
    = Some (JArray (map (\<lambda>x. JString (web_fieldHex x)) example_siblings))"
  by (simp_all add: example_redemption_def map_get_def object_like_def)

lemma example_siblings_range: "x \<in> set example_siblings \<Longrightarrow> 0 \<le> x \<and> x < SCALAR_MODULUS"
  by (auto simp: example_siblings_def SCALAR_MODULUS_def)

lemma check_hex_fields:
  "\<forall>x \<in> set xs. 0 \<le> x \<and> x < SCALAR_MODULUS \<Longrightarrow> check_fields n (map (\<lambda>x. JString (web_fieldHex x)) xs) = Inr ()"
  by (induction xs arbitrary: n) (simp_all add: proof_field_hex)

lemma strings_of_hex: "strings_of (map (\<lambda>x. JString (web_fieldHex x)) xs) = map web_fieldHex xs"
  by (simp add: strings_of_def)

lemma length_example_siblings: "length example_siblings = 16"
  by (simp add: example_siblings_def)

definition example_request :: RedeemRequest where
  "example_request = \<lparr>rd_marketId = ''7'', rd_stakeAmount = ''5000000'', rd_amount = ''2000000'',
     rd_commitmentRoot = web_fieldHex example_root, rd_outcome = True, rd_recipient = ''wallet'',
     rd_payoutAmount = ''6000000'', rd_netPool = ''3000000'', rd_winningAmount = ''2000000'', rd_side = True,
     rd_secret = example_text CHR ''2'', rd_nullifier = example_text CHR ''3'', rd_pathBits = replicate 16 False,
     rd_siblings = map web_fieldHex example_siblings\<rparr>"

lemma example_redemption_accepted:
  "checkedRedeem (pv_key example_env) (pv_isOnCurve example_env) example_redemption = Inr example_request"
  by (simp add: checkedRedeem_def example_parts example_numbers example_values text_of_field_def
    bool_of_field_def example_env_def TREE_DEPTH_def bools_of_def strings_of_hex check_hex_fields
    example_siblings_range length_example_siblings list_ex_iff example_request_def)

lemma example_texts: "list_all2 field_text (map web_fieldHex example_siblings) example_siblings"
  using example_siblings_range by (auto simp: list_all2_conv_all_nth field_text_def proof_field_hex)

lemma example_redemption_statement:
  "\<exists>hash. redeem_statement example_env example_request
   = Inr \<lparr>rs_marketId = 7, rs_stakeAmount = 5000000, rs_commitmentRoot = example_root,
        rs_nullifierHash = nullifierHash example_hash 7 3, rs_recipientHash = hash, rs_amounts = (3000000, 2000000, 6000000),
        rs_amount = 2000000, rs_secret = 2, rs_nullifier = 3, rs_siblings = example_siblings\<rparr>"
proof -
  obtain hash where h: "payerHash example_hash (replicate 32 7) = Inr hash"
    using payerHash_eq [of "replicate 32 7" example_hash] by (simp add: solanaPublicKeyHash_def)
  have s: "rmap_list (\<lambda>(index, s). proof_field (Some (JString s)) (''siblings['' @ int_str (int index) @ '']''))
      (enumerate 0 (rd_siblings example_request)) = Inr example_siblings"
    unfolding example_request_def by (simp only: RedeemRequest.select_convs) (rule rmap_field_text [OF example_texts])
  have m: "merkleRoot example_hash 1463007094 (replicate 16 False) example_siblings = Inr example_root"
    using example_fold by (simp add: TREE_DEPTH_def)
  have e: "pv_hash example_env = example_hash" "pv_key example_env t = Inr (replicate 32 7)" for t
    by (simp_all add: example_env_def)
  show ?thesis
    unfolding redeem_statement_def s Let_def e
    by (simp only: example_request_def RedeemRequest.select_convs example_numbers example_values rbind_Inr
        example_order_hash m h simp_thms if_False refl not_True_eq_False) simp
qed

text \<open>The hash has no collision among the pairs used when the one order of the batch is opened.\<close>

lemma example_free:
  "collision_free_on example_hash (order_inputs example_hash (7, 5000000, 2000000, True, 2, 3)
     @ fold_inputs example_hash 1463007094 (zip (replicate 16 False) example_siblings))"
  by code_simp

lemma example_opening_free:
  "collision_free_on example_hash (opening_inputs example_hash [(7, 5000000, 2000000, True, 2, 3)]
     (7, 5000000, 2000000, True, 2, 3) (replicate 16 False) example_siblings)"
proof (rule collision_free_on_mono [OF example_free])
  have i: "bits_index (replicate 16 False) = 0" by code_simp
  have o: "open_commitment example_hash (7, 5000000, 2000000, True, 2, 3) = 1463007094"
    by (simp add: open_commitment_def example_order_hash)
  have "tree_sibling example_hash [1463007094] 0 = zero_at example_hash"
  proof
    show "tree_sibling example_hash [1463007094] 0 l = zero_at example_hash l" for l
      using tree_node_mono_zero [of 1 l "[1463007094]" example_hash] by (simp add: tree_sibling_def at_or_def)
  qed
  then have t: "map (tree_sibling example_hash [1463007094] 0) [0..<TREE_DEPTH] = example_siblings"
    by (simp only: example_zeros)
  show "set (opening_inputs example_hash [(7, 5000000, 2000000, True, 2, 3)]
      (7, 5000000, 2000000, True, 2, 3) (replicate 16 False) example_siblings)
    \<subseteq> set (order_inputs example_hash (7, 5000000, 2000000, True, 2, 3)
     @ fold_inputs example_hash 1463007094 (zip (replicate 16 False) example_siblings))"
    unfolding opening_inputs_def Let_def i by (simp only: list.map o nth_Cons_0 set_append t) blast
qed

theorem proved_redemption_is_settled_witness:
  "\<exists>p st. checkedRedeem (pv_key example_env) (pv_isOnCurve example_env) example_redemption = Inr p
    \<and> redeem_statement example_env p = Inr st
    \<and> (\<exists>pay. calculatePrivatePayout 5000000 2000000 True 3000000 2000000 = Inr pay \<and> payoutAmount pay = 6000000)
    \<and> [(7, 5000000, 2000000, True, 2, 3)] ! bits_index (rd_pathBits p)
          = (rs_marketId st, rs_stakeAmount st, rs_amount st, rd_side p, rs_secret st, rs_nullifier st)"
proof -
  let ?position = "(7, 5000000, 2000000, True, 2, 3) :: order_opening"
  let ?p = example_request
  obtain hash where st: "redeem_statement example_env ?p
   = Inr \<lparr>rs_marketId = 7, rs_stakeAmount = 5000000, rs_commitmentRoot = example_root,
        rs_nullifierHash = nullifierHash example_hash 7 3, rs_recipientHash = hash, rs_amounts = (3000000, 2000000, 6000000),
        rs_amount = 2000000, rs_secret = 2, rs_nullifier = 3, rs_siblings = example_siblings\<rparr>" (is "_ = Inr ?st")
    using example_redemption_statement by blast
  note c = example_redemption_accepted
  have e: "pv_hash example_env = example_hash" "rd_pathBits ?p = replicate 16 False" "rs_siblings ?st = example_siblings"
    by (simp_all add: example_env_def example_request_def)
  have r: "commitmentRoot (pv_hash example_env) (map (\<lambda>(m, s, a, d, k, n). orderCommitment (pv_hash example_env) m s a d k n)
      [?position]) = Inr (rs_commitmentRoot ?st)"
    using single_leaf_root [of example_hash 1463007094] example_fold
    by (simp only: list.map prod.case e example_order_hash example_zeros RedeemStatement.select_convs)
  have a: "rs_amounts ?st = (3000000, 2000000, 6000000)" by simp
  have "bits_index (replicate 16 False) = 0" by code_simp
  then have b: "bits_index (rd_pathBits ?p) < length [?position]" by (simp add: e)
  have q: "?position = (rs_marketId ?st, rs_stakeAmount ?st, rs_amount ?st, rd_side ?p, rs_secret ?st, rs_nullifier ?st)"
    by (simp add: example_request_def)
  have f: "collision_free_on (pv_hash example_env)
      (opening_inputs (pv_hash example_env) [?position] ?position (rd_pathBits ?p) (rs_siblings ?st))"
    unfolding e by (rule example_opening_free)
  from proved_redemption_is_settled [OF c st a example_parts(6) r b q f]
  have "[?position] ! bits_index (rd_pathBits ?p) = ?position"
    "\<exists>pay. calculatePrivatePayout 5000000 2000000 True 3000000 2000000 = Inr pay \<and> payoutAmount pay = 6000000"
    by (auto simp: example_request_def)
  with c st q show ?thesis by metis
qed

subsection \<open>The directory with the secrets\<close>

lemma io_finally_ends: "\<exists>y. snd (io_finally m f x) = snd (f y)"
  by (rule exI [of _ "snd (m x)"]) (simp add: io_finally_def split: prod.split sum.split)

lemma runCircuit_ends_with_rm:
  assumes "pv_mkdtemp E (pv_join E (pv_tmpdir E) prefix) x = (Inr dir, x')"
    and "startsWith dir (pv_join E (pv_tmpdir E) prefix)"
  shows "\<exists>y. snd (runCircuit E prefix circuit proverToml x) = snd (pv_rm E dir y)"
  using io_finally_ends by (simp add: runCircuit_def io_bind_def [of "pv_mkdtemp E _"] assms Let_def)

end
