(* ===== verification/Relayer.thy ===== *)
theory Relayer
  imports Prover Lifecycle
begin

text \<open>
  The redemption relayer: the checks of a request (\<open>services/src/relayer/requests.ts\<close>), the
  transaction it sends, and its queue (\<open>services/src/relayer/server.ts\<close>).

  The handler runs in three pieces between which other requests run: the admission when a request
  arrives, the reading of its body, and its turn in the queue.  \<open>relay_step\<close> is one piece,
  \<open>relay_run\<close> a sequence of them in any order.  Public keys, the RPC node and the derivation of
  addresses are the parameters of \<open>relayer_env\<close>.
\<close>

section \<open>Checks of a request\<close>

record RelayRedeemRequest =
  rr_market :: string
  rr_recipient :: string
  rr_nullifierHash :: string
  rr_payoutAmount :: string
  rr_proof :: string
  rr_publicWitness :: string

definition relayBase64 :: "json option \<Rightarrow> string \<Rightarrow> nat \<Rightarrow> string res" where
  "relayBase64 v name byteLength =
     (case string_of v of
        None \<Rightarrow> Inl (Error (name @ '' must be base64''))
      | Some s \<Rightarrow>
          if \<not> base64_syntax s then Inl (Error (name @ '' must be base64''))
          else let bytes = base64_decode s in
               if length bytes \<noteq> byteLength \<or> base64_encode bytes \<noteq> s
               then Inl (Error (name @ '' has an invalid length or encoding'')) else Inr s)"

definition publicKey ::
    "(string \<Rightarrow> pubkey res) \<Rightarrow> (pubkey \<Rightarrow> bool) \<Rightarrow> (pubkey \<Rightarrow> string) \<Rightarrow> json option \<Rightarrow> string \<Rightarrow> string res" where
  "publicKey key isOnCurve toBase58 v name =
     (case string_of v of
        None \<Rightarrow> Inl (Error (name @ '' is required''))
      | Some s \<Rightarrow>
          rbind (key s) (\<lambda>k.
            if \<not> isOnCurve k then Inl (Error (name @ '' must be a wallet address'')) else Inr (toBase58 k)))"

text \<open>\<open>/^(0|[1-9]\d*)$/\<close>.\<close>

definition canonical_digits :: "string \<Rightarrow> bool" where
  "canonical_digits s \<longleftrightarrow> s = ''0'' \<or> (digits_syntax s \<and> hd s \<noteq> CHR ''0'')"

definition relayU64 :: "json option \<Rightarrow> string \<Rightarrow> string res" where
  "relayU64 v name =
     (case string_of v of
        None \<Rightarrow> Inl (Error (name @ '' must be a decimal u64''))
      | Some s \<Rightarrow>
          if \<not> canonical_digits s then Inl (Error (name @ '' must be a decimal u64''))
          else rbind (js_BigInt s) (\<lambda>amount.
            if amount > 18446744073709551615 then Inl (Error (name @ '' exceeds u64'')) else Inr s))"

definition checkedRelayRedeem ::
    "(string \<Rightarrow> pubkey res) \<Rightarrow> (pubkey \<Rightarrow> bool) \<Rightarrow> (pubkey \<Rightarrow> string) \<Rightarrow> json \<Rightarrow> RelayRedeemRequest res" where
  "checkedRelayRedeem key isOnCurve toBase58 v =
     (if \<not> object_like v then Inl (Error ''Invalid relay request'')
      else
      rbind (publicKey key isOnCurve toBase58 (field v ''market'') ''market'') (\<lambda>market.
      rbind (publicKey key isOnCurve toBase58 (field v ''recipient'') ''recipient'') (\<lambda>recipient.
      case string_of (field v ''nullifierHash'') of
        None \<Rightarrow> Inl (Error ''nullifierHash must be a 32-byte field'')
      | Some hash \<Rightarrow>
          if \<not> field_syntax hash then Inl (Error ''nullifierHash must be a 32-byte field'')
          else
          rbind (relayU64 (field v ''payoutAmount'') ''payoutAmount'') (\<lambda>payout.
          rbind (relayBase64 (field v ''proof'') ''proof'' 388) (\<lambda>prf.
          rbind (relayBase64 (field v ''publicWitness'') ''publicWitness'' 300) (\<lambda>publicWitness.
            Inr \<lparr>rr_market = market, rr_recipient = recipient, rr_nullifierHash = toLowerCase hash,
                 rr_payoutAmount = payout, rr_proof = prf, rr_publicWitness = publicWitness\<rparr>))))))"

section \<open>The transaction\<close>

record RelayMarketAccount =
  ra_phase :: "(string \<times> json) list"
  ra_collateralMint :: pubkey
  ra_redeemVerifier :: pubkey

record 'x relayer_env =
  rl_token :: "string option"
  rl_keypairPath :: "string option"
  rl_readKeypair :: "string \<Rightarrow> ('x, pubkey) outside"
  rl_relayer :: pubkey
  rl_program :: pubkey
  rl_tokenProgram :: pubkey
  rl_systemProgram :: pubkey
  rl_key :: "string \<Rightarrow> pubkey res"
  rl_isOnCurve :: "pubkey \<Rightarrow> bool"
  rl_toBase58 :: "pubkey \<Rightarrow> string"
  rl_derive :: derivation
  rl_ata :: "pubkey \<Rightarrow> pubkey \<Rightarrow> pubkey res"
  rl_market :: "pubkey \<Rightarrow> ('x, RelayMarketAccount) outside"
  rl_accountExists :: "pubkey \<Rightarrow> ('x, bool) outside"
  rl_balance :: "pubkey \<Rightarrow> ('x, int) outside"
  rl_rpc :: "tx \<Rightarrow> ('x, string) outside"

definition fieldBytes :: "string \<Rightarrow> byte list" where
  "fieldBytes v = hex_bytes (drop 2 v)"

definition claimPda :: "'x relayer_env \<Rightarrow> pubkey \<Rightarrow> byte list \<Rightarrow> pubkey" where
  "claimPda E market hashBytes = rl_derive E [utf8 ''claim'', market, hashBytes] (rl_program E)"

definition redeem_tx ::
    "'x relayer_env \<Rightarrow> RelayRedeemRequest \<Rightarrow> RelayMarketAccount \<Rightarrow> pubkey \<Rightarrow> pubkey \<Rightarrow> pubkey \<Rightarrow> int \<Rightarrow> tx" where
  "redeem_tx E input account market recipient recipientToken payout =
     \<lparr>tx_method = ''redeem'',
      tx_args = [A_struct
        [(''nullifierHash'', A_bytes (bytes_to_numbers (fieldBytes (rr_nullifierHash input)))),
         (''payoutAmount'', A_int payout),
         (''proof'', A_bytes (bytes_to_numbers (base64_decode (rr_proof input)))),
         (''publicWitness'', A_bytes (bytes_to_numbers (base64_decode (rr_publicWitness input))))]],
      tx_accounts = [(''relayer'', rl_relayer E), (''market'', market),
        (''collateralMint'', ra_collateralMint account),
        (''claim'', claimPda E market (fieldBytes (rr_nullifierHash input))),
        (''vault'', rl_derive E [utf8 ''vault'', market] (rl_program E)),
        (''recipientOwner'', recipient), (''recipientToken'', recipientToken),
        (''redeemVerifier'', ra_redeemVerifier account), (''tokenProgram'', rl_tokenProgram E),
        (''systemProgram'', rl_systemProgram E)],
      tx_pre = [Compute_unit_limit 300000,
        Create_token_account (rl_relayer E) recipientToken recipient (ra_collateralMint account)],
      tx_signers = []\<rparr>"

definition relay :: "'x relayer_env \<Rightarrow> RelayRedeemRequest \<Rightarrow> ('x world, string) io" where
  "relay E input =
     io_bind (io_lift (rl_key E (rr_market input))) (\<lambda>market.
     io_bind (io_lift (rl_key E (rr_recipient input))) (\<lambda>recipient.
     io_bind (outside (rl_market E market)) (\<lambda>account.
     io_bind (io_lift (phaseName (ra_phase account))) (\<lambda>phase.
       if phase \<noteq> Market_resolved then io_throw (Error ''Market is not ready for redemption'')
       else
       io_bind (outside (rl_accountExists E (claimPda E market (fieldBytes (rr_nullifierHash input))))) (\<lambda>found.
         if found then io_throw (Error ''Position has already been redeemed'')
         else
         io_bind (io_lift (rl_ata E (ra_collateralMint account) recipient)) (\<lambda>recipientToken.
         io_bind (io_lift (js_BigInt (rr_payoutAmount input))) (\<lambda>payout.
           send_tx (rl_rpc E) (redeem_tx E input account market recipient recipientToken payout))))))))"

section \<open>The handler and its queue\<close>

definition RELAY_MAX_BODY_BYTES :: nat where "RELAY_MAX_BODY_BYTES = 4 * 1024"
definition MAX_PENDING_REDEMPTIONS :: nat where "MAX_PENDING_REDEMPTIONS = 8"

definition relayer_start :: "'x relayer_env \<Rightarrow> ('x world, pubkey) io" where
  "relayer_start E =
     (case rl_token E of
        None \<Rightarrow> io_throw (Error ''RELAYER_API_TOKEN must be configured with at least 24 characters'')
      | Some token \<Rightarrow>
          if length token < 24 then io_throw (Error ''RELAYER_API_TOKEN must be configured with at least 24 characters'')
          else (case rl_keypairPath E of
              None \<Rightarrow> io_throw (Error ''NORTIA_RELAYER_KEYPAIR_PATH is required'')
            | Some p \<Rightarrow> outside (rl_readKeypair E p)))"

type_synonym response = "int \<times> json"

record 'x relay_state =
  rq_pending :: nat
  rq_reading :: "(nat \<times> ServiceRequest) list"
  rq_queue :: "(nat \<times> RelayRedeemRequest) list"
  rq_answers :: "(nat \<times> response) list"
  rq_world :: "'x world"

text \<open>The part before the body is read: an answer, or \<open>None\<close> when the body is awaited.\<close>

definition relay_health :: "'x relayer_env \<Rightarrow> ('x world, response) io" where
  "relay_health E =
     io_bind (io_catch (outside (rl_balance E (rl_relayer E))) (\<lambda>_. io_return 0)) (\<lambda>balance.
       io_return (if balance > 0 then 200 else 503,
         JObject [(''ok'', JBool (balance > 0)), (''relayer'', JString (rl_toBase58 E (rl_relayer E))),
           (''funded'', JBool (balance > 0))]))"

definition relay_admit :: "'x relayer_env \<Rightarrow> nat \<Rightarrow> ServiceRequest \<Rightarrow> response option" where
  "relay_admit E pendingRedemptions request =
     (if sq_method request \<noteq> ''POST'' \<or> sq_url request \<noteq> ''/redeem''
      then Some (404, JObject [(''error'', JString ''Not found'')])
      else if \<not> bearer_authorized (rl_token E) (sq_authorization request)
      then Some (401, JObject [(''error'', JString ''Unauthorized'')])
      else if pendingRedemptions \<ge> MAX_PENDING_REDEMPTIONS
      then Some (429, JObject [(''error'', JString ''Relay queue is full'')])
      else None)"

definition relay_receive :: "'x relayer_env \<Rightarrow> ServiceRequest \<Rightarrow> RelayRedeemRequest res" where
  "relay_receive E request =
     rbind (limitedJson RELAY_MAX_BODY_BYTES (sq_body request))
       (checkedRelayRedeem (rl_key E) (rl_isOnCurve E) (rl_toBase58 E))"

definition relay_rejected :: "error \<Rightarrow> ('x world, response) io" where
  "relay_rejected e =
     io_bind (log_event [(''event'', JString ''redemption-rejected''), (''reason'', JString (error_message e))]) (\<lambda>_.
       io_return (400, JObject [(''error'', JString ''Relay transaction was rejected'')]))"

definition relay_turn :: "'x relayer_env \<Rightarrow> RelayRedeemRequest \<Rightarrow> ('x world, response) io" where
  "relay_turn E input =
     io_catch
       (io_bind (relay E input) (\<lambda>signature.
        io_bind (log_event [(''event'', JString ''redemption-relayed''), (''signature'', JString signature)]) (\<lambda>_.
          io_return (200, JObject [(''signature'', JString signature), (''recipient'', JString (rr_recipient input))]))))
       relay_rejected"

text \<open>
  The pieces of the handler: a request arrives, the body of request \<open>i\<close> has been read, the request at
  the head of the queue has its turn.
\<close>

datatype relay_event = Arrives nat ServiceRequest | Body_read nat | Turn

definition answer :: "nat \<Rightarrow> ('x world, response) io \<Rightarrow> 'x relay_state \<Rightarrow> 'x relay_state" where
  "answer i m s =
     (case m (rq_world s) of
        (Inr r, w) \<Rightarrow> s\<lparr>rq_answers := rq_answers s @ [(i, r)], rq_world := w\<rparr>
      | (Inl e, w) \<Rightarrow> s\<lparr>rq_world := w\<rparr>)"

fun relay_step :: "'x relayer_env \<Rightarrow> relay_event \<Rightarrow> 'x relay_state \<Rightarrow> 'x relay_state" where
  "relay_step E (Arrives i request) s =
     (if sq_method request = ''GET'' \<and> sq_url request = ''/health'' then answer i (relay_health E) s
      else (case relay_admit E (rq_pending s) request of
          Some r \<Rightarrow> answer i (io_return r) s
        | None \<Rightarrow> s\<lparr>rq_reading := rq_reading s @ [(i, request)]\<rparr>))"
| "relay_step E (Body_read i) s =
     (case map_of (rq_reading s) i of
        None \<Rightarrow> s
      | Some request \<Rightarrow>
          let s' = s\<lparr>rq_reading := filter (\<lambda>(j, _). j \<noteq> i) (rq_reading s)\<rparr> in
          (case relay_receive E request of
              Inl e \<Rightarrow> answer i (relay_rejected e) s'
            | Inr input \<Rightarrow> s'\<lparr>rq_pending := rq_pending s + 1, rq_queue := rq_queue s @ [(i, input)]\<rparr>))"
| "relay_step E Turn s =
     (case rq_queue s of
        [] \<Rightarrow> s
      | (i, input) # waiting \<Rightarrow>
          answer i (relay_turn E input) (s\<lparr>rq_pending := rq_pending s - 1, rq_queue := waiting\<rparr>))"

definition relay_run :: "'x relayer_env \<Rightarrow> relay_event list \<Rightarrow> 'x relay_state \<Rightarrow> 'x relay_state" where
  "relay_run E events s = fold (relay_step E) events s"

definition relay_initial :: "'x world \<Rightarrow> 'x relay_state" where
  "relay_initial w = \<lparr>rq_pending = 0, rq_reading = [], rq_queue = [], rq_answers = [], rq_world = w\<rparr>"

section \<open>Lemmas\<close>

lemma publicKey_InrD:
  "publicKey key isOnCurve toBase58 v name = Inr t \<Longrightarrow> \<exists>s k. v = Some (JString s) \<and> key s = Inr k \<and> isOnCurve k \<and> t = toBase58 k"
  by (auto simp: publicKey_def rbind_eq_Inr string_of_Some split: option.splits if_splits)

lemma checkedRelayRedeem_parts:
  assumes "checkedRelayRedeem key isOnCurve toBase58 v = Inr r"
  shows "publicKey key isOnCurve toBase58 (field v ''market'') ''market'' = Inr (rr_market r)"
    and "publicKey key isOnCurve toBase58 (field v ''recipient'') ''recipient'' = Inr (rr_recipient r)"
    and "relayU64 (field v ''payoutAmount'') ''payoutAmount'' = Inr (rr_payoutAmount r)"
    and "relayBase64 (field v ''proof'') ''proof'' 388 = Inr (rr_proof r)"
    and "relayBase64 (field v ''publicWitness'') ''publicWitness'' 300 = Inr (rr_publicWitness r)"
  using assms unfolding checkedRelayRedeem_def rbind_eq_Inr check_Inr not_not sum.inject(2) by auto

lemma relayBase64_InrD:
  "relayBase64 v name n = Inr s \<Longrightarrow> v = Some (JString s) \<and> length (base64_decode s) = n \<and> base64_encode (base64_decode s) = s"
  by (auto simp: relayBase64_def Let_def string_of_Some split: option.splits if_splits)

lemma relayU64_InrD:
  "relayU64 v name = Inr s \<Longrightarrow> v = Some (JString s) \<and> (\<exists>x. js_BigInt s = Inr x \<and> 0 \<le> x \<and> x < 2 ^ 64)"
proof -
  assume a: "relayU64 v name = Inr s"
  then have v: "v = Some (JString s)" and c: "canonical_digits s"
    and "\<exists>x. js_BigInt s = Inr x \<and> x < 2 ^ 64"
    by (auto simp: relayU64_def rbind_eq_Inr string_of_Some split: option.splits if_splits)
  moreover have "digits_syntax s"
  proof -
    have "digits_syntax ''0''" by code_simp
    with c show ?thesis by (auto simp: canonical_digits_def)
  qed
  ultimately show ?thesis using digits_value by fastforce
qed

subsection \<open>The queue\<close>

text \<open>The counter is the length of the queue, in every order of the pieces.\<close>

lemma answer_fields [simp]:
  "rq_pending (answer i m s) = rq_pending s" "rq_reading (answer i m s) = rq_reading s"
  "rq_queue (answer i m s) = rq_queue s"
  by (simp_all add: answer_def split: prod.split sum.split)

lemma relay_step_pending:
  "rq_pending s = length (rq_queue s) \<Longrightarrow> rq_pending (relay_step E ev s) = length (rq_queue (relay_step E ev s))"
  by (cases ev) (auto simp: Let_def split: option.split sum.split list.split)

lemma relay_run_Nil [simp]: "relay_run E [] s = s"
  by (simp add: relay_run_def)

lemma relay_run_Cons [simp]: "relay_run E (ev # evs) s = relay_run E evs (relay_step E ev s)"
  by (simp add: relay_run_def)

lemma relay_run_append: "relay_run E (xs @ ys) s = relay_run E ys (relay_run E xs s)"
  by (simp add: relay_run_def)

lemma relay_run_pending:
  "rq_pending s = length (rq_queue s) \<Longrightarrow> rq_pending (relay_run E evs s) = length (rq_queue (relay_run E evs s))"
  by (induction evs arbitrary: s) (simp_all add: relay_step_pending)

lemma arrivals_read:
  assumes "rq_pending s < MAX_PENDING_REDEMPTIONS" "relay_admit E 0 request = None"
  shows "relay_run E (map (\<lambda>i. Arrives i request) is) s
    = s\<lparr>rq_reading := rq_reading s @ map (\<lambda>i. (i, request)) is\<rparr>"
proof -
  have "relay_admit E (rq_pending s) request = None"
    using assms by (auto simp: relay_admit_def split: if_splits)
  moreover have "\<not> (sq_method request = ''GET'' \<and> sq_url request = ''/health'')"
    using assms(2) by (auto simp: relay_admit_def split: if_splits)
  ultimately show ?thesis
    using assms(1)
  proof (induction "is" arbitrary: s)
    case (Cons i "is")
    then have "relay_step E (Arrives i request) s = s\<lparr>rq_reading := rq_reading s @ [(i, request)]\<rparr>"
      by (simp del: Let_def) blast
    with Cons show ?case by simp
  qed simp
qed

lemma bodies_queue:
  assumes "relay_receive E request = Inr input"
  shows "distinct is \<Longrightarrow> rq_reading s = map (\<lambda>i. (i, request)) is \<Longrightarrow>
    rq_queue (relay_run E (map Body_read is) s) = rq_queue s @ map (\<lambda>i. (i, input)) is
    \<and> rq_answers (relay_run E (map Body_read is) s) = rq_answers s"
proof (induction "is" arbitrary: s)
  case (Cons i "is")
  then have f: "filter (\<lambda>(j, _). j \<noteq> i) (map (\<lambda>i. (i, request)) is) = map (\<lambda>i. (i, request)) is"
    by (auto simp: filter_id_conv)
  with Cons show ?case by (simp add: assms Let_def)
qed simp

text \<open>
  Claim C32. The limit on waiting redemptions does not hold: it is tested when a request arrives, but
  the counter goes up only after its body has been read.  Any number of acceptable requests that
  arrive before the first body is read are all admitted and then all wait, although one that arrives
  once eight wait is answered with 429.
\<close>

theorem relay_limit_exceeded:
  assumes "relay_admit E 0 request = None" "relay_receive E request = Inr input"
  shows "\<exists>events. \<exists>s. s = relay_run E events (relay_initial w) \<and> rq_pending s = n
      \<and> map snd (rq_queue s) = replicate n input \<and> rq_answers s = []
      \<and> (n \<ge> MAX_PENDING_REDEMPTIONS \<longrightarrow> relay_admit E (rq_pending s) request
          = Some (429, JObject [(''error'', JString ''Relay queue is full'')]))"
proof -
  let ?arrive = "map (\<lambda>i. Arrives i request) [0..<n]"
  let ?read = "map Body_read [0..<n]"
  let ?s1 = "relay_run E ?arrive (relay_initial w)"
  have s1: "?s1 = (relay_initial w)\<lparr>rq_reading := map (\<lambda>i. (i, request)) [0..<n]\<rparr>"
    using arrivals_read [of "relay_initial w" E request "[0..<n]"] assms(1)
    by (simp add: relay_initial_def MAX_PENDING_REDEMPTIONS_def)
  have q: "rq_queue (relay_run E ?read ?s1) = map (\<lambda>i. (i, input)) [0..<n]"
    "rq_answers (relay_run E ?read ?s1) = []"
    using bodies_queue [OF assms(2), of "[0..<n]" ?s1] unfolding s1 by (simp_all add: relay_initial_def)
  have p: "rq_pending (relay_run E (?arrive @ ?read) (relay_initial w)) = n"
    using relay_run_pending [of "relay_initial w" E "?arrive @ ?read"] q
    by (simp add: relay_run_append relay_initial_def)
  have f: "n \<ge> MAX_PENDING_REDEMPTIONS \<longrightarrow> relay_admit E n request
      = Some (429, JObject [(''error'', JString ''Relay queue is full'')])"
    using assms(1) by (auto simp: relay_admit_def split: if_splits)
  show ?thesis
    by (rule exI [of _ "?arrive @ ?read"], rule exI [of _ "relay_run E (?arrive @ ?read) (relay_initial w)"])
      (use q p f in \<open>simp add: relay_run_append comp_def map_replicate_const\<close>)
qed

text \<open>
  Claim C31. A market that is an address derived by the program can never be redeemed through the
  relayer: such addresses lie off the curve, and the checks demand a wallet's key.  The request is
  answered with 400 and nothing is sent or queued.
\<close>

theorem derived_market_is_refused:
  assumes "\<And>seeds programId. \<not> rl_isOnCurve E (rl_derive E seeds programId)"
    and "limitedJson RELAY_MAX_BODY_BYTES (sq_body request) = Inr v" "object_like v"
    and "field v ''market'' = Some (JString text)"
    and "rl_key E text = Inr (rl_derive E [utf8 ''market'', creator, marketId] (rl_program E))"
    and "map_of (rq_reading s) i = Some request"
  shows "relay_receive E request = Inl (Error ''market must be a wallet address'')
    \<and> rq_answers (relay_step E (Body_read i) s) = rq_answers s
        @ [(i, (400, JObject [(''error'', JString ''Relay transaction was rejected'')]))]
    \<and> rq_queue (relay_step E (Body_read i) s) = rq_queue s
    \<and> w_sent (rq_world (relay_step E (Body_read i) s)) = w_sent (rq_world s)"
proof -
  have "publicKey (rl_key E) (rl_isOnCurve E) (rl_toBase58 E) (field v ''market'') ''market''
      = Inl (Error ''market must be a wallet address'')"
    using assms(1,4,5) by (simp add: publicKey_def)
  then have r: "relay_receive E request = Inl (Error ''market must be a wallet address'')"
    using assms(2,3) by (simp add: relay_receive_def checkedRelayRedeem_def)
  then show ?thesis
    using assms(6) by (simp add: Let_def answer_def relay_rejected_def io_bind_def log_event_def io_return_def)
qed

subsection \<open>What is sent\<close>

text \<open>A transaction that redeems what a checked request asks for, in a resolved market.\<close>

definition sound_redeem :: "'x relayer_env \<Rightarrow> tx \<Rightarrow> bool" where
  "sound_redeem E t \<longleftrightarrow> (\<exists>input account market recipient recipientToken payout v.
     checkedRelayRedeem (rl_key E) (rl_isOnCurve E) (rl_toBase58 E) v = Inr input
     \<and> t = redeem_tx E input account market recipient recipientToken payout
     \<and> rl_key E (rr_market input) = Inr market \<and> rl_key E (rr_recipient input) = Inr recipient
     \<and> phaseName (ra_phase account) = Inr Market_resolved
     \<and> rl_ata E (ra_collateralMint account) recipient = Inr recipientToken
     \<and> js_BigInt (rr_payoutAmount input) = Inr payout \<and> 0 \<le> payout \<and> payout < 2 ^ 64
     \<and> length (base64_decode (rr_proof input)) = 388 \<and> length (base64_decode (rr_publicWitness input)) = 300)"

definition checked_request :: "'x relayer_env \<Rightarrow> RelayRedeemRequest \<Rightarrow> bool" where
  "checked_request E input \<longleftrightarrow> (\<exists>v. checkedRelayRedeem (rl_key E) (rl_isOnCurve E) (rl_toBase58 E) v = Inr input)"

lemma sends_after_lift: "(\<And>x. r = Inr x \<Longrightarrow> sends P (f x)) \<Longrightarrow> sends P (io_bind (io_lift r) f)"
  by (rule sends_after_value [OF silent_lift]) (simp add: io_lift_def)

lemma relay_sends_sound:
  assumes "checked_request E input"
  shows "sends (sound_redeem E) (relay E input)"
proof -
  obtain v where v: "checkedRelayRedeem (rl_key E) (rl_isOnCurve E) (rl_toBase58 E) v = Inr input"
    using assms by (auto simp: checked_request_def)
  note parts = checkedRelayRedeem_parts [OF v]
  have sound: "sound_redeem E (redeem_tx E input account market recipient recipientToken payout)"
    if "rl_key E (rr_market input) = Inr market" "rl_key E (rr_recipient input) = Inr recipient"
      "phaseName (ra_phase account) = Inr phase" "\<not> phase \<noteq> Market_resolved"
      "rl_ata E (ra_collateralMint account) recipient = Inr recipientToken"
      "js_BigInt (rr_payoutAmount input) = Inr payout"
    for account market recipient recipientToken payout phase
  proof -
    have "phaseName (ra_phase account) = Inr Market_resolved" "0 \<le> payout" "payout < 2 ^ 64"
      using that relayU64_InrD [OF parts(3)] by auto
    with that v show ?thesis
      unfolding sound_redeem_def
      using relayBase64_InrD [OF parts(4)] relayBase64_InrD [OF parts(5)] by blast
  qed
  show ?thesis
    unfolding relay_def
    by (intro sends_after_lift sends_after_silent [OF silent_outside] sends_if sends_send_tx
        silent_throw [THEN silent_sends] sound) assumption+
qed

lemma relay_turn_sends_sound: "checked_request E input \<Longrightarrow> sends (sound_redeem E) (relay_turn E input)"
  unfolding relay_turn_def relay_rejected_def
  by (intro sends_catch sends_before_silent relay_sends_sound sends_intros)

lemma answer_sends: "sends P m \<Longrightarrow> w_sent (rq_world (answer i m s)) = w_sent (rq_world s)
    \<or> (\<exists>t. P t \<and> w_sent (rq_world (answer i m s)) = w_sent (rq_world s) @ [t])"
  unfolding sends_def answer_def by (auto split: prod.split sum.split) (metis snd_conv)+

lemma answer_silent: "silent m \<Longrightarrow> w_sent (rq_world (answer i m s)) = w_sent (rq_world s)"
  unfolding silent_def answer_def by (auto split: prod.split sum.split) (metis snd_conv)+

definition queue_checked :: "'x relayer_env \<Rightarrow> 'x relay_state \<Rightarrow> bool" where
  "queue_checked E s \<longleftrightarrow> (\<forall>(i, input) \<in> set (rq_queue s). checked_request E input)"

lemma relay_receive_checked: "relay_receive E request = Inr input \<Longrightarrow> checked_request E input"
  by (auto simp: relay_receive_def checked_request_def rbind_eq_Inr)

lemma relay_step_checked: "queue_checked E s \<Longrightarrow> queue_checked E (relay_step E ev s)"
  by (cases ev) (auto simp: queue_checked_def Let_def relay_receive_checked
      split: option.split sum.split list.split)

lemma relay_step_sends:
  fixes s :: "'x relay_state"
  assumes "queue_checked E s"
  shows "w_sent (rq_world (relay_step E ev s)) = w_sent (rq_world s)
    \<or> ev = Turn \<and> (\<exists>t. sound_redeem E t \<and> w_sent (rq_world (relay_step E ev s)) = w_sent (rq_world s) @ [t])"
proof (cases ev)
  case (Arrives i request)
  have "silent (relay_health E)"
    unfolding relay_health_def by (intro silent_bind silent_catch sends_intros)
  with Arrives show ?thesis by (auto simp: answer_silent silent_return split: option.split)
next
  case (Body_read i)
  have "silent (relay_rejected e :: ('x world, response) io)" for e
    unfolding relay_rejected_def by (intro silent_bind sends_intros)
  with Body_read show ?thesis by (auto simp: answer_silent Let_def split: option.split sum.split)
next
  case Turn
  show ?thesis
  proof (cases "rq_queue s")
    case (Cons item waiting)
    obtain i input where item: "item = (i, input)" by fastforce
    with Cons assms have "checked_request E input" by (auto simp: queue_checked_def)
    from answer_sends [OF relay_turn_sends_sound [OF this], of i "s\<lparr>rq_pending := rq_pending s - 1, rq_queue := waiting\<rparr>"]
    show ?thesis using Turn Cons item by simp
  qed (simp add: Turn)
qed

lemma relay_run_sends:
  assumes "queue_checked E s"
  shows "\<exists>ts. w_sent (rq_world (relay_run E events s)) = w_sent (rq_world s) @ ts
    \<and> list_all (sound_redeem E) ts \<and> length ts \<le> length (filter (\<lambda>ev. ev = Turn) events)"
  using assms
proof (induction events arbitrary: s)
  case (Cons ev events)
  let ?s = "relay_step E ev s"
  obtain us where us: "w_sent (rq_world ?s) = w_sent (rq_world s) @ us" "list_all (sound_redeem E) us"
    "length us \<le> (if ev = Turn then 1 else 0)"
    using relay_step_sends [OF Cons.prems, of ev] by (elim disjE) (force intro: that [of "[]"], force)
  obtain ts where "w_sent (rq_world (relay_run E events ?s)) = w_sent (rq_world ?s) @ ts"
    "list_all (sound_redeem E) ts" "length ts \<le> length (filter (\<lambda>ev. ev = Turn) events)"
    using Cons.IH [OF relay_step_checked [OF Cons.prems]] by blast
  with us show ?case by (intro exI [of _ "us @ ts"]) (auto split: if_splits)
qed simp


subsection \<open>Examples\<close>

text \<open>A relayer whose wallets are the keys that start with zero, and derived addresses with one.\<close>

definition relayer_example :: "unit relayer_env" where
  "relayer_example = \<lparr>rl_token = None, rl_keypairPath = None, rl_readKeypair = (\<lambda>p. io_return []), rl_relayer = [],
     rl_program = [], rl_tokenProgram = [], rl_systemProgram = [],
     rl_key = (\<lambda>s. Inr (if s = ''m'' then replicate 32 1 else replicate 32 0)),
     rl_isOnCurve = (\<lambda>k. hd k = 0), rl_toBase58 = (\<lambda>k. ''w''), rl_derive = (\<lambda>seeds p. replicate 32 1),
     rl_ata = (\<lambda>m r. Inr []), rl_market = (\<lambda>m. io_throw Type_Error), rl_accountExists = (\<lambda>a. io_return False),
     rl_balance = (\<lambda>a. io_return 0), rl_rpc = (\<lambda>t. io_return ''sig'')\<rparr>"

definition relay_body_example :: json where
  "relay_body_example = JObject [(''market'', JString ''w''), (''recipient'', JString ''w''),
     (''nullifierHash'', JString (''0x'' @ replicate 64 CHR ''1'')), (''payoutAmount'', JString ''7''),
     (''proof'', JString (base64_encode (replicate 388 0))), (''publicWitness'', JString (base64_encode (replicate 300 0)))]"

definition relay_request_example :: "json \<Rightarrow> ServiceRequest" where
  "relay_request_example v = \<lparr>sq_method = ''POST'', sq_url = ''/redeem'', sq_authorization = Some ''Bearer '',
     sq_body = [utf8 (stringify v)]\<rparr>"

definition plain_text :: "string \<Rightarrow> bool" where
  "plain_text s \<longleftrightarrow> list_all (\<lambda>c. escape_char c = [c] \<and> length (utf8_char c) = 1) s"

lemma length_plain_quote: "plain_text s \<Longrightarrow> length (utf8 (json_quote s)) = length s + 2"
proof -
  assume p: "plain_text s"
  then have "concat (map escape_char s) = s" by (induction s) (auto simp: plain_text_def)
  moreover from p have "length (utf8 s) = length s" by (induction s) (auto simp: plain_text_def utf8_def)
  moreover have "length (utf8 [CHR 0x22]) = 1" by code_simp
  ultimately show ?thesis by (simp add: json_quote_def utf8_def)
qed

lemma base64_zeros: "base64_encode (replicate (3 * n) 0 @ r) = replicate (4 * n) CHR ''A'' @ base64_encode r"
proof (induction n)
  case (Suc n)
  have "base64_encode [0, 0, 0] = replicate 4 CHR ''A''" by code_simp
  then have z: "base64_encode (0 # 0 # 0 # r) = replicate 4 CHR ''A'' @ base64_encode r" for r
    by (simp add: Let_def)
  have "replicate (3 * Suc n) (0 :: byte) @ r = 0 # 0 # 0 # (replicate (3 * n) 0 @ r)"
    by (simp add: numeral_3_eq_3)
  then have "base64_encode (replicate (3 * Suc n) 0 @ r) = replicate 4 CHR ''A'' @ replicate (4 * n) CHR ''A'' @ base64_encode r"
    using z Suc by simp
  also have "\<dots> = replicate (4 * Suc n) CHR ''A'' @ base64_encode r"
    by (simp add: replicate_add [symmetric])
  finally show ?case .
qed simp

lemma plain_zeros: "plain_text (base64_encode (replicate 388 0))" "plain_text (base64_encode (replicate 300 0))"
proof -
  have a: "plain_text [CHR ''A'']" by code_simp
  then have r: "plain_text (replicate n CHR ''A'' @ s) \<longleftrightarrow> plain_text s" for n s
    by (induction n) (simp_all add: plain_text_def)
  have "plain_text (base64_encode [0])" by code_simp
  moreover have "replicate 388 (0 :: byte) = replicate (3 * 129) 0 @ [0]"
    using replicate_add [of 387 1 "0 :: byte"] by simp
  ultimately show "plain_text (base64_encode (replicate 388 0))" by (simp only: base64_zeros r)
  show "plain_text (base64_encode (replicate 300 0))"
    using base64_zeros [of 100 "[]"] r [of 400 "[]"] by (simp add: plain_text_def)
qed

lemma relay_body_length: "length (utf8 (stringify relay_body_example)) \<le> RELAY_MAX_BODY_BYTES"
proof -
  have k: "plain_text ''market''" "plain_text ''recipient''" "plain_text ''nullifierHash''" "plain_text ''payoutAmount''"
    "plain_text ''proof''" "plain_text ''publicWitness''" "plain_text ''w''" "plain_text ''7''"
    "plain_text (''0x'' @ replicate 64 CHR ''1'')" "plain_text '',''" "plain_text '':''" by code_simp+
  have u: "length (utf8 (s @ t)) = length (utf8 s) + length (utf8 t)"
    "length (utf8 (c # t)) = length (utf8_char c) + length (utf8 t)" "length (utf8 []) = 0" for s t c
    by (simp_all add: utf8_def)
  have c: "length (utf8_char CHR '','') = 1" "length (utf8_char CHR '':'') = 1" "length (utf8_char CHR 0x7B) = 1"
    "length (utf8_char CHR 0x7D) = 1" by code_simp+
  show ?thesis
    unfolding relay_body_example_def stringify.simps stringify_entries.simps u c
      length_plain_quote [OF k(1)] length_plain_quote [OF k(2)] length_plain_quote [OF k(3)] length_plain_quote [OF k(4)]
      length_plain_quote [OF k(5)] length_plain_quote [OF k(6)] length_plain_quote [OF k(7)] length_plain_quote [OF k(8)]
      length_plain_quote [OF k(9)] length_plain_quote [OF plain_zeros(1)] length_plain_quote [OF plain_zeros(2)]
      length_base64_encode RELAY_MAX_BODY_BYTES_def length_append length_replicate by simp
qed

lemma relay_request_body:
  assumes "plain v" "length (utf8 (stringify v)) \<le> RELAY_MAX_BODY_BYTES"
  shows "limitedJson RELAY_MAX_BODY_BYTES (sq_body (relay_request_example v)) = Inr v"
  using assms by (simp add: limitedJson_def relay_request_example_def limitStep_def json_round_trip)

lemma relay_base64_zeros:
  "relayBase64 (Some (JString (base64_encode (replicate (Suc n) 0)))) name (Suc n) = Inr (base64_encode (replicate (Suc n) 0))"
  using base64_syntax_encode [of "replicate (Suc n) 0"] by (simp add: relayBase64_def)

lemma relay_receive_example:
  "\<exists>input. relay_receive relayer_example (relay_request_example relay_body_example) = Inr input"
proof -
  have p: "plain relay_body_example" by (simp add: relay_body_example_def map_ok_def)
  have b: "relayBase64 (Some (JString (base64_encode (replicate 388 0)))) name 388 = Inr (base64_encode (replicate 388 0))"
    "relayBase64 (Some (JString (base64_encode (replicate 300 0)))) name 300 = Inr (base64_encode (replicate 300 0))" for name
    using relay_base64_zeros [of 387] relay_base64_zeros [of 299] by simp_all
  have f: "field_syntax (''0x'' @ replicate 64 CHR ''1'')" by code_simp
  have n: "relayU64 (Some (JString ''7'')) name = Inr ''7''" for name
  proof -
    have "canonical_digits ''7''" "js_BigInt ''7'' = Inr 7" by code_simp+
    then show ?thesis by (simp add: relayU64_def)
  qed
  have parts: "object_like relay_body_example" "field relay_body_example ''market'' = Some (JString ''w'')"
    "field relay_body_example ''recipient'' = Some (JString ''w'')"
    "field relay_body_example ''nullifierHash'' = Some (JString (''0x'' @ replicate 64 CHR ''1''))"
    "field relay_body_example ''payoutAmount'' = Some (JString ''7'')"
    "field relay_body_example ''proof'' = Some (JString (base64_encode (replicate 388 0)))"
    "field relay_body_example ''publicWitness'' = Some (JString (base64_encode (replicate 300 0)))"
    by (simp_all add: relay_body_example_def map_get_def object_like_def)
  have "publicKey (rl_key relayer_example) (rl_isOnCurve relayer_example) (rl_toBase58 relayer_example)
      (Some (JString ''w'')) name = Inr ''w''" for name
    by (simp add: publicKey_def relayer_example_def)
  then show ?thesis
    unfolding relay_receive_def relay_request_body [OF p relay_body_length] rbind_Inr checkedRelayRedeem_def parts b n
      string_of.simps option.case
    using f parts(1) by simp
qed

theorem relay_limit_exceeded_witness:
  "\<exists>events s. s = relay_run relayer_example events (relay_initial \<lparr>w_sent = [], w_log = [], w_nextRequestAt = 0, w_rest = ()\<rparr>) \<and> rq_pending s = 100"
proof -
  have a: "relay_admit relayer_example 0 (relay_request_example relay_body_example) = None"
    by (simp add: relay_admit_def relay_request_example_def relayer_example_def bearer_authorized_def
        MAX_PENDING_REDEMPTIONS_def)
  obtain input where "relay_receive relayer_example (relay_request_example relay_body_example) = Inr input"
    using relay_receive_example by blast
  from relay_limit_exceeded [OF a this, of "\<lparr>w_sent = [], w_log = [], w_nextRequestAt = 0, w_rest = ()\<rparr>" 100] show ?thesis by blast
qed

theorem derived_market_is_refused_witness:
  "relay_receive relayer_example (relay_request_example (JObject [(''market'', JString ''m'')]))
    = Inl (Error ''market must be a wallet address'')"
proof -
  let ?v = "JObject [(''market'', JString ''m'')]"
  let ?request = "relay_request_example ?v"
  have "length (utf8 (stringify ?v)) \<le> RELAY_MAX_BODY_BYTES" by code_simp
  then have b: "limitedJson RELAY_MAX_BODY_BYTES (sq_body ?request) = Inr ?v"
    by (intro relay_request_body) (simp_all add: map_ok_def)
  have c: "\<not> rl_isOnCurve relayer_example (rl_derive relayer_example seeds programId)" for seeds programId
    by (simp add: relayer_example_def)
  have k: "rl_key relayer_example ''m''
      = Inr (rl_derive relayer_example [utf8 ''market'', [], []] (rl_program relayer_example))"
    by (simp add: relayer_example_def)
  have o: "object_like ?v" "field ?v ''market'' = Some (JString ''m'')" by (simp_all add: object_like_def map_get_def)
  have r: "map_of (rq_reading ((relay_initial w)\<lparr>rq_reading := [(3, ?request)]\<rparr>)) 3 = Some ?request" for w by simp
  from derived_market_is_refused [OF c b o k r] show ?thesis by blast
qed

end
