(* ===== verification/Positions.thy ===== *)
theory Positions
  imports CommitteeCrypto Prover
begin

text \<open>
  The private positions a browser keeps (\<open>web/lib/positions.ts\<close>): the encrypted vault of a wallet in
  the local storage, the key derived from a signature, the migration of positions stored in clear by
  an earlier version, and backups.

  A position is a JSON object; what the checks guarantee of it is \<open>position_of\<close>.  The digest and AES-GCM
  of Web Crypto, its random bytes and the wallet's signature are parameters.
\<close>

section \<open>The browser\<close>

record 'x browser =
  br_window :: bool
  br_storage :: "(string, string) jsmap"
  br_rest :: 'x

record 'x vault_env =
  ve_crypto :: "'x webcrypto"
  ve_sha256 :: "byte list \<Rightarrow> byte list"

definition in_rest :: "('x, 'a) outside \<Rightarrow> ('x browser, 'a) io" where
  "in_rest m = (\<lambda>b. case m (br_rest b) of (r, x) \<Rightarrow> (r, b\<lparr>br_rest := x\<rparr>))"

definition NO_WINDOW :: error where
  "NO_WINDOW = Error ''window is not defined''"

definition get_item :: "string \<Rightarrow> ('x browser, string option) io" where
  "get_item k = (\<lambda>b. if br_window b then (Inr (map_get (br_storage b) k), b) else (Inl NO_WINDOW, b))"

definition set_item :: "string \<Rightarrow> string \<Rightarrow> ('x browser, unit) io" where
  "set_item k v =
     (\<lambda>b. if br_window b then (Inr (), b\<lparr>br_storage := map_put (br_storage b) k v\<rparr>) else (Inl NO_WINDOW, b))"

definition remove_item :: "string \<Rightarrow> ('x browser, unit) io" where
  "remove_item k =
     (\<lambda>b. if br_window b then (Inr (), b\<lparr>br_storage := map_delete (br_storage b) k\<rparr>) else (Inl NO_WINDOW, b))"

section \<open>Texts and keys\<close>

definition STORAGE_PREFIX :: string where "STORAGE_PREFIX = ''nortia.private-position-vault.''"
definition LEGACY_STORAGE_KEY :: string where "LEGACY_STORAGE_KEY = ''nortia.private-positions''"
definition NETWORK :: string where "NETWORK = ''solana-devnet''"

definition toBase64 :: "byte list \<Rightarrow> string" where
  "toBase64 bytes = base64_encode bytes"

text \<open>
  \<open>atob\<close>: white space is dropped, up to two signs of padding may end a text of a multiple of four, and
  any other character outside the alphabet or a single left-over one is an error.
\<close>

definition ascii_space :: "char \<Rightarrow> bool" where
  "ascii_space c \<longleftrightarrow> char_code c \<in> {9, 10, 12, 13, 32}"

definition fromBase64 :: "string \<Rightarrow> byte list res" where
  "fromBase64 v =
     (let s = filter (\<lambda>c. \<not> ascii_space c) v;
          t = if length s mod 4 = 0 then (if endsWith s ''=='' then take (length s - 2) s
                else if endsWith s ''='' then take (length s - 1) s else s) else s
      in if length t mod 4 = 1 \<or> \<not> list_all b64_std t then Inl (Error ''InvalidCharacterError'')
         else Inr (base64_decode t))"

definition vaultMessage :: "string \<Rightarrow> string" where
  "vaultMessage wallet =
     js_join [LF]
       [''Nortia private position vault'', ''Network: '' @ NETWORK, ''Wallet: '' @ wallet,
        ''Purpose: encrypt and recover private market positions'',
        ''This signature does not submit a transaction or authorize spending.'']"

definition vaultData :: "string \<Rightarrow> byte list" where
  "vaultData wallet = utf8 (''nortia-private-positions'' @ [LF] @ NETWORK @ [LF] @ wallet)"

definition deriveVaultKey :: "'x vault_env \<Rightarrow> string \<Rightarrow> byte list \<Rightarrow> byte list" where
  "deriveVaultKey E wallet signature = ve_sha256 E (utf8 (vaultMessage wallet) @ signature)"

definition storageKey :: "string \<Rightarrow> string" where
  "storageKey wallet = STORAGE_PREFIX @ wallet"

section \<open>Positions\<close>

definition normalizePosition :: "json \<Rightarrow> string \<Rightarrow> json option" where
  "normalizePosition v owner =
     (if \<not> object_like v then None
      else
        let normalizedOwner = (case string_of (field v ''owner'') of Some s \<Rightarrow> s | None \<Rightarrow> owner);
            amount = (case string_of (field v ''amount'') of
                Some s \<Rightarrow> Some s
              | None \<Rightarrow> if field v ''ticketUsdc'' = Some (JNumber (JInt 1)) then Some ''1000000'' else None);
            stakeAmount = (case string_of (field v ''stakeAmount'') of Some s \<Rightarrow> Some s | None \<Rightarrow> amount)
        in case (amount, stakeAmount) of
            (Some a, Some s) \<Rightarrow>
              if field v ''version'' \<noteq> Some (JNumber (JInt 1)) \<or> normalizedOwner \<noteq> owner
                 \<or> string_of (field v ''marketId'') = None \<or> string_of (field v ''question'') = None
                 \<or> (field v ''side'' \<noteq> Some (JString ''yes'') \<and> field v ''side'' \<noteq> Some (JString ''no''))
                 \<or> string_of (field v ''commitment'') = None \<or> string_of (field v ''secret'') = None
                 \<or> string_of (field v ''nullifier'') = None \<or> \<not> digits_syntax a \<or> \<not> digits_syntax s
              then None
              else (case v of
                  JObject kvs \<Rightarrow> Some (JObject
                    (map_put (map_put (map_put kvs ''owner'' (JString normalizedOwner)) ''amount'' (JString a))
                      ''stakeAmount'' (JString s)))
                | _ \<Rightarrow> None)
          | _ \<Rightarrow> None)"

definition parsePositions :: "json \<Rightarrow> string \<Rightarrow> json list" where
  "parsePositions v owner =
     (case v of JArray items \<Rightarrow> List.map_filter (\<lambda>item. normalizePosition item owner) items | _ \<Rightarrow> [])"

definition commitment_of :: "json \<Rightarrow> string" where
  "commitment_of position = text_of_field position ''commitment''"

definition dedupeStep :: "(string, json) jsmap \<Rightarrow> json \<Rightarrow> (string, json) jsmap" where
  "dedupeStep unique position =
     (if map_has unique (commitment_of position) then unique
      else map_put unique (commitment_of position) position)"

definition dedupe :: "json list \<Rightarrow> json list" where
  "dedupe positions = map_values (foldl dedupeStep [] positions)"

section \<open>The vault\<close>

record EncryptedVault =
  ev_wallet :: string
  ev_iv :: string
  ev_ciphertext :: string

definition vault_json :: "EncryptedVault \<Rightarrow> json" where
  "vault_json vault =
     JObject [(''format'', JString ''nortia-private-positions''), (''network'', JString NETWORK),
       (''wallet'', JString (ev_wallet vault)), (''iv'', JString (ev_iv vault)),
       (''ciphertext'', JString (ev_ciphertext vault))]"

definition parseVault :: "json \<Rightarrow> EncryptedVault option" where
  "parseVault v =
     (if \<not> object_like v then None
      else case (string_of (field v ''wallet''), string_of (field v ''iv''), string_of (field v ''ciphertext'')) of
          (Some w, Some i, Some c) \<Rightarrow>
            if field v ''format'' \<noteq> Some (JString ''nortia-private-positions'') \<or> field v ''network'' \<noteq> Some (JString NETWORK)
            then None else Some \<lparr>ev_wallet = w, ev_iv = i, ev_ciphertext = c\<rparr>
        | _ \<Rightarrow> None)"

definition readVault :: "string \<Rightarrow> ('x browser, EncryptedVault option) io" where
  "readVault wallet = (\<lambda>b.
     if \<not> br_window b then (Inr None, b)
     else (case json_parse (case map_get (br_storage b) (storageKey wallet) of Some t \<Rightarrow> t | None \<Rightarrow> ''null'') of
         Inl e \<Rightarrow> (Inr None, b) | Inr v \<Rightarrow> (Inr (parseVault v), b)))"

definition decryptVault :: "'x vault_env \<Rightarrow> EncryptedVault \<Rightarrow> byte list \<Rightarrow> json list res" where
  "decryptVault E vault key =
     rbind (fromBase64 (ev_iv vault)) (\<lambda>iv.
     rbind (fromBase64 (ev_ciphertext vault)) (\<lambda>ciphertext.
     rbind (wc_aes_decrypt (ve_crypto E) key iv (vaultData (ev_wallet vault)) ciphertext) (\<lambda>plaintext.
     rbind (json_parse (utf8_text plaintext)) (\<lambda>v.
       Inr (parsePositions v (ev_wallet vault))))))"

definition encryptVault :: "'x vault_env \<Rightarrow> string \<Rightarrow> json list \<Rightarrow> byte list \<Rightarrow> ('x browser, unit) io" where
  "encryptVault E wallet positions key =
     io_bind (in_rest (wc_random (ve_crypto E) 12)) (\<lambda>iv.
       let plaintext = utf8 (stringify (JArray (dedupe positions)));
           ciphertext = wc_aes_encrypt (ve_crypto E) key iv (vaultData wallet) plaintext
       in set_item (storageKey wallet)
            (stringify (vault_json \<lparr>ev_wallet = wallet, ev_iv = toBase64 iv, ev_ciphertext = toBase64 ciphertext\<rparr>)))"

definition readLegacyPositions :: "string \<Rightarrow> ('x browser, json list) io" where
  "readLegacyPositions owner = (\<lambda>b.
     if \<not> br_window b then (Inr [], b)
     else (case json_parse (case map_get (br_storage b) LEGACY_STORAGE_KEY of Some t \<Rightarrow> t | None \<Rightarrow> ''[]'') of
         Inl e \<Rightarrow> (Inr [], b) | Inr v \<Rightarrow> (Inr (parsePositions v owner), b)))"

definition unlockPrivatePositions ::
    "'x vault_env \<Rightarrow> string \<Rightarrow> (byte list \<Rightarrow> ('x, byte list) outside) \<Rightarrow> ('x browser, byte list \<times> json list \<times> nat) io" where
  "unlockPrivatePositions E wallet signMessage =
     io_bind (in_rest (signMessage (utf8 (vaultMessage wallet)))) (\<lambda>signature.
       let key = deriveVaultKey E wallet signature in
       io_bind (readVault wallet) (\<lambda>vault.
       io_bind (case vault of Some v \<Rightarrow> io_lift (decryptVault E v key) | None \<Rightarrow> io_return []) (\<lambda>encrypted.
       io_bind (readLegacyPositions wallet) (\<lambda>legacy.
         let positions = dedupe (encrypted @ legacy) in
         io_bind (if legacy \<noteq> [] \<or> vault = None
             then io_bind (encryptVault E wallet positions key) (\<lambda>_. remove_item LEGACY_STORAGE_KEY)
             else io_return ()) (\<lambda>_.
           io_return (key, positions, length legacy))))))"

definition loadPrivatePositions :: "'x vault_env \<Rightarrow> string \<Rightarrow> byte list \<Rightarrow> ('x browser, json list) io" where
  "loadPrivatePositions E wallet key =
     io_bind (readVault wallet) (\<lambda>vault.
       case vault of
         None \<Rightarrow> io_return []
       | Some v \<Rightarrow>
           if ev_wallet v \<noteq> wallet then io_throw (Error ''This browser vault belongs to a different wallet'')
           else io_lift (decryptVault E v key))"

definition savePrivatePosition :: "'x vault_env \<Rightarrow> json \<Rightarrow> byte list \<Rightarrow> ('x browser, unit) io" where
  "savePrivatePosition E position key =
     (let owner = text_of_field position ''owner'' in
      io_bind (loadPrivatePositions E owner key) (\<lambda>existing.
        encryptVault E owner
          (position # filter (\<lambda>item. commitment_of item \<noteq> commitment_of position) existing) key))"

definition findPrivatePosition :: "json list \<Rightarrow> string \<Rightarrow> json option" where
  "findPrivatePosition positions v =
     (let query = toLowerCase (trim v) in
      find (\<lambda>position. toLowerCase (text_of_field position ''secret'') = query
        \<or> toLowerCase (commitment_of position) = query) positions)"

definition exportPrivatePositionVault :: "'x vault_env \<Rightarrow> string \<Rightarrow> byte list \<Rightarrow> ('x browser, string) io" where
  "exportPrivatePositionVault E wallet key =
     io_bind (loadPrivatePositions E wallet key) (\<lambda>positions.
     io_bind (encryptVault E wallet positions key) (\<lambda>_.
     io_bind (get_item (storageKey wallet)) (\<lambda>text.
       io_return (case text of Some t \<Rightarrow> t | None \<Rightarrow> []))))"

definition importPrivatePositionVault ::
    "'x vault_env \<Rightarrow> string \<Rightarrow> byte list \<Rightarrow> string \<Rightarrow> ('x browser, json list) io" where
  "importPrivatePositionVault E wallet key backup =
     (let vault = (case json_parse backup of Inl e \<Rightarrow> None | Inr v \<Rightarrow> parseVault v) in
      case vault of
        None \<Rightarrow> io_throw (Error ''Private position backup is invalid'')
      | Some v \<Rightarrow>
          if ev_wallet v \<noteq> wallet then io_throw (Error ''Private position backup belongs to a different wallet'')
          else
            io_bind (io_lift (decryptVault E v key)) (\<lambda>imported.
            io_bind (loadPrivatePositions E wallet key) (\<lambda>existing.
              let positions = dedupe (imported @ existing) in
              io_bind (encryptVault E wallet positions key) (\<lambda>_. io_return positions))))"

section \<open>Lemmas\<close>

subsection \<open>Texts\<close>

lemma b64_not_space: "b64_std c \<Longrightarrow> \<not> ascii_space c"
proof -
  have "char_code CHR ''+'' = 43" "char_code CHR ''/'' = 47" by code_simp+
  then show "b64_std c \<Longrightarrow> \<not> ascii_space c"
    by (auto simp: b64_std_def is_alnum_def ascii_space_def Let_def)
qed

lemma endsWith_append: "endsWith (s @ p) p"
  by (simp add: endsWith_def startsWith_def)

lemma endsWith_in: "endsWith s p \<Longrightarrow> set p \<subseteq> set s"
  unfolding endsWith_def startsWith_def by (metis set_rev set_take_subset)

lemma fromBase64_encode: "fromBase64 (base64_encode bs) = Inr bs"
proof -
  obtain body pad where s: "base64_encode bs = body @ pad" and b: "list_all b64_std body"
    and p: "pad \<in> {[], ''='', ''==''}"
    using base64_shape [of bs] by blast
  have e: "\<not> b64_std CHR ''=''" "\<not> ascii_space CHR ''=''" by code_simp+
  have eb: "CHR ''='' \<notin> set body" using b e(1) by (auto simp: list_all_iff)
  have f: "filter (\<lambda>c. \<not> ascii_space c) (body @ pad) = body @ pad"
    using b b64_not_space e(2) p by (auto simp: filter_id_conv list_all_iff)
  have "4 dvd length (base64_encode bs)" by (simp add: length_base64_encode)
  then have l: "length (body @ pad) mod 4 = 0" unfolding s by (simp only: dvd_eq_mod_eq_0)
  have d: "base64_decode body = bs"
  proof -
    have "takeWhile (\<lambda>c. c \<noteq> CHR ''='') (body @ pad) = body" "takeWhile (\<lambda>c. c \<noteq> CHR ''='') body = body"
    proof -
      have n: "x \<noteq> CHR ''=''" if "x \<in> set body" for x using that eb by blast
      from p have "takeWhile (\<lambda>c. c \<noteq> CHR ''='') pad = []" by auto
      with takeWhile_append2 [of body "\<lambda>c. c \<noteq> CHR ''=''", OF n]
      show "takeWhile (\<lambda>c. c \<noteq> CHR ''='') (body @ pad) = body" by simp
      show "takeWhile (\<lambda>c. c \<noteq> CHR ''='') body = body" using n by (simp add: takeWhile_eq_all_conv)
    qed
    then have "base64_decode (body @ pad) = base64_decode body" unfolding base64_decode_def by (simp only:)
    with base64_decode_encode [of bs] s show ?thesis by simp
  qed
  have t: "(if endsWith (body @ pad) ''=='' then take (length (body @ pad) - 2) (body @ pad)
      else if endsWith (body @ pad) ''='' then take (length (body @ pad) - 1) (body @ pad) else body @ pad) = body"
    using p
  proof (elim insertE emptyE)
    assume "pad = []"
    then show ?thesis using endsWith_in [of body] eb by force
  next
    assume pad: "pad = ''=''"
    have "\<not> endsWith (body @ ''='') ''==''"
      using eb by (cases body rule: rev_cases) (auto simp: endsWith_def startsWith_def)
    with pad endsWith_append [of body "''=''"] show ?thesis by simp
  next
    assume pad: "pad = ''==''"
    with endsWith_append [of body "''==''"] show ?thesis by simp
  qed
  have "length body mod 4 \<noteq> 1"
    using l p by (elim insertE emptyE) (simp_all, presburger+)
  then show ?thesis
    unfolding fromBase64_def s f Let_def l using t b d by simp
qed

lemma vault_opens:
  assumes "\<And>k iv a p. wc_aes_decrypt (ve_crypto E) k iv a (wc_aes_encrypt (ve_crypto E) k iv a p) = Inr p"
    and "plain (JArray ps)"
  shows "decryptVault E \<lparr>ev_wallet = wallet, ev_iv = toBase64 iv, ev_ciphertext = toBase64
      (wc_aes_encrypt (ve_crypto E) key iv (vaultData wallet) (utf8 (stringify (JArray ps))))\<rparr> key
    = Inr (parsePositions (JArray ps) wallet)"
  using assms(1) json_round_trip [OF assms(2)] by (simp add: decryptVault_def toBase64_def fromBase64_encode)

lemma parseVault_json [simp]: "parseVault (vault_json vault) = Some vault"
  by (cases vault) (simp add: parseVault_def vault_json_def object_like_def map_get_def)

lemma plain_vault: "plain (vault_json vault)"
  by (simp add: vault_json_def map_ok_def)

subsection \<open>Normalised positions\<close>

lemma map_put_same: "map_get m k = Some v \<Longrightarrow> map_put m k v = m"
  unfolding map_get_def map_put_def by (induction m) (auto split: if_splits)

definition position_of :: "string \<Rightarrow> json \<Rightarrow> bool" where
  "position_of owner p \<longleftrightarrow> normalizePosition p owner = Some p"

lemma normalizePosition_SomeD:
  assumes "normalizePosition v owner = Some p"
  shows "string_of (field p ''owner'') = Some owner \<and> position_of owner p
    \<and> field p ''secret'' = field v ''secret'' \<and> field p ''commitment'' = field v ''commitment''"
proof -
  from assms obtain a st kvs where v: "v = JObject kvs"
    and p: "p = JObject (map_put (map_put (map_put kvs ''owner'' (JString owner)) ''amount'' (JString a)) ''stakeAmount'' (JString st))"
    and c: "field v ''version'' = Some (JNumber (JInt 1))" "string_of (field v ''marketId'') \<noteq> None"
      "string_of (field v ''question'') \<noteq> None" "field v ''side'' = Some (JString ''yes'') \<or> field v ''side'' = Some (JString ''no'')"
      "string_of (field v ''commitment'') \<noteq> None" "string_of (field v ''secret'') \<noteq> None"
      "string_of (field v ''nullifier'') \<noteq> None" "digits_syntax a" "digits_syntax st"
    unfolding normalizePosition_def Let_def by (auto split: option.splits if_splits json.splits)
  have same: "field p k = field v k" if "k \<noteq> ''owner''" "k \<noteq> ''amount''" "k \<noteq> ''stakeAmount''" for k
    using that by (simp add: p v)
  have three: "map_get (map_put (map_put (map_put kvs ''owner'' (JString owner)) ''amount'' (JString a)) ''stakeAmount'' (JString st)) k
      = (if k = ''owner'' then Some (JString owner) else if k = ''amount'' then Some (JString a)
         else if k = ''stakeAmount'' then Some (JString st) else map_get kvs k)" for k by simp
  have own: "field p ''owner'' = Some (JString owner)" "field p ''amount'' = Some (JString a)" "field p ''stakeAmount'' = Some (JString st)"
    by (simp_all add: p)
  have put: "map_put (map_put (map_put (map_put (map_put (map_put kvs ''owner'' (JString owner)) ''amount'' (JString a))
        ''stakeAmount'' (JString st)) ''owner'' (JString owner)) ''amount'' (JString a)) ''stakeAmount'' (JString st)
      = map_put (map_put (map_put kvs ''owner'' (JString owner)) ''amount'' (JString a)) ''stakeAmount'' (JString st)"
    by (simp add: map_put_same)
  have o: "object_like p" by (simp add: p object_like_def)
  have "normalizePosition p owner = Some p"
    unfolding normalizePosition_def Let_def
    using o c own same by (simp add: p put)
  then show ?thesis using own same by (simp add: position_of_def)
qed

lemma parsePositions_of: "p \<in> set (parsePositions v owner) \<Longrightarrow> position_of owner p"
  using normalizePosition_SomeD
  by (auto simp: parsePositions_def map_filter_def split: json.splits)

lemma parsePositions_same: "(\<And>p. p \<in> set ps \<Longrightarrow> position_of owner p) \<Longrightarrow> parsePositions (JArray ps) owner = ps"
  by (induction ps) (simp_all add: parsePositions_def position_of_def List.map_filter_simps)

subsection \<open>One position for each commitment\<close>

lemma dedupeStep_cases:
  "dedupeStep m p = m \<and> commitment_of p \<in> fst ` set m
   \<or> dedupeStep m p = m @ [(commitment_of p, p)] \<and> commitment_of p \<notin> fst ` set m"
proof (cases "map_has m (commitment_of p)")
  case True
  then obtain v where "map_get m (commitment_of p) = Some v" by (auto simp: map_has_def)
  then have "commitment_of p \<in> fst ` set m" by (force dest: map_get_Some_in)
  with True show ?thesis by (simp add: dedupeStep_def)
next
  case False
  then have n: "map_get m (commitment_of p) = None" by (simp add: map_has_def)
  then have "commitment_of p \<notin> fst ` set m" by (simp add: map_get_def map_of_eq_None_iff)
  with False n show ?thesis by (simp add: dedupeStep_def map_put_new)
qed

lemma dedupe_fold:
  "map_ok (foldl dedupeStep [] ps) \<and> (\<forall>e \<in> set (foldl dedupeStep [] ps). fst e = commitment_of (snd e) \<and> snd e \<in> set ps)
   \<and> fst ` set (foldl dedupeStep [] ps) = commitment_of ` set ps"
proof (induction ps rule: rev_induct)
  case (snoc p ps)
  then show ?case
    using dedupeStep_cases [of "foldl dedupeStep [] ps" p] by (elim disjE) (auto simp: map_ok_def)
qed simp

lemma dedupe_facts:
  shows "set (dedupe ps) \<subseteq> set ps" and "commitment_of ` set (dedupe ps) = commitment_of ` set ps"
    and "distinct (map commitment_of (dedupe ps))"
proof -
  let ?r = "foldl dedupeStep [] ps"
  have r: "map_ok ?r" "\<And>e. e \<in> set ?r \<Longrightarrow> fst e = commitment_of (snd e) \<and> snd e \<in> set ps"
    "fst ` set ?r = commitment_of ` set ps"
    using dedupe_fold [of ps] by blast+
  from r(2) show "set (dedupe ps) \<subseteq> set ps" by (auto simp: dedupe_def map_values_def)
  have m: "map commitment_of (map snd ?r) = map fst ?r" using r(2) by simp
  then have "commitment_of ` set (map snd ?r) = fst ` set ?r" by (metis set_map)
  with r(3) show "commitment_of ` set (dedupe ps) = commitment_of ` set ps"
    by (simp only: dedupe_def map_values_def)
  from r(1) m show "distinct (map commitment_of (dedupe ps))" by (simp only: dedupe_def map_values_def map_ok_def)
qed

lemma dedupe_distinct: "distinct (map commitment_of ps) \<Longrightarrow> dedupe ps = ps"
proof -
  have "distinct (map commitment_of ps) \<Longrightarrow> foldl dedupeStep [] ps = map (\<lambda>p. (commitment_of p, p)) ps"
  proof (induction ps rule: rev_induct)
    case (snoc p ps)
    then have "commitment_of p \<notin> fst ` set (foldl dedupeStep [] ps)" by auto
    with dedupeStep_cases [of "foldl dedupeStep [] ps" p] snoc show ?case by auto
  qed simp
  then show "distinct (map commitment_of ps) \<Longrightarrow> dedupe ps = ps"
    by (simp add: dedupe_def map_values_def comp_def)
qed

lemma dedupe_again: "dedupe (dedupe ps) = dedupe ps"
  by (rule dedupe_distinct) (rule dedupe_facts(3))

lemma dedupe_Cons:
  assumes "\<And>q. q \<in> set ps \<Longrightarrow> commitment_of q \<noteq> commitment_of p"
  shows "dedupe (p # ps) = p # dedupe ps"
proof -
  have step: "dedupeStep ((commitment_of p, p) # m) q = (commitment_of p, p) # dedupeStep m q"
    if "commitment_of q \<noteq> commitment_of p" for m q
    using that by (simp add: dedupeStep_def map_has_def map_get_def map_put_def)
  have "foldl dedupeStep ((commitment_of p, p) # m) ps = (commitment_of p, p) # foldl dedupeStep m ps" for m
    using assms by (induction ps arbitrary: m) (simp_all add: step)
  from this [of "[]"] show ?thesis
    by (simp add: dedupe_def map_values_def) (simp add: dedupeStep_def map_has_def map_put_def)
qed

subsection \<open>The vault holds what was written\<close>

definition aes_opens :: "'x vault_env \<Rightarrow> bool" where
  "aes_opens E \<longleftrightarrow>
     (\<forall>k iv a p. wc_aes_decrypt (ve_crypto E) k iv a (wc_aes_encrypt (ve_crypto E) k iv a p) = Inr p)"

definition vault_text :: "'x vault_env \<Rightarrow> string \<Rightarrow> json list \<Rightarrow> byte list \<Rightarrow> byte list \<Rightarrow> string" where
  "vault_text E wallet ps key iv =
     stringify (vault_json \<lparr>ev_wallet = wallet, ev_iv = toBase64 iv, ev_ciphertext = toBase64
       (wc_aes_encrypt (ve_crypto E) key iv (vaultData wallet) (utf8 (stringify (JArray (dedupe ps)))))\<rparr>)"

lemma encryptVault_InrD:
  assumes "encryptVault E wallet ps key b = (Inr u, b')"
  shows "\<exists>iv. br_window b' \<and> br_window b
    \<and> br_storage b' = map_put (br_storage b) (storageKey wallet) (vault_text E wallet ps key iv)"
  using assms
  by (auto simp: encryptVault_def io_bind_def in_rest_def set_item_def Let_def vault_text_def
      split: prod.splits sum.splits if_splits)

definition storable :: "string \<Rightarrow> json list \<Rightarrow> bool" where
  "storable wallet ps \<longleftrightarrow> (\<forall>p \<in> set ps. plain p \<and> position_of wallet p)"

lemma storable_dedupe: "storable wallet ps \<Longrightarrow> storable wallet (dedupe ps)"
  using dedupe_facts(1) by (auto simp: storable_def)

lemma vault_text_opens:
  assumes "aes_opens E" "storable wallet ps"
  shows "\<exists>vault. json_parse (vault_text E wallet ps key iv) = Inr (vault_json vault) \<and> ev_wallet vault = wallet
    \<and> decryptVault E vault key = Inr (dedupe ps)"
proof -
  let ?v = "\<lparr>ev_wallet = wallet, ev_iv = toBase64 iv, ev_ciphertext = toBase64
       (wc_aes_encrypt (ve_crypto E) key iv (vaultData wallet) (utf8 (stringify (JArray (dedupe ps)))))\<rparr>"
  have s: "storable wallet (dedupe ps)" using assms(2) by (rule storable_dedupe)
  then have "plain (JArray (dedupe ps))" by (simp add: storable_def)
  then have "decryptVault E ?v key = Inr (parsePositions (JArray (dedupe ps)) wallet)"
    using assms(1) by (intro vault_opens) (simp_all add: aes_opens_def)
  also have "parsePositions (JArray (dedupe ps)) wallet = dedupe ps"
    using s by (intro parsePositions_same) (simp add: storable_def)
  finally show ?thesis
    using json_round_trip [OF plain_vault] by (intro exI [of _ ?v]) (simp add: vault_text_def)
qed

lemma load_after_write:
  assumes "aes_opens E" "storable wallet ps" "encryptVault E wallet ps key b = (Inr u, b')"
  shows "loadPrivatePositions E wallet key b' = (Inr (dedupe ps), b')"
proof -
  obtain iv where w: "br_window b'" "map_get (br_storage b') (storageKey wallet) = Some (vault_text E wallet ps key iv)"
    using encryptVault_InrD [OF assms(3)] by auto
  obtain vault where v: "json_parse (vault_text E wallet ps key iv) = Inr (vault_json vault)" "ev_wallet vault = wallet"
    "decryptVault E vault key = Inr (dedupe ps)"
    using vault_text_opens [OF assms(1,2)] by blast
  have "readVault wallet b' = (Inr (Some vault), b')" by (simp add: readVault_def w v(1))
  then show ?thesis by (simp add: loadPrivatePositions_def io_bind_def v io_lift_def)
qed

lemma readVault_state: "\<exists>r. readVault wallet b = (Inr r, b)"
  by (auto simp: readVault_def split: sum.split)

lemma readLegacyPositions_state: "\<exists>r. readLegacyPositions wallet b = (Inr r, b)"
  unfolding readLegacyPositions_def by (simp split: sum.split)

lemma decryptVault_positions: "decryptVault E vault key = Inr ps \<Longrightarrow> p \<in> set ps \<Longrightarrow> position_of (ev_wallet vault) p"
  using parsePositions_of by (auto simp: decryptVault_def rbind_eq_Inr)

lemma load_positions:
  assumes "loadPrivatePositions E wallet key b = (r, b2)"
  shows "b2 = b \<and> (\<forall>ps. r = Inr ps \<longrightarrow> (\<forall>p \<in> set ps. position_of wallet p))"
proof -
  obtain v where "readVault wallet b = (Inr v, b)" using readVault_state by blast
  with assms show ?thesis
    by (cases v) (auto simp: loadPrivatePositions_def io_bind_def io_return_def io_lift_def io_throw_def
        dest: decryptVault_positions split: if_splits)
qed

lemma key_differs: "storageKey wallet \<noteq> LEGACY_STORAGE_KEY"
proof
  assume "storageKey wallet = LEGACY_STORAGE_KEY"
  then have "storageKey wallet ! 23 = LEGACY_STORAGE_KEY ! 23" by simp
  then show False by (simp add: storageKey_def STORAGE_PREFIX_def LEGACY_STORAGE_KEY_def)
qed

lemma storageKey_inj [simp]: "storageKey w = storageKey v \<longleftrightarrow> w = v"
  by (simp add: storageKey_def)

section \<open>Properties\<close>

text \<open>
  Claim C35. A saved position is kept and so are the others: after saving a well-formed position of a
  wallet, loading the vault with the same key gives that position first, followed by the positions
  loaded before that have another commitment, one for each commitment.
\<close>

theorem saved_position_is_loaded:
  assumes "aes_opens E" "plain position" "position_of owner position"
    and "loadPrivatePositions E owner key b = (Inr existing, b)" "\<forall>p \<in> set existing. plain p"
    and "savePrivatePosition E position key b = (Inr u, b')"
  shows "loadPrivatePositions E owner key b'
      = (Inr (position # dedupe (filter (\<lambda>item. commitment_of item \<noteq> commitment_of position) existing)), b')
    \<and> commitment_of ` set (position # dedupe (filter (\<lambda>item. commitment_of item \<noteq> commitment_of position) existing))
      = insert (commitment_of position) (commitment_of ` set existing)"
proof -
  let ?rest = "filter (\<lambda>item. commitment_of item \<noteq> commitment_of position) existing"
  have own: "text_of_field position ''owner'' = owner"
    using assms(3) normalizePosition_SomeD by (fastforce simp: position_of_def text_of_field_def)
  have "encryptVault E owner (position # ?rest) key b = (Inr u, b')"
    using assms(6) by (simp add: savePrivatePosition_def own io_bind_def assms(4))
  moreover have "storable owner (position # ?rest)"
    using assms(2,3,5) load_positions [OF assms(4)] by (auto simp: storable_def)
  ultimately have "loadPrivatePositions E owner key b' = (Inr (dedupe (position # ?rest)), b')"
    using assms(1) by (intro load_after_write)
  moreover have "dedupe (position # ?rest) = position # dedupe ?rest" by (rule dedupe_Cons) simp
  ultimately show ?thesis using dedupe_facts(2) [of ?rest] by auto
qed

text \<open>
  Claim C36. A backup restores: the text exported in one browser, imported under the same key in
  another, leaves a vault that loads to the positions returned, with one position for each commitment
  of the backup and of what that browser had, the backup's own where both have one.
\<close>

theorem backup_restores_positions:
  assumes "aes_opens E" "loadPrivatePositions E wallet key b = (Inr ps, b)" "\<forall>p \<in> set ps. plain p"
    and "exportPrivatePositionVault E wallet key b = (Inr backup, b')"
    and "loadPrivatePositions E wallet key c = (Inr qs, c)" "\<forall>q \<in> set qs. plain q"
    and "importPrivatePositionVault E wallet key backup c = (Inr result, c')"
  shows "loadPrivatePositions E wallet key c' = (Inr result, c')
    \<and> result = dedupe (dedupe ps @ qs)
    \<and> commitment_of ` set result = commitment_of ` set ps \<union> commitment_of ` set qs
    \<and> distinct (map commitment_of result)"
proof -
  have st: "storable wallet ps" "storable wallet qs"
    using assms(3,6) load_positions [OF assms(2)] load_positions [OF assms(5)] by (auto simp: storable_def)
  obtain b1 where e: "encryptVault E wallet ps key b = (Inr (), b1)" and g: "get_item (storageKey wallet) b1 = (Inr (Some backup), b')
      \<or> get_item (storageKey wallet) b1 = (Inr None, b') \<and> backup = []"
    using assms(4) by (auto simp: exportPrivatePositionVault_def io_bind_def assms(2) io_return_def
        split: prod.splits sum.splits option.splits)
  obtain iv where "backup = vault_text E wallet ps key iv"
    using encryptVault_InrD [OF e] g by (auto simp: get_item_def)
  then obtain vault where v: "json_parse backup = Inr (vault_json vault)" "ev_wallet vault = wallet"
    "decryptVault E vault key = Inr (dedupe ps)"
    using vault_text_opens [OF assms(1) st(1)] by blast
  have r: "result = dedupe (dedupe ps @ qs)" and w: "\<exists>u. encryptVault E wallet (dedupe (dedupe ps @ qs)) key c = (Inr u, c')"
    using assms(7) by (auto simp: importPrivatePositionVault_def v io_bind_def io_lift_def assms(5) Let_def io_return_def
        split: prod.splits sum.splits)
  have s: "storable wallet (dedupe ps @ qs)" using st storable_dedupe [of wallet ps] by (auto simp: storable_def)
  from w obtain u where "encryptVault E wallet (dedupe (dedupe ps @ qs)) key c = (Inr u, c')" by blast
  from load_after_write [OF assms(1) storable_dedupe [OF s] this]
  have "loadPrivatePositions E wallet key c' = (Inr (dedupe (dedupe (dedupe ps @ qs))), c')" .
  then show ?thesis
    using r dedupe_facts(2,3) [of "dedupe ps @ qs"] dedupe_facts(2) [of ps] dedupe_again [of "dedupe ps @ qs"]
    by (simp add: image_Un)
qed

text \<open>
  Claim C37. Unlocking the vault of one wallet loses the positions other wallets of the browser still
  have in clear: when it migrates positions, or finds no vault, it keeps what belongs to its wallet and
  removes the whole legacy entry, so that another wallet finds no legacy positions and a vault that is
  as it was.
\<close>

theorem unlocking_drops_other_wallets:
  assumes "unlockPrivatePositions E wallet signMessage b = (Inr (key, positions, migrated), b')"
    and "fst (readVault wallet b) = Inr None \<or> migrated \<noteq> 0"
  shows "map_get (br_storage b') LEGACY_STORAGE_KEY = None
    \<and> (\<forall>other. fst (readLegacyPositions other b') = Inr [])
    \<and> (\<forall>other. other \<noteq> wallet \<longrightarrow> fst (readVault other b') = fst (readVault other b))"
proof -
  obtain s x where b1: "in_rest (signMessage (utf8 (vaultMessage wallet))) b = (Inr s, b\<lparr>br_rest := x\<rparr>)"
    using assms(1) by (auto simp: unlockPrivatePositions_def io_bind_def in_rest_def split: prod.splits sum.splits)
  let ?b = "b\<lparr>br_rest := x\<rparr>" and ?k = "deriveVaultKey E wallet s"
  obtain v where v: "readVault wallet ?b = (Inr v, ?b)" using readVault_state by blast
  obtain legacy where l: "readLegacyPositions wallet ?b = (Inr legacy, ?b)" using readLegacyPositions_state by blast
  have same: "fst (readVault other ?b) = fst (readVault other b)" for other
    by (simp add: readVault_def split: sum.split)
  have u: "\<exists>ps b2. encryptVault E wallet ps ?k ?b = (Inr (), b2) \<and> remove_item LEGACY_STORAGE_KEY b2 = (Inr (), b')"
  proof -
    have "legacy \<noteq> [] \<or> v = None"
      using assms same [of wallet] v
      by (auto simp: unlockPrivatePositions_def io_bind_def b1 v l Let_def io_return_def io_lift_def
          split: prod.splits sum.splits option.splits if_splits)
    with assms(1) show ?thesis
      apply (auto simp: unlockPrivatePositions_def io_bind_def b1 v l Let_def io_return_def io_lift_def
          split: prod.splits sum.splits option.splits if_splits)
      apply blast
      done
  qed
  then obtain ps b2 where e: "encryptVault E wallet ps ?k ?b = (Inr (), b2)" and r: "remove_item LEGACY_STORAGE_KEY b2 = (Inr (), b')"
    by blast
  obtain iv where w: "br_window b2" "br_window b"
    "br_storage b2 = map_put (br_storage b) (storageKey wallet) (vault_text E wallet ps ?k iv)"
    using encryptVault_InrD [OF e] by auto
  from r w have st: "br_window b'" "br_storage b' = map_delete (br_storage b2) LEGACY_STORAGE_KEY"
    by (auto simp: remove_item_def)
  have get: "map_get (br_storage b') (storageKey other) = map_get (br_storage b) (storageKey other)" if "other \<noteq> wallet" for other
    using that by (simp add: st w key_differs)
  have none: "map_get (br_storage b') LEGACY_STORAGE_KEY = None" by (simp add: st)
  have "json_parse ''[]'' = Inr (JArray [])"
    using json_round_trip [of "JArray []"] by simp
  with none have "fst (readLegacyPositions other b') = Inr []" for other
    by (simp add: readLegacyPositions_def st(1) parsePositions_def List.map_filter_simps)
  moreover have "fst (readVault other b') = fst (readVault other b)" if "other \<noteq> wallet" for other
    using get [OF that] by (simp add: readVault_def w st(1) split: sum.split)
  ultimately show ?thesis using none by blast
qed

subsection \<open>Witnesses\<close>

text \<open>A cipher that returns the text it is given, a generator of zeros, and a position.\<close>

definition plain_env :: "unit vault_env" where
  "plain_env = \<lparr>ve_crypto = \<lparr>wc_random = (\<lambda>n x. (Inr (replicate n 0), x)),
     wc_rsa_encrypt = (\<lambda>k m x. (Inr m, x)), wc_rsa_decrypt = (\<lambda>k c. Inr c),
     wc_aes_encrypt = (\<lambda>k iv a p. p), wc_aes_decrypt = (\<lambda>k iv a c. Inr c)\<rparr>, ve_sha256 = (\<lambda>m. m)\<rparr>"

definition a_position :: "string \<Rightarrow> string \<Rightarrow> json" where
  "a_position owner commitment = JObject [(''version'', JNumber (JInt 1)), (''owner'', JString owner),
     (''marketId'', JString ''1''), (''question'', JString ''Home win?''), (''side'', JString ''yes''),
     (''amount'', JString ''1000000''), (''stakeAmount'', JString ''1000000''),
     (''commitment'', JString commitment), (''secret'', JString ''7''), (''nullifier'', JString ''9'')]"

definition a_browser :: "(string, string) jsmap \<Rightarrow> unit browser" where
  "a_browser entries = \<lparr>br_window = True, br_storage = entries, br_rest = ()\<rparr>"

lemma plain_env_opens: "aes_opens plain_env" by (simp add: aes_opens_def plain_env_def)

lemma a_position_ok: "plain (a_position owner c)" "position_of owner (a_position owner c)"
  "commitment_of (a_position owner c) = c"
proof -
  show "plain (a_position owner c)" by (simp add: a_position_def map_ok_def)
  show "commitment_of (a_position owner c) = c" by (simp add: a_position_def commitment_of_def text_of_field_def map_get_def)
  have d: "digits_syntax ''1000000''" by code_simp
  show "position_of owner (a_position owner c)"
    unfolding position_of_def normalizePosition_def Let_def
    by (simp add: a_position_def object_like_def map_get_def map_put_def d)
qed

lemma empty_vault: "map_get entries (storageKey w) = None \<Longrightarrow> loadPrivatePositions E w key (a_browser entries) = (Inr [], a_browser entries)"
proof -
  have "json_parse ''null'' = Inr JNull" using json_round_trip [of JNull] by simp
  then show "map_get entries (storageKey w) = None \<Longrightarrow> loadPrivatePositions E w key (a_browser entries) = (Inr [], a_browser entries)"
    by (simp add: loadPrivatePositions_def readVault_def a_browser_def io_bind_def parseVault_def object_like_def io_return_def)
qed

lemma encrypt_runs: "\<exists>b. encryptVault plain_env w ps key (a_browser entries) = (Inr (), a_browser b)"
  by (simp add: encryptVault_def io_bind_def in_rest_def plain_env_def a_browser_def Let_def set_item_def)

lemma a_position_owner: "text_of_field (a_position owner c) ''owner'' = owner"
  by (simp add: a_position_def text_of_field_def map_get_def)

lemma saved_position_is_loaded_witness:
  "\<exists>b' :: unit browser. loadPrivatePositions plain_env ''A'' [1] b' = (Inr [a_position ''A'' ''5''], b')"
proof -
  have l: "loadPrivatePositions plain_env ''A'' [1] (a_browser []) = (Inr [], a_browser [])" by (rule empty_vault) simp
  obtain b' where e: "encryptVault plain_env ''A'' [a_position ''A'' ''5''] [1] (a_browser []) = (Inr (), a_browser b')"
    using encrypt_runs by blast
  have "savePrivatePosition plain_env (a_position ''A'' ''5'') [1] (a_browser []) = (Inr (), a_browser b')"
    unfolding savePrivatePosition_def a_position_owner Let_def io_bind_def l by (simp add: e)
  from saved_position_is_loaded [OF plain_env_opens a_position_ok(1,2) l _ this]
  show ?thesis by (auto simp: dedupe_def map_values_def)
qed

lemma backup_restores_positions_witness:
  "\<exists>backup (b' :: unit browser) c'. exportPrivatePositionVault plain_env ''A'' [1] (a_browser []) = (Inr backup, b')
     \<and> importPrivatePositionVault plain_env ''A'' [1] backup (a_browser []) = (Inr [], c')
     \<and> loadPrivatePositions plain_env ''A'' [1] c' = (Inr [], c')"
proof -
  have l: "loadPrivatePositions plain_env ''A'' [1] (a_browser []) = (Inr [], a_browser [])" by (rule empty_vault) simp
  obtain m where e: "encryptVault plain_env ''A'' [] [1] (a_browser []) = (Inr (), a_browser m)"
    using encrypt_runs by blast
  obtain iv where m: "map_get m (storageKey ''A'') = Some (vault_text plain_env ''A'' [] [1] iv)"
    using encryptVault_InrD [OF e] by (auto simp: a_browser_def)
  let ?t = "vault_text plain_env ''A'' [] [1] iv"
  have x: "exportPrivatePositionVault plain_env ''A'' [1] (a_browser []) = (Inr ?t, a_browser m)"
    by (simp add: exportPrivatePositionVault_def io_bind_def l e get_item_def io_return_def)
      (simp add: a_browser_def m)
  have "storable ''A'' []" by (simp add: storable_def)
  then obtain vault where v: "json_parse ?t = Inr (vault_json vault)" "ev_wallet vault = ''A''"
    "decryptVault plain_env vault [1] = Inr (dedupe [])"
    using vault_text_opens [OF plain_env_opens] by blast
  have d: "dedupe [] = []" by (simp add: dedupe_def map_values_def)
  have i: "importPrivatePositionVault plain_env ''A'' [1] ?t (a_browser []) = (Inr [], a_browser m)"
    by (simp add: importPrivatePositionVault_def v io_bind_def io_lift_def l d e Let_def io_return_def)
  from backup_restores_positions [OF plain_env_opens l _ x l _ i] x i show ?thesis by auto
qed

text \<open>The browser of two wallets that both have a position stored in clear.\<close>

definition two_wallets :: "unit browser" where
  "two_wallets = a_browser [(LEGACY_STORAGE_KEY, stringify (JArray [a_position ''A'' ''5'', a_position ''B'' ''6'']))]"

lemma two_wallets_legacy:
  "readLegacyPositions ''A'' two_wallets = (Inr [a_position ''A'' ''5''], two_wallets)"
  "readLegacyPositions ''B'' two_wallets = (Inr [a_position ''B'' ''6''], two_wallets)"
proof -
  have "plain (JArray [a_position ''A'' ''5'', a_position ''B'' ''6''])" using a_position_ok(1) by simp
  then have j: "json_parse (stringify (JArray [a_position ''A'' ''5'', a_position ''B'' ''6'']))
      = Inr (JArray [a_position ''A'' ''5'', a_position ''B'' ''6''])" by (rule json_round_trip)
  have o: "normalizePosition (a_position w c) v = None" if "w \<noteq> v" for w v c
    using that unfolding normalizePosition_def Let_def by (simp add: a_position_def object_like_def map_get_def)
  have own: "normalizePosition (a_position w c) w = Some (a_position w c)" for w c
    using a_position_ok(2) by (simp add: position_of_def)
  show "readLegacyPositions ''A'' two_wallets = (Inr [a_position ''A'' ''5''], two_wallets)"
    "readLegacyPositions ''B'' two_wallets = (Inr [a_position ''B'' ''6''], two_wallets)"
    unfolding readLegacyPositions_def two_wallets_def a_browser_def
    by (simp_all add: map_get_def j parsePositions_def List.map_filter_simps o own del: stringify.simps)
qed

lemma unlocking_drops_other_wallets_witness:
  "fst (readLegacyPositions ''B'' two_wallets) = Inr [a_position ''B'' ''6'']
   \<and> fst (readLegacyPositions ''B'' (snd (unlockPrivatePositions plain_env ''A'' (\<lambda>m x. (Inr [1], x)) two_wallets))) = Inr []"
proof -
  have s: "in_rest (\<lambda>x. (Inr [1 :: byte], x)) two_wallets = (Inr [1], two_wallets)"
    by (simp add: in_rest_def two_wallets_def a_browser_def)
  have "json_parse ''null'' = Inr JNull" using json_round_trip [of JNull] by simp
  then have v: "readVault ''A'' two_wallets = (Inr None, two_wallets)"
    using key_differs [of "''A''"]
    by (simp add: readVault_def two_wallets_def a_browser_def map_get_def parseVault_def object_like_def del: stringify.simps)
  obtain m where e: "encryptVault plain_env ''A'' (dedupe [a_position ''A'' ''5'']) (deriveVaultKey plain_env ''A'' [1]) two_wallets = (Inr (), a_browser m)"
    unfolding two_wallets_def using encrypt_runs by blast
  have "\<exists>key ps n b'. unlockPrivatePositions plain_env ''A'' (\<lambda>m x. (Inr [1], x)) two_wallets = (Inr (key, ps, n), b')"
    by (simp add: unlockPrivatePositions_def io_bind_def s v two_wallets_legacy(1) Let_def io_return_def e)
      (simp add: remove_item_def a_browser_def)
  then obtain key ps n b' where u: "unlockPrivatePositions plain_env ''A'' (\<lambda>m x. (Inr [1], x)) two_wallets = (Inr (key, ps, n), b')"
    by blast
  have "fst (readLegacyPositions ''B'' b') = Inr []"
    using unlocking_drops_other_wallets [OF u] v by simp
  then show ?thesis by (simp add: u two_wallets_legacy(2))
qed

end
