(* ===== verification/Indexer.thy ===== *)
theory Indexer
  imports LmsrSolvency Keeper EffectLogic
begin

text \<open>
  The indexer: the snapshot of a market and of its accounts (\<open>services/src/indexer/snapshot.ts\<close>),
  and the pass that reads all accounts and writes the index (\<open>services/src/indexer/runner.ts\<close>).

  Accounts arrive decoded by the Anchor client: an enumeration is an object with one key and a large
  integer anything with a \<open>toString\<close>.  Keys that objects inherit are no variants of the program.  The
  node, the hash, the clock and the files are parameters of \<open>index_env\<close>.
\<close>

section \<open>Accounts\<close>

text \<open>
  A number prints its digits below \<open>1e21\<close>; the text of any other number is not that of an integer, and
  \<open>NaN\<close> stands for it.
\<close>

datatype IntegerLike = Number_like jsnum | Bigint_like int | Object_like string

fun like_string :: "IntegerLike \<Rightarrow> string" where
  "like_string (Number_like (JInt i)) = (if \<bar>i\<bar> < 10 ^ 21 then int_str i else ''NaN'')"
| "like_string (Number_like JNonInt) = ''NaN''"
| "like_string (Bigint_like i) = int_str i"
| "like_string (Object_like s) = s"

type_synonym EnumLike = "(string \<times> json) list"

record HybridMarketAccount =
  hm_version :: jsnum
  hm_marketId :: IntegerLike
  hm_creator :: pubkey
  hm_liquidityOwner :: pubkey
  hm_category :: EnumLike
  hm_tradingMode :: EnumLike
  hm_pricingModel :: EnumLike
  hm_questionHash :: "int list"
  hm_rulesHash :: "int list"
  hm_outcomeLabelsHash :: "int list"
  hm_collateralMint :: pubkey
  hm_tokenProgram :: pubkey
  hm_treasuryOwner :: pubkey
  hm_oracleConfig :: pubkey
  hm_liquidityParameter :: IntegerLike
  hm_initialSubsidy :: IntegerLike
  hm_roundingReserve :: IntegerLike
  hm_maxTradeShares :: IntegerLike
  hm_resolverSecurityCap :: IntegerLike
  hm_yesQuantity :: IntegerLike
  hm_noQuantity :: IntegerLike
  hm_tradeFeeBps :: jsnum
  hm_treasuryFeeShareBps :: jsnum
  hm_openTs :: IntegerLike
  hm_lockTs :: IntegerLike
  hm_resolveNotBeforeTs :: IntegerLike
  hm_resolutionDeadlineTs :: IntegerLike
  hm_phase :: EnumLike
  hm_outcome :: jsnum
  hm_tradeCount :: IntegerLike
  hm_volume :: IntegerLike
  hm_treasuryFees :: IntegerLike
  hm_liquidityFees :: IntegerLike
  hm_outstandingLiability :: IntegerLike
  hm_redeemedLiability :: IntegerLike
  hm_settledAt :: IntegerLike
  hm_settlementEvidenceHash :: "int list"

record OracleAccount =
  oa_version :: jsnum
  oa_market :: pubkey
  oa_resolver :: EnumLike
  oa_sourceProgram :: pubkey
  oa_sourceQueue :: pubkey
  oa_sourceId :: "int list"
  oa_comparator :: EnumLike
  oa_threshold :: IntegerLike
  oa_thresholdExponent :: jsnum
  oa_observationTs :: IntegerLike
  oa_observationWindowSecs :: jsnum
  oa_maxStalenessSecs :: jsnum
  oa_maxStalenessSlots :: IntegerLike
  oa_maxConfidenceBps :: jsnum
  oa_minSamples :: jsnum
  oa_challengePeriodSecs :: jsnum
  oa_bondAmount :: IntegerLike
  oa_configHash :: "int list"
  oa_optimisticProposal :: pubkey
  oa_consumed :: bool

record ResolutionReceiptAccount =
  rc_version :: jsnum
  rc_market :: pubkey
  rc_resolver :: EnumLike
  rc_outcome :: jsnum
  rc_observationValue :: IntegerLike
  rc_observationExponent :: jsnum
  rc_observationTs :: IntegerLike
  rc_observationSlot :: IntegerLike
  rc_confidence :: IntegerLike
  rc_sampleCount :: jsnum
  rc_sourceQueue :: pubkey
  rc_sourceId :: "int list"
  rc_sourceAccount :: pubkey
  rc_evidenceHash :: "int list"
  rc_finalizedAt :: IntegerLike

record HybridMetadataAccount =
  md_version :: jsnum
  md_market :: pubkey
  md_creator :: pubkey
  md_question :: string
  md_rules :: string
  md_yesLabel :: string
  md_noLabel :: string
  md_referenceUrl :: string
  md_publishedAt :: IntegerLike

section \<open>Values of a snapshot\<close>

text \<open>\<open>/^-?\d+$/\<close>.\<close>

definition integer_syntax :: "string \<Rightarrow> bool" where
  "integer_syntax s \<longleftrightarrow> all_digits 10 (case s of c # r \<Rightarrow> if c = CHR ''-'' then r else s | [] \<Rightarrow> [])"

definition integerString :: "IntegerLike \<Rightarrow> string \<Rightarrow> string res" where
  "integerString v label =
     (let encoded = like_string v in
      if \<not> integer_syntax encoded then Inl (Error (label @ '' is not an integer'')) else Inr encoded)"

definition safeInteger :: "IntegerLike \<Rightarrow> string \<Rightarrow> int res" where
  "safeInteger v label =
     rbind (integerString v label) (\<lambda>encoded.
     rbind (js_BigInt encoded) (\<lambda>parsed.
       if \<bar>parsed\<bar> > MAX_SAFE_INTEGER then Inl (Error (label @ '' exceeds the safe integer range'')) else Inr parsed))"

definition bytes32 :: "int list \<Rightarrow> string \<Rightarrow> string res" where
  "bytes32 v label =
     (let bytes = map word_of_int v in
      if length bytes \<noteq> 32 then Inl (Error (label @ '' must contain exactly 32 bytes'')) else Inr (bytes_hex bytes))"

definition enumName :: "EnumLike \<Rightarrow> (string \<times> string) list \<Rightarrow> string \<Rightarrow> string res" where
  "enumName v names label =
     (case Option.bind (first_key v) (map_of names) of
        None \<Rightarrow> Inl (Error (''Unknown '' @ label))
      | Some name \<Rightarrow> Inr name)"

definition outcomeName :: "jsnum \<Rightarrow> string res" where
  "outcomeName v =
     (case v of
        JInt i \<Rightarrow>
          if 0 \<le> i \<and> i < 4 then Inr ([''no'', ''yes'', ''invalid'', ''unset''] ! nat i)
          else Inl (Error ''Unknown hybrid market outcome'')
      | JNonInt \<Rightarrow> Inl (Error ''Unknown hybrid market outcome''))"

definition comparatorName :: "EnumLike \<Rightarrow> string res" where
  "comparatorName v =
     enumName v
       [(''greaterThan'', ''greater-than''), (''greaterThanOrEqual'', ''greater-than-or-equal''),
        (''lessThan'', ''less-than''), (''lessThanOrEqual'', ''less-than-or-equal''), (''equal'', ''equal'')]
       ''value comparator''"

fun phase_text :: "HybridPhase \<Rightarrow> string" where
  "phase_text Phase_open = ''open''"
| "phase_text Phase_locked = ''locked''"
| "phase_text Phase_resolving = ''resolving''"
| "phase_text Phase_disputed = ''disputed''"
| "phase_text Phase_resolved = ''resolved''"
| "phase_text Phase_closed = ''closed''"

fun private_phase_text :: "MarketPhaseName \<Rightarrow> string" where
  "private_phase_text Market_open = ''open''"
| "private_phase_text Market_batched = ''batched''"
| "private_phase_text Market_resolved = ''resolved''"
| "private_phase_text Market_refunding = ''refunding''"
| "private_phase_text Market_closed = ''closed''"

text \<open>An object literal: the values are computed in order and the first error ends it.\<close>

fun object_literal :: "(string \<times> json res) list \<Rightarrow> (string \<times> json) list res" where
  "object_literal [] = Inr []"
| "object_literal ((k, r) # rest) =
     rbind r (\<lambda>v. rbind (object_literal rest) (\<lambda>kvs. Inr ((k, v) # kvs)))"

definition object_of :: "(string \<times> json res) list \<Rightarrow> json res" where
  "object_of kvs = rbind (object_literal kvs) (\<lambda>kvs. Inr (JObject kvs))"

definition text_res :: "string res \<Rightarrow> json res" where
  "text_res r = rbind r (\<lambda>s. Inr (JString s))"

section \<open>Snapshots\<close>

text \<open>A row of an account listing is the address and the account.\<close>

record PrivateRow =
  pr_authority :: pubkey
  pr_marketId :: int
  pr_category :: EnumLike
  pr_resolverKind :: EnumLike
  pr_questionHash :: "int list"
  pr_rulesHash :: "int list"
  pr_fixtureId :: int
  pr_fixtureStartTs :: int
  pr_lockTs :: int
  pr_batchDeadlineTs :: int
  pr_resolutionDeadlineTs :: int
  pr_stakeAmount :: int
  pr_phase :: EnumLike
  pr_orderCount :: int
  pr_yesCount :: int
  pr_noCount :: int
  pr_yesAmount :: int
  pr_noAmount :: int
  pr_outcome :: int
  pr_grossPool :: int
  pr_protocolFee :: int
  pr_keeperReward :: int
  pr_treasuryFee :: int
  pr_netPool :: int
  pr_claimedCount :: int
  pr_settlementEvidenceHash :: "int list"

record 'x index_env =
  ix_toBase58 :: "pubkey \<Rightarrow> string"
  ix_sha256 :: "byte list \<Rightarrow> byte list"
  ix_derive :: derivation
  ix_program :: pubkey
  ix_privateRows :: "('x, (pubkey \<times> PrivateRow) list) outside"
  ix_publicRows :: "('x, (pubkey \<times> HybridMarketAccount) list) outside"
  ix_oracleRows :: "('x, (pubkey \<times> OracleAccount) list) outside"
  ix_receiptRows :: "('x, ResolutionReceiptAccount list) outside"
  ix_metadataRows :: "('x, HybridMetadataAccount list) outside"
  ix_positionMarkets :: "('x, pubkey list) outside"
  ix_accounts :: "pubkey list \<Rightarrow> ('x, byte list option list) outside"
  ix_span :: nat
  ix_decodeAmount :: "byte list \<Rightarrow> int"
  ix_clockMs :: "('x, int) outside"
  ix_isoTime :: "('x, string) outside"
  ix_outputPath :: string
  ix_dirname :: "string \<Rightarrow> string"
  ix_mkdir :: "string \<Rightarrow> ('x, unit) outside"
  ix_writeFile :: "string \<Rightarrow> string \<Rightarrow> ('x, unit) outside"
  ix_rename :: "string \<Rightarrow> string \<Rightarrow> ('x, unit) outside"
  ix_once :: bool

definition jkey :: "'x index_env \<Rightarrow> pubkey \<Rightarrow> json res" where
  "jkey E k = Inr (JString (ix_toBase58 E k))"

definition jint :: "IntegerLike \<Rightarrow> string \<Rightarrow> json res" where
  "jint v label = text_res (integerString v label)"

definition jbytes :: "int list \<Rightarrow> string \<Rightarrow> json res" where
  "jbytes v label = text_res (bytes32 v label)"

definition jnum :: "jsnum \<Rightarrow> json res" where
  "jnum n = Inr (JNumber n)"

definition buildMetadataSnapshot ::
    "'x index_env \<Rightarrow> HybridMetadataAccount \<Rightarrow> HybridMarketAccount \<Rightarrow> pubkey \<Rightarrow> json res" where
  "buildMetadataSnapshot E metadata market address =
     (if md_market metadata \<noteq> address \<or> md_creator metadata \<noteq> hm_creator market
      then Inl (Error ''Hybrid metadata belongs to a different market or creator'')
      else
        let digest = (\<lambda>text. bytes_hex (ix_sha256 E (utf8 text)));
            mismatch = Inl (Error ''Hybrid metadata hashes do not match immutable market state'')
        in
        rbind (bytes32 (hm_questionHash market) ''question hash'') (\<lambda>questionHash.
        if digest (md_question metadata) \<noteq> questionHash then mismatch
        else
        rbind (bytes32 (hm_rulesHash market) ''rules hash'') (\<lambda>rulesHash.
        if digest (md_rules metadata) \<noteq> rulesHash then mismatch
        else
        rbind (bytes32 (hm_outcomeLabelsHash market) ''outcome labels hash'') (\<lambda>labelsHash.
        if digest (md_yesLabel metadata @ [LF] @ md_noLabel metadata) \<noteq> labelsHash then mismatch
        else object_of
          [(''version'', jnum (md_version metadata)), (''market'', jkey E (md_market metadata)),
           (''creator'', jkey E (md_creator metadata)), (''question'', Inr (JString (md_question metadata))),
           (''rules'', Inr (JString (md_rules metadata))), (''yesLabel'', Inr (JString (md_yesLabel metadata))),
           (''noLabel'', Inr (JString (md_noLabel metadata))),
           (''referenceUrl'', Inr (if md_referenceUrl metadata = [] then JNull else JString (md_referenceUrl metadata))),
           (''publishedAt'', jint (md_publishedAt metadata) ''metadata publication timestamp'')]))))"

definition resolver_json :: "EnumLike \<Rightarrow> json res" where
  "resolver_json v = rbind (oracleResolverName v) (\<lambda>r. Inr (JString (resolver_name r)))"

definition buildResolutionReceiptSnapshot :: "'x index_env \<Rightarrow> ResolutionReceiptAccount \<Rightarrow> json res" where
  "buildResolutionReceiptSnapshot E receipt =
     object_of
       [(''version'', jnum (rc_version receipt)), (''market'', jkey E (rc_market receipt)),
        (''resolver'', resolver_json (rc_resolver receipt)), (''outcome'', text_res (outcomeName (rc_outcome receipt))),
        (''observationValue'', jint (rc_observationValue receipt) ''observation value''),
        (''observationExponent'', jnum (rc_observationExponent receipt)),
        (''observationTs'', jint (rc_observationTs receipt) ''observation timestamp''),
        (''observationSlot'', jint (rc_observationSlot receipt) ''observation slot''),
        (''confidence'', jint (rc_confidence receipt) ''observation confidence''),
        (''sampleCount'', jnum (rc_sampleCount receipt)), (''sourceQueue'', jkey E (rc_sourceQueue receipt)),
        (''sourceId'', jbytes (rc_sourceId receipt) ''receipt source ID''),
        (''sourceAccount'', jkey E (rc_sourceAccount receipt)),
        (''evidenceHash'', jbytes (rc_evidenceHash receipt) ''receipt evidence hash''),
        (''finalizedAt'', jint (rc_finalizedAt receipt) ''receipt finalization timestamp'')]"

record SnapshotInput =
  si_address :: pubkey
  si_vault :: pubkey
  si_vaultBalance :: "int option"
  si_market :: HybridMarketAccount
  si_oracle :: OracleAccount
  si_receipt :: "ResolutionReceiptAccount option"
  si_metadata :: "HybridMetadataAccount option"
  si_traderCount :: int
  si_now :: int

definition oracle_json :: "'x index_env \<Rightarrow> OracleAccount \<Rightarrow> HybridResolver \<Rightarrow> json res" where
  "oracle_json E oracle resolver =
     object_of
       [(''version'', jnum (oa_version oracle)), (''resolver'', Inr (JString (resolver_name resolver))),
        (''sourceProgram'', jkey E (oa_sourceProgram oracle)), (''sourceQueue'', jkey E (oa_sourceQueue oracle)),
        (''sourceId'', jbytes (oa_sourceId oracle) ''oracle source ID''),
        (''comparator'', text_res (comparatorName (oa_comparator oracle))),
        (''threshold'', jint (oa_threshold oracle) ''oracle threshold''),
        (''thresholdExponent'', jnum (oa_thresholdExponent oracle)),
        (''observationTs'', jint (oa_observationTs oracle) ''oracle observation timestamp''),
        (''observationWindowSecs'', jnum (oa_observationWindowSecs oracle)),
        (''maxStalenessSecs'', jnum (oa_maxStalenessSecs oracle)),
        (''maxStalenessSlots'', jint (oa_maxStalenessSlots oracle) ''oracle maximum staleness slots''),
        (''maxConfidenceBps'', jnum (oa_maxConfidenceBps oracle)), (''minSamples'', jnum (oa_minSamples oracle)),
        (''challengePeriodSecs'', jnum (oa_challengePeriodSecs oracle)),
        (''bondAmount'', jint (oa_bondAmount oracle) ''optimistic bond amount''),
        (''configHash'', jbytes (oa_configHash oracle) ''oracle config hash''),
        (''optimisticProposal'', jkey E (oa_optimisticProposal oracle)), (''consumed'', Inr (JBool (oa_consumed oracle)))]"

definition market_categories :: "(string \<times> string) list" where
  "market_categories =
     [(''sports'', ''sports''), (''crypto'', ''crypto''), (''politics'', ''politics''), (''technology'', ''technology''),
      (''culture'', ''culture''), (''other'', ''other''), (''economics'', ''economics''), (''science'', ''science'')]"

text \<open>The fields of the object, over the values computed first.\<close>

definition market_fields ::
    "'x index_env \<Rightarrow> SnapshotInput \<Rightarrow> int \<Rightarrow> int \<Rightarrow> int \<Rightarrow> HybridPhase \<Rightarrow> int \<Rightarrow> HybridResolver \<Rightarrow> (string \<times> json res) list" where
  "market_fields E input liquidityParameter yesQuantity noQuantity phase lockTs resolver =
     (let market = si_market input; oracle = si_oracle input in
          [(''version'', jnum (hm_version market)), (''address'', jkey E (si_address input)),
           (''marketId'', jint (hm_marketId market) ''market ID''), (''creator'', jkey E (hm_creator market)),
           (''liquidityOwner'', jkey E (hm_liquidityOwner market)),
           (''category'', text_res (enumName (hm_category market) market_categories ''market category'')),
           (''tradingMode'', text_res (enumName (hm_tradingMode market)
             [(''continuous'', ''continuous''), (''privateBatch'', ''private-batch'')] ''hybrid trading mode'')),
           (''pricingModel'', text_res (enumName (hm_pricingModel market) [(''lmsr'', ''lmsr'')] ''pricing model'')),
           (''questionHash'', jbytes (hm_questionHash market) ''question hash''),
           (''rulesHash'', jbytes (hm_rulesHash market) ''rules hash''),
           (''outcomeLabelsHash'', jbytes (hm_outcomeLabelsHash market) ''outcome labels hash''),
           (''collateralMint'', jkey E (hm_collateralMint market)), (''tokenProgram'', jkey E (hm_tokenProgram market)),
           (''treasuryOwner'', jkey E (hm_treasuryOwner market)),
           (''oracleConfigAddress'', jkey E (hm_oracleConfig market)), (''vault'', jkey E (si_vault input)),
           (''vaultBalance'', Inr (case si_vaultBalance input of None \<Rightarrow> JNull | Some b \<Rightarrow> JString (int_str b))),
           (''liquidityParameter'', Inr (JString (int_str liquidityParameter))),
           (''initialSubsidy'', jint (hm_initialSubsidy market) ''initial subsidy''),
           (''roundingReserve'', jint (hm_roundingReserve market) ''rounding reserve''),
           (''maxTradeShares'', jint (hm_maxTradeShares market) ''maximum trade shares''),
           (''resolverSecurityCap'', jint (hm_resolverSecurityCap market) ''resolver security cap''),
           (''yesQuantity'', Inr (JString (int_str yesQuantity))), (''noQuantity'', Inr (JString (int_str noQuantity))),
           (''yesProbabilityPpm'', rbind (lmsrYesProbability \<lparr>qyes = yesQuantity, qno = noQuantity\<rparr> liquidityParameter)
             (\<lambda>p. Inr (JNumber (JInt p)))),
           (''tradeFeeBps'', jnum (hm_tradeFeeBps market)), (''treasuryFeeShareBps'', jnum (hm_treasuryFeeShareBps market)),
           (''openTs'', jint (hm_openTs market) ''open timestamp''), (''lockTs'', Inr (JString (int_str lockTs))),
           (''resolveNotBeforeTs'', jint (hm_resolveNotBeforeTs market) ''resolution start timestamp''),
           (''resolutionDeadlineTs'', jint (hm_resolutionDeadlineTs market) ''resolution deadline''),
           (''phase'', Inr (JString (phase_text phase))),
           (''tradingOpen'', Inr (JBool (phase = Phase_open \<and> si_now input < lockTs))),
           (''outcome'', text_res (outcomeName (hm_outcome market))),
           (''tradeCount'', jint (hm_tradeCount market) ''trade count''),
           (''traderCount'', Inr (JNumber (JInt (si_traderCount input)))), (''volume'', jint (hm_volume market) ''volume''),
           (''treasuryFees'', jint (hm_treasuryFees market) ''treasury fees''),
           (''liquidityFees'', jint (hm_liquidityFees market) ''liquidity fees''),
           (''outstandingLiability'', jint (hm_outstandingLiability market) ''outstanding liability''),
           (''redeemedLiability'', jint (hm_redeemedLiability market) ''redeemed liability''),
           (''settledAt'', jint (hm_settledAt market) ''settlement timestamp''),
           (''settlementEvidenceHash'', jbytes (hm_settlementEvidenceHash market) ''market settlement evidence hash''),
           (''resolver'', Inr (JString (resolver_name resolver))), (''oracle'', oracle_json E oracle resolver),
           (''receipt'', case si_receipt input of None \<Rightarrow> Inr JNull | Some receipt \<Rightarrow> buildResolutionReceiptSnapshot E receipt),
           (''metadata'', case si_metadata input of None \<Rightarrow> Inr JNull
             | Some metadata \<Rightarrow> buildMetadataSnapshot E metadata market (si_address input))])"

definition buildHybridMarketSnapshot :: "'x index_env \<Rightarrow> SnapshotInput \<Rightarrow> json res" where
  "buildHybridMarketSnapshot E input =
     (let market = si_market input; oracle = si_oracle input in
      if oa_market oracle \<noteq> si_address input
      then Inl (Error ''Oracle config belongs to a different hybrid market'')
      else if (case si_receipt input of None \<Rightarrow> False | Some receipt \<Rightarrow> rc_market receipt \<noteq> si_address input)
      then Inl (Error ''Resolution receipt belongs to a different hybrid market'')
      else
      rbind (rbind (integerString (hm_liquidityParameter market) ''liquidity parameter'') js_BigInt) (\<lambda>liquidityParameter.
      rbind (rbind (integerString (hm_yesQuantity market) ''YES quantity'') js_BigInt) (\<lambda>yesQuantity.
      rbind (rbind (integerString (hm_noQuantity market) ''NO quantity'') js_BigInt) (\<lambda>noQuantity.
      rbind (hybridPhaseName (hm_phase market)) (\<lambda>phase.
      rbind (safeInteger (hm_lockTs market) ''lock timestamp'') (\<lambda>lockTs.
      rbind (oracleResolverName (oa_resolver oracle)) (\<lambda>resolver.
        object_of (market_fields E input liquidityParameter yesQuantity noQuantity phase lockTs resolver))))))))"

section \<open>The pass\<close>

text \<open>\<open>JSON.stringify(value, null, 2)\<close>.\<close>

fun pretty :: "nat \<Rightarrow> json \<Rightarrow> string"
  and pretty_items :: "nat \<Rightarrow> json list \<Rightarrow> string"
  and pretty_entries :: "nat \<Rightarrow> (string \<times> json) list \<Rightarrow> string" where
  "pretty n (JArray []) = ''[]''"
| "pretty n (JArray (x # xs)) =
     ''['' @ LF # pretty_items (n + 2) (x # xs) @ LF # replicate n CHR '' '' @ '']''"
| "pretty n (JObject []) = [CHR 0x7B, CHR 0x7D]"
| "pretty n (JObject (e # kvs)) =
     CHR 0x7B # LF # pretty_entries (n + 2) (e # kvs) @ LF # replicate n CHR '' '' @ [CHR 0x7D]"
| "pretty n v = stringify v"
| "pretty_items n [] = []"
| "pretty_items n [x] = replicate n CHR '' '' @ pretty n x"
| "pretty_items n (x # y # xs) = replicate n CHR '' '' @ pretty n x @ CHR '','' # LF # pretty_items n (y # xs)"
| "pretty_entries n [] = []"
| "pretty_entries n [(k, v)] = replicate n CHR '' '' @ json_quote k @ '': '' @ pretty n v"
| "pretty_entries n ((k, v) # e # kvs) =
     replicate n CHR '' '' @ json_quote k @ '': '' @ pretty n v @ CHR '','' # LF # pretty_entries n (e # kvs)"

text \<open>The token balances of the vaults, read a hundred accounts at a time.\<close>

definition vaultAmount :: "'x index_env \<Rightarrow> byte list option \<Rightarrow> int option" where
  "vaultAmount E account =
     (case account of
        None \<Rightarrow> None
      | Some data \<Rightarrow> if length data \<ge> ix_span E then Some (ix_decodeAmount E data) else None)"

definition balanceBatch ::
    "'x index_env \<Rightarrow> pubkey list \<Rightarrow> byte list option list \<Rightarrow> (string, int option) jsmap \<Rightarrow> (string, int option) jsmap" where
  "balanceBatch E batch accounts balances =
     foldl (\<lambda>balances index.
         map_put balances (ix_toBase58 E (batch ! index))
           (vaultAmount E (if index < length accounts then accounts ! index else None)))
       balances [0..<length batch]"

function vaultBalancesFrom ::
    "'x index_env \<Rightarrow> pubkey list \<Rightarrow> nat \<Rightarrow> (string, int option) jsmap \<Rightarrow> ('x, (string, int option) jsmap) outside" where
  "vaultBalancesFrom E addresses offset balances =
     (if offset < length addresses
      then let batch = take 100 (drop offset addresses) in
           io_bind (ix_accounts E batch) (\<lambda>accounts.
             vaultBalancesFrom E addresses (offset + 100) (balanceBatch E batch accounts balances))
      else io_return balances)"
  by pat_completeness auto
termination
  by (relation "measure (\<lambda>(E, addresses, offset, balances). length addresses - offset)") auto

declare vaultBalancesFrom.simps [simp del]

definition vaultBalances :: "'x index_env \<Rightarrow> pubkey list \<Rightarrow> ('x, (string, int option) jsmap) outside" where
  "vaultBalances E addresses = vaultBalancesFrom E addresses 0 []"

text \<open>\<open>new Map(rows.map(...))\<close>, and the number of positions of each market.\<close>

definition rows_map :: "(string \<times> 'a) list \<Rightarrow> (string, 'a) jsmap" where
  "rows_map rows = foldl (\<lambda>m (k, v). map_put m k v) [] rows"

definition traderCounts :: "'x index_env \<Rightarrow> pubkey list \<Rightarrow> (string, int) jsmap" where
  "traderCounts E markets =
     foldl (\<lambda>counts m.
         let market = ix_toBase58 E m in
         map_put counts market ((case map_get counts market of None \<Rightarrow> 0 | Some n \<Rightarrow> n) + 1))
       [] markets"

definition privateMarketJson :: "'x index_env \<Rightarrow> pubkey \<times> PrivateRow \<Rightarrow> json res" where
  "privateMarketJson E row =
     (case row of (address, account) \<Rightarrow>
       let big = (\<lambda>i. Inr (JString (int_str i)));
           bytes = (\<lambda>xs. Inr (JString (bytes_hex (map word_of_int xs))));
           name = (\<lambda>k v. case first_key v of None \<Rightarrow> [] | Some n \<Rightarrow> [(k, Inr (JString n))])
       in object_of
         ([(''address'', jkey E address), (''authority'', jkey E (pr_authority account)),
           (''marketId'', big (pr_marketId account))]
          @ name ''category'' (pr_category account) @ name ''resolverKind'' (pr_resolverKind account)
          @ [(''questionHash'', bytes (pr_questionHash account)), (''rulesHash'', bytes (pr_rulesHash account)),
             (''fixtureId'', big (pr_fixtureId account)), (''fixtureStartTs'', big (pr_fixtureStartTs account)),
             (''lockTs'', big (pr_lockTs account)), (''batchDeadlineTs'', big (pr_batchDeadlineTs account)),
             (''resolutionDeadlineTs'', big (pr_resolutionDeadlineTs account)),
             (''stakeAmount'', big (pr_stakeAmount account)),
             (''phase'', rbind (phaseName (pr_phase account)) (\<lambda>p. Inr (JString (private_phase_text p)))),
             (''orderCount'', jnum (JInt (pr_orderCount account))), (''yesCount'', jnum (JInt (pr_yesCount account))),
             (''noCount'', jnum (JInt (pr_noCount account))), (''yesAmount'', big (pr_yesAmount account)),
             (''noAmount'', big (pr_noAmount account)), (''outcome'', jnum (JInt (pr_outcome account))),
             (''grossPool'', big (pr_grossPool account)), (''protocolFee'', big (pr_protocolFee account)),
             (''keeperReward'', big (pr_keeperReward account)), (''treasuryFee'', big (pr_treasuryFee account)),
             (''netPool'', big (pr_netPool account)), (''claimedCount'', jnum (JInt (pr_claimedCount account))),
             (''settlementEvidenceHash'', bytes (pr_settlementEvidenceHash account))]))"

definition publicMarketJson ::
    "'x index_env \<Rightarrow> (string, OracleAccount) jsmap \<Rightarrow> (string, ResolutionReceiptAccount) jsmap
     \<Rightarrow> (string, HybridMetadataAccount) jsmap \<Rightarrow> (string, int) jsmap \<Rightarrow> (string, int option) jsmap \<Rightarrow> int
     \<Rightarrow> pubkey \<times> HybridMarketAccount \<Rightarrow> json res" where
  "publicMarketJson E oracles receipts metadata counts balances now row =
     (case row of (address, account) \<Rightarrow>
       let name = ix_toBase58 E address; vault = hybridVaultPda (ix_derive E) address (ix_program E) in
       case map_get oracles (ix_toBase58 E (hm_oracleConfig account)) of
         None \<Rightarrow> Inl (Error (''Missing oracle config for '' @ name))
       | Some oracle \<Rightarrow>
           buildHybridMarketSnapshot E
             \<lparr>si_address = address, si_vault = vault,
              si_vaultBalance = (case map_get balances (ix_toBase58 E vault) of None \<Rightarrow> None | Some b \<Rightarrow> b),
              si_market = account, si_oracle = oracle, si_receipt = map_get receipts name,
              si_metadata = map_get metadata name,
              si_traderCount = (case map_get counts name of None \<Rightarrow> 0 | Some n \<Rightarrow> n), si_now = now\<rparr>)"

definition writeSnapshot :: "'x index_env \<Rightarrow> ('x, json) outside" where
  "writeSnapshot E =
     io_bind (ix_privateRows E) (\<lambda>privateRows.
     io_bind (ix_publicRows E) (\<lambda>publicRows.
     io_bind (ix_oracleRows E) (\<lambda>oracleRows.
     io_bind (ix_receiptRows E) (\<lambda>receiptRows.
     io_bind (ix_metadataRows E) (\<lambda>metadataRows.
     io_bind (ix_positionMarkets E) (\<lambda>positionMarkets.
       let oracles = rows_map (map (\<lambda>(k, a). (ix_toBase58 E k, a)) oracleRows);
           receipts = rows_map (map (\<lambda>a. (ix_toBase58 E (rc_market a), a)) receiptRows);
           metadata = rows_map (map (\<lambda>a. (ix_toBase58 E (md_market a), a)) metadataRows);
           counts = traderCounts E positionMarkets;
           vaults = map (\<lambda>(k, a). hybridVaultPda (ix_derive E) k (ix_program E)) publicRows in
       io_bind (vaultBalances E vaults) (\<lambda>balances.
       io_bind (ix_clockMs E) (\<lambda>ms.
       io_bind (io_lift (rmap_list
           (publicMarketJson E oracles receipts metadata counts balances (ms div 1000)) publicRows)) (\<lambda>publicMarkets.
       io_bind (io_lift (rmap_list (privateMarketJson E) privateRows)) (\<lambda>privateMarkets.
       io_bind (ix_isoTime E) (\<lambda>generatedAt.
         let snapshot = JObject [(''schemaVersion'', JNumber (JInt 2)), (''generatedAt'', JString generatedAt),
               (''network'', JString ''solana-devnet''), (''programId'', JString (ix_toBase58 E (ix_program E))),
               (''privateMarkets'', JArray privateMarkets), (''publicMarkets'', JArray publicMarkets)];
             temporary = ix_outputPath E @ ''.tmp'' in
         io_bind (ix_mkdir E (ix_dirname E (ix_outputPath E))) (\<lambda>_.
         io_bind (ix_writeFile E temporary (pretty 0 snapshot @ [LF])) (\<lambda>_.
         io_bind (ix_rename E temporary (ix_outputPath E)) (\<lambda>_.
           io_return (JObject [(''event'', JString ''index-complete''),
             (''privateMarkets'', JNumber (JInt (int (length privateMarkets)))),
             (''publicMarkets'', JNumber (JInt (int (length publicMarkets)))),
             (''output'', JString (ix_outputPath E))])))))))))))))))"

text \<open>
  After the first pass the log subscription schedules one pass at a time: a log line replaces the
  timer, and the timer starts a pass whose error is only printed.
\<close>

datatype index_event = Log_seen | Timer_fires

definition index_step :: "'x index_env \<Rightarrow> index_event \<Rightarrow> bool \<times> 'x \<Rightarrow> bool \<times> 'x" where
  "index_step E ev s =
     (case (ev, s) of
        (Log_seen, (scheduled, x)) \<Rightarrow> (True, x)
      | (Timer_fires, (scheduled, x)) \<Rightarrow>
          if scheduled then (False, snd (writeSnapshot E x)) else (scheduled, x))"

definition index_main :: "'x index_env \<Rightarrow> index_event list \<Rightarrow> ('x, unit) outside" where
  "index_main E events =
     io_bind (writeSnapshot E) (\<lambda>_.
       if ix_once E then io_return ()
       else (\<lambda>x. (Inr (), snd (fold (index_step E) events (False, x)))))"

section \<open>Lemmas\<close>

text \<open>The fields of an object literal.\<close>

lemma object_literal_field:
  "object_literal kvs = Inr vs \<Longrightarrow> map_of kvs k = Some r \<Longrightarrow> \<exists>v. r = Inr v \<and> map_of vs k = Some v"
proof (induction kvs arbitrary: vs)
  case (Cons e kvs)
  obtain k' r' where e: "e = (k', r')" by fastforce
  from Cons.prems(1) obtain v us where "r' = Inr v" "object_literal kvs = Inr us" "vs = (k', v) # us"
    by (auto simp: e rbind_eq_Inr)
  with Cons e show ?case by (auto split: if_splits)
qed simp

lemma object_field:
  assumes "object_of kvs = Inr j" "map_of kvs k = Some r"
  shows "\<exists>v. r = Inr v \<and> field j k = Some v"
  using assms object_literal_field by (fastforce simp: object_of_def rbind_eq_Inr map_get_def)

lemma bytes_hex_inject: "bytes_hex a = bytes_hex b \<Longrightarrow> a = b"
  by (metis hex_bytes_bytes_hex)

lemma bytes32_InrD: "bytes32 v label = Inr s \<Longrightarrow> s = bytes_hex (map word_of_int v) \<and> length v = 32"
  by (auto simp: bytes32_def Let_def split: if_splits)

lemma safeInteger_InrD:
  "safeInteger v label = Inr x \<Longrightarrow> js_BigInt (like_string v) = Inr x \<and> \<bar>x\<bar> \<le> MAX_SAFE_INTEGER"
  by (auto simp: safeInteger_def integerString_def rbind_eq_Inr Let_def split: if_splits)

lemma digest_of:
  "bytes32 v label = Inr s \<Longrightarrow> bytes_hex d = s \<Longrightarrow> d = map word_of_int v"
  using bytes32_InrD bytes_hex_inject by metis

lemma metadata_committed:
  assumes "buildMetadataSnapshot E metadata market address = Inr j"
  shows "md_market metadata = address \<and> md_creator metadata = hm_creator market"
    and "ix_sha256 E (utf8 (md_question metadata)) = map word_of_int (hm_questionHash market)"
    and "ix_sha256 E (utf8 (md_rules metadata)) = map word_of_int (hm_rulesHash market)"
    and "ix_sha256 E (utf8 (md_yesLabel metadata @ [LF] @ md_noLabel metadata)) = map word_of_int (hm_outcomeLabelsHash market)"
    and "field j ''question'' = Some (JString (md_question metadata)) \<and> field j ''rules'' = Some (JString (md_rules metadata))"
proof -
  note unfolded = assms [unfolded buildMetadataSnapshot_def Let_def rbind_eq_Inr check_Inr not_not de_Morgan_disj]
  from unfolded show "md_market metadata = address \<and> md_creator metadata = hm_creator market" by (elim exE conjE) (intro conjI)
  from unfolded show "ix_sha256 E (utf8 (md_question metadata)) = map word_of_int (hm_questionHash market)"
    by (elim exE conjE) (rule digest_of)
  from unfolded show "ix_sha256 E (utf8 (md_rules metadata)) = map word_of_int (hm_rulesHash market)"
    by (elim exE conjE) (rule digest_of)
  from unfolded show "ix_sha256 E (utf8 (md_yesLabel metadata @ [LF] @ md_noLabel metadata)) = map word_of_int (hm_outcomeLabelsHash market)"
    by (elim exE conjE) (rule digest_of)
  from unfolded have "object_of
          [(''version'', jnum (md_version metadata)), (''market'', jkey E (md_market metadata)),
           (''creator'', jkey E (md_creator metadata)), (''question'', Inr (JString (md_question metadata))),
           (''rules'', Inr (JString (md_rules metadata))), (''yesLabel'', Inr (JString (md_yesLabel metadata))),
           (''noLabel'', Inr (JString (md_noLabel metadata))),
           (''referenceUrl'', Inr (if md_referenceUrl metadata = [] then JNull else JString (md_referenceUrl metadata))),
           (''publishedAt'', jint (md_publishedAt metadata) ''metadata publication timestamp'')] = Inr j"
    by (elim exE conjE)
  from object_field [OF this, of "''question''"] object_field [OF this, of "''rules''"]
  show "field j ''question'' = Some (JString (md_question metadata)) \<and> field j ''rules'' = Some (JString (md_rules metadata))"
    by simp
qed

lemma snapshot_parts:
  assumes "buildHybridMarketSnapshot E input = Inr j"
  obtains liquidityParameter yesQuantity noQuantity phase lockTs resolver where
    "oa_market (si_oracle input) = si_address input"
    "rbind (integerString (hm_liquidityParameter (si_market input)) ''liquidity parameter'') js_BigInt = Inr liquidityParameter"
    "rbind (integerString (hm_yesQuantity (si_market input)) ''YES quantity'') js_BigInt = Inr yesQuantity"
    "rbind (integerString (hm_noQuantity (si_market input)) ''NO quantity'') js_BigInt = Inr noQuantity"
    "hybridPhaseName (hm_phase (si_market input)) = Inr phase"
    "safeInteger (hm_lockTs (si_market input)) ''lock timestamp'' = Inr lockTs"
    "oracleResolverName (oa_resolver (si_oracle input)) = Inr resolver"
    "object_of (market_fields E input liquidityParameter yesQuantity noQuantity phase lockTs resolver) = Inr j"
  using assms unfolding buildHybridMarketSnapshot_def Let_def check_Inr rbind_eq_Inr [of "rbind m f" for m f]
    rbind_eq_Inr [of "hybridPhaseName p" for p] rbind_eq_Inr [of "safeInteger v l" for v l]
    rbind_eq_Inr [of "oracleResolverName r" for r] not_not
  apply (elim exE conjE)
  subgoal premises prems by (rule prems(1) [OF prems(2,4-)])
  done

text \<open>The value a text of an account stands for.\<close>

definition like_value :: "IntegerLike \<Rightarrow> int \<Rightarrow> bool" where
  "like_value v x \<longleftrightarrow> integer_syntax (like_string v) \<and> js_BigInt (like_string v) = Inr x"

lemma integer_value: "rbind (integerString v label) js_BigInt = Inr x \<Longrightarrow> like_value v x"
  by (auto simp: like_value_def integerString_def Let_def rbind_eq_Inr split: if_splits)

lemma probability_range: "lmsrYesProbability q b = Inr p \<Longrightarrow> 0 \<le> p \<and> p \<le> 1000000"
  using lmsrYesProbability_unfold [OF lmsrYesProbability_valid] by (fastforce simp: LMSR_PROBABILITY_SCALE_def split: if_splits)

lemma market_field:
  assumes "object_of (market_fields E input b y n phase lock resolver) = Inr j"
  shows "field j ''yesQuantity'' = Some (JString (int_str y))" "field j ''noQuantity'' = Some (JString (int_str n))"
    and "\<exists>p. lmsrYesProbability \<lparr>qyes = y, qno = n\<rparr> b = Inr p \<and> field j ''yesProbabilityPpm'' = Some (JNumber (JInt p))"
    and "field j ''tradingOpen'' = Some (JBool (phase = Phase_open \<and> si_now input < lock))"
    and "\<exists>m. (case si_metadata input of None \<Rightarrow> Inr JNull
      | Some metadata \<Rightarrow> buildMetadataSnapshot E metadata (si_market input) (si_address input)) = Inr m
      \<and> field j ''metadata'' = Some m"
  using object_field [OF assms, of "''yesQuantity''"] object_field [OF assms, of "''noQuantity''"]
    object_field [OF assms, of "''yesProbabilityPpm''"] object_field [OF assms, of "''tradingOpen''"]
    object_field [OF assms, of "''metadata''"]
  by (simp_all add: market_fields_def Let_def rbind_eq_Inr) blast+


subsection \<open>Balances and counts\<close>

lemma balanceBatch_get:
  assumes "inj (ix_toBase58 E)"
  shows "map_get (balanceBatch E batch (map f batch) m) (ix_toBase58 E a)
    = (if a \<in> set batch then Some (vaultAmount E (f a)) else map_get m (ix_toBase58 E a))"
proof -
  let ?step = "\<lambda>balances index. map_put balances (ix_toBase58 E (batch ! index))
      (vaultAmount E (if index < length (map f batch) then map f batch ! index else None))"
  have "map_get (foldl ?step m [0..<k]) (ix_toBase58 E a)
      = (if a \<in> set (take k batch) then Some (vaultAmount E (f a)) else map_get m (ix_toBase58 E a))"
    if "k \<le> length batch" for k
    using that
  proof (induction k)
    case (Suc k)
    then show ?case
      using assms by (auto simp: map_get_put take_Suc_conv_app_nth inj_eq)
  qed simp
  from this [of "length batch"] show ?thesis by (simp add: balanceBatch_def)
qed

lemma vaultBalancesFrom_get:
  assumes "inj (ix_toBase58 E)" "\<And>xs x. ix_accounts E xs x = (Inr (map f xs), x)"
  shows "\<exists>m. vaultBalancesFrom E addresses offset balances x = (Inr m, x)
    \<and> (\<forall>a. map_get m (ix_toBase58 E a) = (if a \<in> set (drop offset addresses) then Some (vaultAmount E (f a))
        else map_get balances (ix_toBase58 E a)))"
proof (induction "length addresses - offset" arbitrary: offset balances rule: less_induct)
  case less
  show ?case
  proof (cases "offset < length addresses")
    case True
    let ?batch = "take 100 (drop offset addresses)"
    let ?b = "balanceBatch E ?batch (map f ?batch) balances"
    obtain m where m: "vaultBalancesFrom E addresses (offset + 100) ?b x = (Inr m, x)"
      and g: "\<forall>a. map_get m (ix_toBase58 E a) = (if a \<in> set (drop (offset + 100) addresses) then Some (vaultAmount E (f a))
        else map_get ?b (ix_toBase58 E a))"
    proof -
      have "\<exists>m. vaultBalancesFrom E addresses (offset + 100) ?b x = (Inr m, x)
        \<and> (\<forall>a. map_get m (ix_toBase58 E a) = (if a \<in> set (drop (offset + 100) addresses) then Some (vaultAmount E (f a))
          else map_get ?b (ix_toBase58 E a)))" by (rule less) (use True in simp)
      with that show thesis by blast
    qed
    have "set (drop offset addresses) = set ?batch \<union> set (drop (offset + 100) addresses)"
      by (metis add.commute append_take_drop_id drop_drop set_append)
    with g have "\<forall>a. map_get m (ix_toBase58 E a) = (if a \<in> set (drop offset addresses) then Some (vaultAmount E (f a))
        else map_get balances (ix_toBase58 E a))"
      by (simp add: balanceBatch_get [OF assms(1)])
    moreover have "vaultBalancesFrom E addresses offset balances x = (Inr m, x)"
      by (subst vaultBalancesFrom.simps) (simp add: True Let_def io_bind_def assms(2) m)
    ultimately show ?thesis by blast
  next
    case False
    then show ?thesis by (subst vaultBalancesFrom.simps) (simp add: io_return_def)
  qed
qed

lemma traderCounts_get:
  assumes "inj (ix_toBase58 E)"
  shows "map_get (traderCounts E ms) (ix_toBase58 E a)
    = (if a \<in> set ms then Some (int (count_list ms a)) else None)"
proof (induction ms rule: rev_induct)
  case (snoc m ms)
  have "traderCounts E (ms @ [m]) = map_put (traderCounts E ms) (ix_toBase58 E m)
      ((case map_get (traderCounts E ms) (ix_toBase58 E m) of None \<Rightarrow> 0 | Some n \<Rightarrow> n) + 1)"
    by (simp add: traderCounts_def Let_def)
  with snoc assms show ?case
    by (auto simp: map_get_put inj_eq)
qed (simp add: traderCounts_def)

text \<open>
  Reading the vaults a hundred at a time changes nothing: for a node that answers each
  address on its own, the balance recorded for a vault is the one of its account, however many
  vaults there are and in whatever batch it falls; and the trader count of a market is the number of
  its positions.
\<close>

theorem batched_balances_are_exact:
  assumes "inj (ix_toBase58 E)" "\<And>xs x. ix_accounts E xs x = (Inr (map f xs), x)"
  shows "\<exists>m. vaultBalances E addresses x = (Inr m, x)
    \<and> (\<forall>a. map_get m (ix_toBase58 E a) = (if a \<in> set addresses then Some (vaultAmount E (f a)) else None))
    \<and> (\<forall>a. a \<in> set positions \<longrightarrow> map_get (traderCounts E positions) (ix_toBase58 E a) = Some (int (count_list positions a)))"
  using vaultBalancesFrom_get [OF assms, of addresses 0 "[]" x] traderCounts_get [OF assms(1)]
  by (auto simp: vaultBalances_def)

subsection \<open>A pass that fails\<close>

text \<open>\<open>fails I m\<close>: from a state satisfying \<open>I\<close> the program throws and leaves \<open>I\<close> true.\<close>

definition fails :: "('x \<Rightarrow> bool) \<Rightarrow> ('x, 'a) outside \<Rightarrow> bool" where
  "fails I m \<longleftrightarrow> (\<forall>x. I x \<longrightarrow> wp m (\<lambda>_ _. False) (\<lambda>_. I) x)"

lemma fails_after: "keeps I m \<Longrightarrow> (\<And>v. fails I (f v)) \<Longrightarrow> fails I (io_bind m f)"
  unfolding fails_def keeps_def by (auto simp: wp_bind elim!: wp_mono)

lemma fails_after_value:
  "keeps I m \<Longrightarrow> (\<And>x v y. m x = (Inr v, y) \<Longrightarrow> fails I (f v)) \<Longrightarrow> fails I (io_bind m f)"
  unfolding fails_def keeps_def wp_bind by (fastforce simp: wp_def split: prod.splits sum.splits)

lemma fails_lift: "\<exists>e. r = Inl e \<Longrightarrow> fails I (io_bind (io_lift r) f)"
  by (auto simp: fails_def wp_rules)

lemma keeps_vaultBalancesFrom:
  assumes "\<And>xs. keeps I (ix_accounts E xs)"
  shows "keeps I (vaultBalancesFrom E addresses offset balances)"
proof (induction "length addresses - offset" arbitrary: offset balances rule: less_induct)
  case less
  show ?case
  proof (cases "offset < length addresses")
    case True
    have "keeps I (vaultBalancesFrom E addresses (offset + 100) b)" for b by (rule less) (use True in simp)
    then show ?thesis
      by (subst vaultBalancesFrom.simps) (simp add: True Let_def assms keeps_bind)
  next
    case False
    then show ?thesis by (subst vaultBalancesFrom.simps) (simp add: keeps_return)
  qed
qed

lemma keeps_vaultBalances: "(\<And>xs. keeps I (ix_accounts E xs)) \<Longrightarrow> keeps I (vaultBalances E addresses)"
  by (simp add: vaultBalances_def keeps_vaultBalancesFrom)

lemma unsafe_lock_fails:
  assumes "js_BigInt (like_string (hm_lockTs account)) = Inr lock" "MAX_SAFE_INTEGER < \<bar>lock\<bar>"
  shows "\<exists>e. publicMarketJson E oracles receipts metadata counts balances now (address, account) = Inl e"
proof -
  have "\<nexists>j. buildHybridMarketSnapshot E input = Inr j" if "si_market input = account" for input
  proof
    assume "\<exists>j. buildHybridMarketSnapshot E input = Inr j"
    then obtain j where "buildHybridMarketSnapshot E input = Inr j" by blast
    then show False
      by (rule snapshot_parts) (use assms that safeInteger_InrD in fastforce)
  qed
  then have b: "\<exists>e. buildHybridMarketSnapshot E input = Inl e" if "si_market input = account" for input
    using that by (cases "buildHybridMarketSnapshot E input") auto
  show ?thesis
    by (cases "map_get oracles (ix_toBase58 E (hm_oracleConfig account))")
      (simp_all add: publicMarketJson_def Let_def b)
qed

lemma rmap_list_fails: "x \<in> set xs \<Longrightarrow> f x = Inl e \<Longrightarrow> \<exists>e. rmap_list f xs = Inl e"
proof (cases "rmap_list f xs")
  case (Inr ys)
  then have "list_all2 (\<lambda>x y. f x = Inr y) xs ys" by (simp add: rmap_list_Inr_iff)
  moreover assume "x \<in> set xs" "f x = Inl e"
  ultimately show ?thesis by (auto simp: in_set_conv_nth dest: list_all2_nthD)
qed simp

lemma publicMarkets_fail:
  assumes "(address, account) \<in> set rows"
    and "js_BigInt (like_string (hm_lockTs account)) = Inr lock" "MAX_SAFE_INTEGER < \<bar>lock\<bar>"
  shows "\<exists>e. rmap_list (publicMarketJson E oracles receipts metadata counts balances now) rows = Inl e"
  using unsafe_lock_fails [OF assms(2,3)] rmap_list_fails [OF assms(1)] by blast

text \<open>
  Claim C34. One market stops the index.  The program accepts any lock time after the present, but a
  lock time above the safe integers makes the snapshot of its market throw, and the pass throws with
  it: whatever else it read, nothing is written, so every statement about the outside that the reads
  keep, such as what the index file holds, is still true after the pass.
\<close>

theorem one_market_stops_the_index:
  assumes "\<And>x v y. ix_publicRows E x = (Inr v, y) \<Longrightarrow> (address, account) \<in> set v"
    and "js_BigInt (like_string (hm_lockTs account)) = Inr lock" "MAX_SAFE_INTEGER < lock"
    and "keeps I (ix_privateRows E)" "keeps I (ix_publicRows E)" "keeps I (ix_oracleRows E)" "keeps I (ix_receiptRows E)"
      "keeps I (ix_metadataRows E)" "keeps I (ix_positionMarkets E)" "\<And>xs. keeps I (ix_accounts E xs)" "keeps I (ix_clockMs E)"
    and "I x"
  shows "\<exists>e y. writeSnapshot E x = (Inl e, y) \<and> I y"
proof -
  have "fails I (writeSnapshot E)"
    unfolding writeSnapshot_def Let_def
    apply (rule fails_after [OF assms(4)])
    apply (rule fails_after_value [OF assms(5)])
    apply (rule fails_after [OF assms(6)])
    apply (rule fails_after [OF assms(7)])
    apply (rule fails_after [OF assms(8)])
    apply (rule fails_after [OF assms(9)])
    apply (rule fails_after [OF keeps_vaultBalances [OF assms(10)]])
    apply (rule fails_after [OF assms(11)])
    subgoal by (rule fails_lift, rule publicMarkets_fail [OF _ assms(2)]) (use assms(1,3) in auto)
    done
  then show ?thesis
    using assms(12) by (cases "writeSnapshot E x"; cases "fst (writeSnapshot E x)") (fastforce simp: fails_def wp_def)+
qed

subsection \<open>Examples\<close>

definition market_example :: "int \<Rightarrow> HybridMarketAccount" where
  "market_example lock = \<lparr>hm_version = JInt 1, hm_marketId = Bigint_like 7, hm_creator = [1], hm_liquidityOwner = [1],
     hm_category = [(''crypto'', JNull)], hm_tradingMode = [(''continuous'', JNull)], hm_pricingModel = [(''lmsr'', JNull)],
     hm_questionHash = replicate 32 0, hm_rulesHash = replicate 32 0, hm_outcomeLabelsHash = replicate 32 0,
     hm_collateralMint = [2], hm_tokenProgram = [3], hm_treasuryOwner = [4], hm_oracleConfig = [5],
     hm_liquidityParameter = Bigint_like 100000000, hm_initialSubsidy = Bigint_like 0, hm_roundingReserve = Bigint_like 0,
     hm_maxTradeShares = Bigint_like 0, hm_resolverSecurityCap = Bigint_like 0, hm_yesQuantity = Bigint_like 0,
     hm_noQuantity = Bigint_like 0, hm_tradeFeeBps = JInt 0, hm_treasuryFeeShareBps = JInt 0, hm_openTs = Bigint_like 0,
     hm_lockTs = Bigint_like lock, hm_resolveNotBeforeTs = Bigint_like 0, hm_resolutionDeadlineTs = Bigint_like 0,
     hm_phase = [(''open'', JNull)], hm_outcome = JInt 3, hm_tradeCount = Bigint_like 0, hm_volume = Bigint_like 0,
     hm_treasuryFees = Bigint_like 0, hm_liquidityFees = Bigint_like 0, hm_outstandingLiability = Bigint_like 0,
     hm_redeemedLiability = Bigint_like 0, hm_settledAt = Bigint_like 0, hm_settlementEvidenceHash = replicate 32 0\<rparr>"

definition oracle_example :: OracleAccount where
  "oracle_example = \<lparr>oa_version = JInt 1, oa_market = [9], oa_resolver = [(''pythPrice'', JNull)], oa_sourceProgram = [1],
     oa_sourceQueue = [1], oa_sourceId = replicate 32 0, oa_comparator = [(''equal'', JNull)], oa_threshold = Bigint_like 0,
     oa_thresholdExponent = JInt 0, oa_observationTs = Bigint_like 0, oa_observationWindowSecs = JInt 0,
     oa_maxStalenessSecs = JInt 0, oa_maxStalenessSlots = Bigint_like 0, oa_maxConfidenceBps = JInt 0, oa_minSamples = JInt 0,
     oa_challengePeriodSecs = JInt 0, oa_bondAmount = Bigint_like 0, oa_configHash = replicate 32 0,
     oa_optimisticProposal = [1], oa_consumed = False\<rparr>"

definition metadata_example :: HybridMetadataAccount where
  "metadata_example = \<lparr>md_version = JInt 1, md_market = [9], md_creator = [1], md_question = ''Q'', md_rules = ''R'',
     md_yesLabel = ''Y'', md_noLabel = ''N'', md_referenceUrl = [], md_publishedAt = Bigint_like 0\<rparr>"

definition index_example :: "(pubkey \<times> HybridMarketAccount) list \<Rightarrow> nat index_env" where
  "index_example rows = \<lparr>ix_toBase58 = bytes_hex, ix_sha256 = (\<lambda>b. replicate 32 0), ix_derive = (\<lambda>seeds p. []),
     ix_program = [], ix_privateRows = io_return [], ix_publicRows = io_return rows, ix_oracleRows = io_return [([5], oracle_example)],
     ix_receiptRows = io_return [], ix_metadataRows = io_return [metadata_example], ix_positionMarkets = io_return [],
     ix_accounts = (\<lambda>xs. io_return (map (\<lambda>x. Some x) xs)), ix_span = 0, ix_decodeAmount = (\<lambda>d. int (length d)),
     ix_clockMs = io_return 5000, ix_isoTime = io_return ''now'', ix_outputPath = ''out'', ix_dirname = (\<lambda>s. s),
     ix_mkdir = (\<lambda>d. io_return ()), ix_writeFile = (\<lambda>f t x. (Inr (), Suc x)), ix_rename = (\<lambda>f g. io_return ()),
     ix_once = True\<rparr>"


theorem batched_balances_are_exact_witness:
  "\<exists>m. vaultBalances (index_example []) (map (\<lambda>i. [word_of_nat i]) [0..<150]) 0 = (Inr m, 0)
    \<and> map_get m (bytes_hex [120]) = Some (Some 1)"
proof -
  have i: "inj (ix_toBase58 (index_example []))"
    by (auto simp: index_example_def inj_def dest: bytes_hex_inject)
  have a: "ix_accounts (index_example []) xs x = (Inr (map Some xs), x)" for xs x
    by (simp add: index_example_def io_return_def)
  have v: "vaultAmount (index_example []) (Some [120]) = Some 1" by (simp add: vaultAmount_def index_example_def)
  have k: "ix_toBase58 (index_example []) = bytes_hex" by (simp add: index_example_def)
  have "[120 :: byte] \<in> set (map (\<lambda>i. [word_of_nat i]) [0..<150])" by (rule image_eqI [of _ _ 120, THEN set_map [THEN equalityD2, THEN subsetD]]) simp_all
  with batched_balances_are_exact [OF i a, of "map (\<lambda>i. [word_of_nat i]) [0..<150]" 0 "[]"] v show ?thesis
    unfolding k by auto
qed

theorem one_market_stops_the_index_witness:
  "\<exists>e y. writeSnapshot (index_example [([9], market_example (2 ^ 60))]) 4 = (Inl e, y) \<and> y = 4"
proof -
  let ?E = "index_example [([9], market_example (2 ^ 60))]"
  have lock: "js_BigInt (like_string (hm_lockTs (market_example (2 ^ 60)))) = Inr (2 ^ 60)"
    by (simp add: market_example_def js_BigInt_int_str)
  have "MAX_SAFE_INTEGER < 2 ^ 60" by (simp add: MAX_SAFE_INTEGER_def)
  moreover have "\<And>x v y. ix_publicRows ?E x = (Inr v, y) \<Longrightarrow> ([9], market_example (2 ^ 60)) \<in> set v"
    by (auto simp: index_example_def io_return_def)
  ultimately show ?thesis
    using one_market_stops_the_index [where E = ?E and I = "\<lambda>y. y = 4" and x = 4 and address = "[9]", OF _ lock]
    by (simp add: index_example_def keeps_return)
qed

end
