(* ===== verification/JsDate.thy ===== *)
theory JsDate
  imports JsText
begin

text \<open>
  Instants of the language as the code uses them: a time is the number of milliseconds since 1970,
  \<open>toISOString\<close> prints it in UTC and \<open>Date.parse\<close> reads the texts that are printed that way, with or
  without the milliseconds.  The calendar is the proleptic Gregorian one, from the day numbers of the
  first days of its years and months.
\<close>

section \<open>The calendar\<close>

text \<open>The day of January 1st of a year; \<open>div\<close> rounds down as the language's floor does.\<close>

definition day_from_year :: "int \<Rightarrow> int" where
  "day_from_year y = 365 * (y - 1970) + (y - 1969) div 4 - (y - 1901) div 100 + (y - 1601) div 400"

definition year_from_day :: "int \<Rightarrow> int" where
  "year_from_day d =
     (let y = 1970 + (400 * d) div 146097 in
      if day_from_year (y + 1) \<le> d then y + 1 else if day_from_year y \<le> d then y else y - 1)"

definition leap_year :: "int \<Rightarrow> bool" where
  "leap_year y \<longleftrightarrow> 4 dvd y \<and> (\<not> 100 dvd y \<or> 400 dvd y)"

text \<open>The days of the year before a month, counted from zero.\<close>

definition month_start :: "bool \<Rightarrow> nat \<Rightarrow> int" where
  "month_start leap m =
     [0, 31, 59, 90, 120, 151, 181, 212, 243, 273, 304, 334] ! m + (if leap \<and> 2 \<le> m then 1 else 0)"

definition month_from_day :: "bool \<Rightarrow> int \<Rightarrow> nat" where
  "month_from_day leap n = length (filter (\<lambda>m. month_start leap m \<le> n) [1..<12])"

definition make_day :: "int \<Rightarrow> nat \<Rightarrow> int \<Rightarrow> int" where
  "make_day y m date = day_from_year y + month_start (leap_year y) m + date - 1"

section \<open>Texts of times\<close>

text \<open>A number in exactly \<open>k\<close> digits.\<close>

primrec fixed :: "nat \<Rightarrow> int \<Rightarrow> string" where
  "fixed 0 n = []"
| "fixed (Suc k) n = fixed k (n div 10) @ [digit_char (n mod 10)]"

definition iso_year :: "int \<Rightarrow> string" where
  "iso_year y =
     (if 0 \<le> y \<and> y \<le> 9999 then fixed 4 y
      else if 0 \<le> y then CHR ''+'' # fixed 6 y else CHR ''-'' # fixed 6 (- y))"

definition MAX_TIME :: int where "MAX_TIME = 8640000000000000"

definition iso_text :: "int \<Rightarrow> string" where
  "iso_text ms =
     (let d = ms div 86400000; t = ms mod 86400000;
          y = year_from_day d; n = d - day_from_year y; m = month_from_day (leap_year y) n
      in iso_year y @ CHR ''-'' # fixed 2 (int m + 1) @ CHR ''-'' # fixed 2 (n - month_start (leap_year y) m + 1)
         @ CHR ''T'' # fixed 2 (t div 3600000) @ CHR '':'' # fixed 2 (t div 60000 mod 60)
         @ CHR '':'' # fixed 2 (t div 1000 mod 60) @ CHR ''.'' # fixed 3 (t mod 1000) @ ''Z'')"

definition toISOString :: "int \<Rightarrow> string res" where
  "toISOString ms = (if \<bar>ms\<bar> > MAX_TIME then Inl Range_Error else Inr (iso_text ms))"

definition take_int :: "nat \<Rightarrow> string \<Rightarrow> (int \<times> string) option" where
  "take_int k s =
     (if k \<le> length s \<and> list_all is_digit (take k s) then Some (radix_val 10 (take k s), drop k s) else None)"

definition take_char :: "char \<Rightarrow> string \<Rightarrow> string option" where
  "take_char c s = (case s of x # r \<Rightarrow> if x = c then Some r else None | [] \<Rightarrow> None)"

definition take_year :: "string \<Rightarrow> (int \<times> string) option" where
  "take_year s =
     (case s of
        [] \<Rightarrow> None
      | c # r \<Rightarrow>
          if c = CHR ''+'' then take_int 6 r
          else if c = CHR ''-''
          then Option.bind (take_int 6 r) (\<lambda>(y, r). if y = 0 then None else Some (- y, r))
          else take_int 4 s)"

definition take_millis :: "string \<Rightarrow> (int \<times> string) option" where
  "take_millis s = (case take_char CHR ''.'' s of Some r \<Rightarrow> take_int 3 r | None \<Rightarrow> Some (0, s))"

definition date_parse :: "string \<Rightarrow> int option" where
  "date_parse s =
     Option.bind (take_year s) (\<lambda>(y, s).
     Option.bind (take_char CHR ''-'' s) (\<lambda>s. Option.bind (take_int 2 s) (\<lambda>(mo, s).
     Option.bind (take_char CHR ''-'' s) (\<lambda>s. Option.bind (take_int 2 s) (\<lambda>(da, s).
     Option.bind (take_char CHR ''T'' s) (\<lambda>s. Option.bind (take_int 2 s) (\<lambda>(h, s).
     Option.bind (take_char CHR '':'' s) (\<lambda>s. Option.bind (take_int 2 s) (\<lambda>(mi, s).
     Option.bind (take_char CHR '':'' s) (\<lambda>s. Option.bind (take_int 2 s) (\<lambda>(se, s).
     Option.bind (take_millis s) (\<lambda>(ms, s).
       if s \<noteq> ''Z'' \<or> \<not> (1 \<le> mo \<and> mo \<le> 12 \<and> 1 \<le> da \<and> da \<le> 31 \<and> h \<le> 23 \<and> mi \<le> 59 \<and> se \<le> 59) then None
       else
         let time = make_day y (nat (mo - 1)) da * 86400000 + ((h * 60 + mi) * 60 + se) * 1000 + ms in
         if \<bar>time\<bar> > MAX_TIME then None else Some time))))))))))))"

section \<open>Lemmas\<close>

subsection \<open>The calendar\<close>

lemma floor_bounds:
  fixes x k :: int
  assumes "0 < k"
  shows "k * (x div k) \<le> x \<and> x < k * (x div k) + k"
proof -
  have "x = k * (x div k) + x mod k" by simp
  moreover have "0 \<le> x mod k" "x mod k < k" using assms by simp_all
  ultimately show ?thesis by linarith
qed

lemma leap_days_bounds:
  fixes a b c y :: int
  assumes "4 * a \<le> y - 1969 \<and> y - 1969 < 4 * a + 4" "100 * b \<le> y - 1901 \<and> y - 1901 < 100 * b + 100"
    "400 * c \<le> y - 1601 \<and> y - 1601 < 400 * c + 400"
  shows "146097 * (y - 1970) - 506 \<le> 400 * (365 * (y - 1970) + a - b + c)"
    "400 * (365 * (y - 1970) + a - b + c) \<le> 146097 * (y - 1970) + 589"
proof -
  have a: "100 * y - 197200 \<le> 400 * a" "400 * a \<le> 100 * y - 196900" using assms(1) by linarith+
  have b: "400 * b \<le> 4 * y - 7604" "4 * y - 8000 \<le> 400 * b" using assms(2) by linarith+
  have c: "y - 2000 \<le> 400 * c" "400 * c \<le> y - 1601" using assms(3) by linarith+
  show "146097 * (y - 1970) - 506 \<le> 400 * (365 * (y - 1970) + a - b + c)" using a b c by simp
  show "400 * (365 * (y - 1970) + a - b + c) \<le> 146097 * (y - 1970) + 589" using a b c by simp
qed

lemma day_from_year_bounds:
  "146097 * (y - 1970) - 506 \<le> 400 * day_from_year y" "400 * day_from_year y \<le> 146097 * (y - 1970) + 589"
  using leap_days_bounds [of "(y - 1969) div 4" y "(y - 1901) div 100" "(y - 1601) div 400",
      OF floor_bounds floor_bounds floor_bounds]
  by (simp_all add: day_from_year_def)

lemma year_from_day_correct:
  "day_from_year (year_from_day d) \<le> d" "d < day_from_year (year_from_day d + 1)"
proof -
  let ?y = "1970 + (400 * d) div 146097"
  have k: "146097 * (?y - 1970) \<le> 400 * d" "400 * d < 146097 * (?y - 1970) + 146097"
    using floor_bounds [of 146097 "400 * d", OF zero_less_numeral] by simp_all
  have "400 * day_from_year (?y - 1) \<le> 400 * d" using day_from_year_bounds(2) [of "?y - 1"] k by simp
  moreover have "400 * d < 400 * day_from_year (?y + 2)" using day_from_year_bounds(1) [of "?y + 2"] k by simp
  ultimately show "day_from_year (year_from_day d) \<le> d" "d < day_from_year (year_from_day d + 1)"
    by (simp_all add: year_from_day_def Let_def add.assoc)
qed

lemma year_length: "day_from_year (y + 1) = day_from_year y + (if leap_year y then 366 else 365)"
proof -
  have f: "(x + 1) div k = x div k + (if k dvd x + 1 then 1 else 0)" if "k > 0" for x k :: int
  proof (cases "k dvd x + 1")
    case True
    then obtain q where q: "x + 1 = k * q" by blast
    then have "x = k * (q - 1) + (k - 1)" by (simp add: algebra_simps)
    then have "x div k = q - 1" using that by (simp add: int_div_pos_eq)
    with q that show ?thesis by simp
  next
    case False
    then have "(x + 1) mod k \<noteq> 0" by (simp add: dvd_eq_mod_eq_0)
    then have "x mod k \<noteq> k - 1" using that by (auto simp: mod_add_left_eq [of x k 1, symmetric])
    moreover have "0 \<le> x mod k" "x mod k < k" using that by simp_all
    ultimately have "x mod k + 1 < k" by linarith
    moreover have "x + 1 = k * (x div k) + (x mod k + 1)" by simp
    ultimately have "(x + 1) div k = x div k"
      by (intro int_div_pos_eq [of _ _ _ "x mod k + 1"]) (use that in \<open>auto simp: \<open>0 \<le> x mod k\<close>\<close>)
    with False show ?thesis by simp
  qed
  have d: "4 dvd y - 1969 + 1 \<longleftrightarrow> 4 dvd y" "100 dvd y - 1901 + 1 \<longleftrightarrow> 100 dvd y" "400 dvd y - 1601 + 1 \<longleftrightarrow> 400 dvd y"
    using dvd_add_times_triv_right_iff [of 4 "y - 1968" 492] dvd_add_times_triv_right_iff [of 100 "y - 1900" 19]
      dvd_add_times_triv_right_iff [of 400 "y - 1600" 4] by simp_all
  have s: "y + 1 - 1969 = y - 1969 + 1" "y + 1 - 1901 = y - 1901 + 1" "y + 1 - 1601 = y - 1601 + 1" by simp_all
  have "400 dvd y \<Longrightarrow> 100 dvd y" "100 dvd y \<Longrightarrow> 4 dvd y" 
    by (rule dvd_trans [of 100 400], simp, assumption) (rule dvd_trans [of 4 100], simp, assumption)
  moreover have "day_from_year (y + 1) = day_from_year y + 365
      + (if 4 dvd y then 1 else 0) - (if 100 dvd y then 1 else 0) + (if 400 dvd y then 1 else 0)"
  proof -
    have sum: "365 * (y + 1 - 1970) + (a + i) - (b + j) + (c + k) = 365 * (y - 1970) + a - b + c + 365 + i - j + k"
      for a b c i j k :: int by simp
    show ?thesis
      unfolding day_from_year_def s f [OF zero_less_numeral] d by (rule sum)
  qed
  ultimately show ?thesis unfolding leap_year_def by (cases "4 dvd y"; cases "100 dvd y"; cases "400 dvd y") simp_all
qed

lemma month_starts:
  "month_start leap 1 = 31" "month_start False 2 = 59" "month_start False 3 = 90"
  "month_start False 4 = 120" "month_start False 5 = 151" "month_start False 6 = 181" "month_start False 7 = 212"
  "month_start False 8 = 243" "month_start False 9 = 273" "month_start False 10 = 304" "month_start False 11 = 334"
  "month_start True 2 = 60" "month_start True 3 = 91" "month_start True 4 = 121" "month_start True 5 = 152"
  "month_start True 6 = 182" "month_start True 7 = 213" "month_start True 8 = 244" "month_start True 9 = 274"
  "month_start True 10 = 305" "month_start True 11 = 335"
  by (simp_all add: month_start_def)

lemma month_start_0: "month_start leap 0 = 0"
  by (simp add: month_start_def)

lemmas month_start_Suc = month_start_0 month_starts [unfolded eval_nat_numeral One_nat_def BitM.simps Suc_eq_plus1 [symmetric]]

definition month_fits :: "bool \<Rightarrow> int \<Rightarrow> bool" where
  "month_fits leap n \<longleftrightarrow> month_from_day leap n < 12 \<and> month_start leap (month_from_day leap n) \<le> n
     \<and> n - month_start leap (month_from_day leap n) < 31"

lemma months: "[1..<12 :: nat] = [1, 2, 3, 4, 5, 6, 7, 8, 9, 10, 11]"
  by code_simp

lemma month_fits_common:
  assumes "0 \<le> n" "n < 365"
  shows "month_fits False n"
proof -
  have "n < 31 \<or> 31 \<le> n \<and> n < 59 \<or> 59 \<le> n \<and> n < 90 \<or> 90 \<le> n \<and> n < 120 \<or> 120 \<le> n \<and> n < 151 \<or> 151 \<le> n \<and> n < 181
    \<or> 181 \<le> n \<and> n < 212 \<or> 212 \<le> n \<and> n < 243 \<or> 243 \<le> n \<and> n < 273 \<or> 273 \<le> n \<and> n < 304 \<or> 304 \<le> n \<and> n < 334 \<or> 334 \<le> n"
    by linarith
  then show ?thesis
    using assms unfolding month_fits_def month_from_day_def months
    by (elim disjE conjE) (simp_all add: month_starts month_start_Suc)
qed

lemma month_fits_leap:
  assumes "0 \<le> n" "n < 366"
  shows "month_fits True n"
proof -
  have "n < 31 \<or> 31 \<le> n \<and> n < 60 \<or> 60 \<le> n \<and> n < 91 \<or> 91 \<le> n \<and> n < 121 \<or> 121 \<le> n \<and> n < 152 \<or> 152 \<le> n \<and> n < 182
    \<or> 182 \<le> n \<and> n < 213 \<or> 213 \<le> n \<and> n < 244 \<or> 244 \<le> n \<and> n < 274 \<or> 274 \<le> n \<and> n < 305 \<or> 305 \<le> n \<and> n < 335 \<or> 335 \<le> n"
    by linarith
  then show ?thesis
    using assms unfolding month_fits_def month_from_day_def months
    by (elim disjE conjE) (simp_all add: month_starts month_start_Suc)
qed

lemma month_from_day_correct:
  assumes "0 \<le> n" "n < (if leap then 366 else 365)"
  shows "month_from_day leap n < 12" "month_start leap (month_from_day leap n) \<le> n"
    and "n - month_start leap (month_from_day leap n) < 31"
  using assms month_fits_common [of n] month_fits_leap [of n] by (cases leap; simp add: month_fits_def)+

subsection \<open>Digits\<close>

lemma length_fixed [simp]: "length (fixed k n) = k"
  by (induction k arbitrary: n) simp_all

lemma fixed_digits: "list_all is_digit (fixed k n)"
proof (induction k arbitrary: n)
  case (Suc k)
  have "is_digit (digit_char (n mod 10))" by (simp add: is_digit_iff)
  with Suc show ?case by simp
qed simp

lemma radix_val_fixed: "0 \<le> n \<Longrightarrow> n < 10 ^ k \<Longrightarrow> radix_val 10 (fixed k n) = n"
proof (induction k arbitrary: n)
  case (Suc k)
  then have "n div 10 < 10 ^ k" by simp
  with Suc have "radix_val 10 (fixed k (n div 10)) = n div 10" by simp
  then show ?case by (simp add: radix_val_append)
qed simp

lemma take_int_fixed [simp]: "0 \<le> n \<Longrightarrow> n < 10 ^ k \<Longrightarrow> take_int k (fixed k n @ r) = Some (n, r)"
  by (simp add: take_int_def fixed_digits radix_val_fixed)

lemma take_char_Cons [simp]: "take_char c (c # r) = Some r"
  by (simp add: take_char_def)

lemma take_year_iso:
  assumes "\<bar>y\<bar> < 1000000"
  shows "take_year (iso_year y @ r) = Some (y, r)"
proof (cases "0 \<le> y \<and> y \<le> 9999")
  case True
  obtain c s where s: "fixed 4 y = c # s" by (cases "fixed 4 y") (auto dest: arg_cong [of _ _ length])
  with fixed_digits [of 4 y] have "is_digit c" by simp
  moreover have "\<not> is_digit CHR ''+''" "\<not> is_digit CHR ''-''" by code_simp+
  ultimately have "c \<noteq> CHR ''+''" "c \<noteq> CHR ''-''" by blast+
  with s have "take_year (fixed 4 y @ r) = take_int 4 (fixed 4 y @ r)" by (simp add: take_year_def)
  with True show ?thesis by (simp add: iso_year_def)
next
  case False
  with assms show ?thesis by (auto simp: iso_year_def take_year_def)
qed

subsection \<open>The round trip\<close>

lemma year_of_time:
  assumes "\<bar>ms\<bar> \<le> MAX_TIME"
  shows "\<bar>year_from_day (ms div 86400000)\<bar> < 1000000"
proof -
  let ?d = "ms div 86400000"
  have d: "- 100000000 \<le> ?d" "?d \<le> 100000000" using assms floor_bounds [of 86400000 ms, OF zero_less_numeral] unfolding MAX_TIME_def by linarith+
  have "146097 * (year_from_day ?d - 1970) - 506 \<le> 400 * ?d"
    using day_from_year_bounds(1) [of "year_from_day ?d"] year_from_day_correct(1) [of ?d] by linarith
  moreover have "400 * ?d < 146097 * (year_from_day ?d + 1 - 1970) + 589"
    using day_from_year_bounds(2) [of "year_from_day ?d + 1"] year_from_day_correct(2) [of ?d] by linarith
  ultimately show ?thesis using d by (simp add: abs_less_iff)
qed

lemma date_parse_fields:
  assumes "\<bar>y\<bar> < 1000000" "1 \<le> mo" "mo \<le> 12" "1 \<le> da" "da \<le> 31" "0 \<le> h" "h \<le> 23" "0 \<le> mi" "mi \<le> 59"
    "0 \<le> se" "se \<le> 59" "0 \<le> ml" "ml < 1000"
  shows "date_parse (iso_year y @ CHR ''-'' # fixed 2 mo @ CHR ''-'' # fixed 2 da @ CHR ''T'' # fixed 2 h
      @ CHR '':'' # fixed 2 mi @ CHR '':'' # fixed 2 se @ CHR ''.'' # fixed 3 ml @ ''Z'')
    = (let time = make_day y (nat (mo - 1)) da * 86400000 + ((h * 60 + mi) * 60 + se) * 1000 + ml in
       if \<bar>time\<bar> > MAX_TIME then None else Some time)"
proof -
  have p: "take_int 2 (fixed 2 v @ s) = Some (v, s)" if "0 \<le> v" "v \<le> 99" for v s using that by simp
  show ?thesis
    unfolding date_parse_def take_year_iso [OF assms(1)] take_millis_def using assms(2-) by (simp add: p del: fixed.simps)
qed

lemma date_parse_iso:
  assumes "\<bar>ms\<bar> \<le> MAX_TIME"
  shows "date_parse (iso_text ms) = Some ms"
proof -
  define d t where "d = ms div 86400000" and "t = ms mod 86400000"
  have ms: "ms = d * 86400000 + t" "0 \<le> t" "t < 86400000" by (simp_all add: d_def t_def)
  define y n where "y = year_from_day d" and "n = d - day_from_year y"
  define m where "m = month_from_day (leap_year y) n"
  have n: "0 \<le> n" "n < (if leap_year y then 366 else 365)"
    using year_from_day_correct [of d] year_length [of y] by (auto simp: n_def y_def)
  note mo = month_from_day_correct [OF n, folded m_def]
  have y: "\<bar>y\<bar> < 1000000" using year_of_time [OF assms] by (simp add: y_def d_def)
  let ?da = "n - month_start (leap_year y) m + 1" and ?h = "t div 3600000" and ?mi = "t div 60000 mod 60"
    and ?se = "t div 1000 mod 60" and ?ml = "t mod 1000"
  have r: "0 \<le> ?h" "?h \<le> 23" "0 \<le> ?mi" "?mi \<le> 59" "0 \<le> ?se" "?se \<le> 59" "0 \<le> ?ml" "?ml < 1000"
    using ms(2,3) floor_bounds [of 3600000 t, OF zero_less_numeral] by (simp_all add: pos_imp_zdiv_nonneg_iff)
  have da: "1 \<le> ?da" "?da \<le> 31" using mo by simp_all
  have time: "((?h * 60 + ?mi) * 60 + ?se) * 1000 + ?ml = t"
  proof -
    have e: "t div 60000 = t div 1000 div 60" "t div 3600000 = t div 1000 div 60 div 60"
      by (simp_all add: zdiv_zmult2_eq [symmetric])
    have sum: "a * 1000 + ml = t \<Longrightarrow> b * 60 + se = a \<Longrightarrow> h * 60 + mi = b \<Longrightarrow> ((h * 60 + mi) * 60 + se) * 1000 + ml = t"
      for a b h mi se ml :: int by simp
    show ?thesis unfolding e by (rule sum) (rule div_mult_mod_eq)+
  qed
  have day: "make_day y m ?da = d" by (simp add: make_day_def n_def)
  have shape: "iso_text ms = iso_year y @ CHR ''-'' # fixed 2 (int m + 1) @ CHR ''-'' # fixed 2 ?da
      @ CHR ''T'' # fixed 2 ?h @ CHR '':'' # fixed 2 ?mi @ CHR '':'' # fixed 2 ?se @ CHR ''.'' # fixed 3 ?ml @ ''Z''"
    by (simp only: iso_text_def Let_def d_def t_def y_def n_def m_def)
  have total: "make_day y (nat (int m + 1 - 1)) ?da * 86400000 + ((?h * 60 + ?mi) * 60 + ?se) * 1000 + ?ml = ms"
  proof -
    have "nat (int m + 1 - 1) = m" by simp
    then show ?thesis unfolding add.assoc [of "_ * 86400000"] time by (simp only: day ms(1) [symmetric])
  qed
  have "1 \<le> int m + 1" "int m + 1 \<le> 12" using mo(1) by simp_all
  from date_parse_fields [OF y this da r]
  have "date_parse (iso_text ms)
      = (let time = make_day y (nat (int m + 1 - 1)) ?da * 86400000 + ((?h * 60 + ?mi) * 60 + ?se) * 1000 + ?ml in
         if \<bar>time\<bar> > MAX_TIME then None else Some time)"
    unfolding shape .
  also have "\<dots> = Some ms"
    unfolding Let_def total using assms by simp
  finally show ?thesis .
qed

end
