(* ===== verification/JsDouble.thy ===== *)
theory JsDouble
  imports Prelude "HOL-Library.Log_Nat"
begin

text \<open>
  The fractions the code displays are double precision numbers.  \<open>double x\<close> is the double nearest to
  \<open>x\<close>, ties to even, for the normal numbers; the values of the code lie far from the smallest and
  the largest of them, so an operation on doubles is the operation on fractions followed by \<open>double\<close>.
\<close>

section \<open>Rounding\<close>

definition pow2 :: "int \<Rightarrow> rat" where
  "pow2 e = (if 0 \<le> e then 2 ^ nat e else 1 / 2 ^ nat (- e))"

text \<open>The integer nearest to a fraction, ties to even, and \<open>Math.round\<close>, ties up.\<close>

definition round_even :: "rat \<Rightarrow> int" where
  "round_even x =
     (let f = \<lfloor>x\<rfloor>; r = x - of_int f in
      if r < 1 / 2 \<or> r = 1 / 2 \<and> even f then f else f + 1)"

definition math_round :: "rat \<Rightarrow> int" where
  "math_round x = \<lfloor>x + 1 / 2\<rfloor>"

text \<open>The exponent of a positive fraction: the largest power of two below it.\<close>

definition exponent :: "rat \<Rightarrow> int" where
  "exponent x =
     (let (n, d) = quotient_of x; e = bitlen n - bitlen d in if pow2 e \<le> x then e else e - 1)"

definition double :: "rat \<Rightarrow> rat" where
  "double x =
     (if x = 0 then 0
      else let u = pow2 (exponent \<bar>x\<bar> - 52) in sgn x * (of_int (round_even (\<bar>x\<bar> / u)) * u))"

section \<open>Lemmas\<close>

lemma pow2_pos [simp]: "0 < pow2 e" "pow2 e \<noteq> 0"
  by (simp_all add: pow2_def)

lemma pow2_add: "pow2 (a + b) = pow2 a * pow2 b"
proof -
  have p: "pow2 (a + 1) = 2 * pow2 a" for a
  proof (cases "0 \<le> a")
    case True
    then show ?thesis by (simp add: pow2_def nat_add_distrib)
  next
    case False
    then have "nat (- a) = Suc (nat (- (a + 1)))" by linarith
    with False show ?thesis by (simp add: pow2_def)
  qed
  show ?thesis
  proof (induction b rule: int_induct [of _ 0])
    case (step1 i)
    then show ?case using p [of "a + i"] p [of i] by (simp add: add.assoc)
  next
    case (step2 i)
    then show ?case using p [of "a + (i - 1)"] p [of "i - 1"] by simp
  qed (simp add: pow2_def)
qed

lemma bitlen_pow2: "0 < n \<Longrightarrow> pow2 (bitlen n - 1) \<le> of_int n \<and> of_int n < pow2 (bitlen n)"
proof -
  assume n: "0 < n"
  then have b: "1 \<le> bitlen n" by (simp add: bitlen_alt_def)
  have "2 ^ nat (bitlen n - 1) \<le> n" "n < 2 ^ nat (bitlen n)" using bitlen_bounds [OF n] by blast+
  then have "of_int (2 ^ nat (bitlen n - 1)) \<le> (of_int n :: rat)" "(of_int n :: rat) < of_int (2 ^ nat (bitlen n))"
    by (simp_all only: of_int_le_iff of_int_less_iff)
  with b show ?thesis by (simp add: pow2_def)
qed

lemma exponent_le:
  assumes "0 < x"
  shows "pow2 (exponent x) \<le> x"
proof -
  obtain n d where q: "quotient_of x = (n, d)" by fastforce
  have d: "0 < d" using quotient_of_denom_pos [OF q] .
  have x: "x = of_int n / of_int d" using quotient_of_div [OF q] .
  have n: "0 < n" using assms d by (simp add: x zero_less_divide_iff)
  let ?e = "bitlen n - bitlen d"
  have "pow2 (?e - 1) * of_int d \<le> pow2 (?e - 1) * pow2 (bitlen d)"
    using bitlen_pow2 [OF d] by (intro mult_left_mono) (simp_all add: less_imp_le)
  also have "\<dots> = pow2 (bitlen n - 1)" by (simp add: pow2_add [symmetric])
  also have "\<dots> \<le> of_int n" using bitlen_pow2 [OF n] by blast
  finally have "pow2 (?e - 1) \<le> x" using d by (simp add: x pos_le_divide_eq)
  then show ?thesis by (simp add: exponent_def q Let_def)
qed

lemma round_even_near: "\<bar>of_int (round_even x) - x\<bar> \<le> 1 / 2"
proof -
  have "of_int \<lfloor>x\<rfloor> \<le> x" "x < of_int \<lfloor>x\<rfloor> + 1" by linarith+
  then show ?thesis by (auto simp: round_even_def Let_def abs_le_iff)
qed

text \<open>Rounding moves a value by less than one part in \<open>2 ^ 53\<close>.\<close>

lemma double_near:
  assumes "0 \<le> x"
  shows "\<bar>double x - x\<bar> \<le> x / 2 ^ 53" "0 \<le> double x"
proof -
  show near: "\<bar>double x - x\<bar> \<le> x / 2 ^ 53"
  proof (cases "x = 0")
    case False
    with assms have x: "0 < x" by simp
    let ?u = "pow2 (exponent x - 52)"
    have "?u * 2 ^ 52 = ?u * pow2 52" by (simp add: pow2_def)
    also have "\<dots> = pow2 (exponent x)" by (simp add: pow2_add [symmetric])
    also have "\<dots> \<le> x" using x by (rule exponent_le)
    finally have u: "?u \<le> x / 2 ^ 52" by simp
    have "double x - x = (of_int (round_even (x / ?u)) - x / ?u) * ?u"
      using x by (simp add: double_def Let_def algebra_simps)
    then have "\<bar>double x - x\<bar> = \<bar>of_int (round_even (x / ?u)) - x / ?u\<bar> * ?u"
      by (simp add: abs_mult abs_of_pos [OF pow2_pos(1)])
    also have "\<dots> \<le> 1 / 2 * ?u" using round_even_near by (intro mult_right_mono) (simp_all add: less_imp_le)
    also have "\<dots> \<le> x / 2 ^ 53" using u by simp
    finally show ?thesis .
  qed (simp add: double_def)
  show "0 \<le> double x"
    using assms near [unfolded abs_le_iff] by (simp add: field_simps)
qed

text \<open>A result below half a part is exactly the rounded fraction it comes from.\<close>

lemma math_round_between:
  assumes "of_int a - 1 / 2 \<le> x" "x < of_int b + 1 / 2"
  shows "a \<le> math_round x" "math_round x \<le> b"
  using assms unfolding math_round_def by linarith+

end
