(* ===== verification/MarketViews.thy ===== *)
theory MarketViews
  imports Indexer JsDate JsDouble
begin

text \<open>
  What the web shows of a market: its types and the catalogue of fixtures (\<open>web/lib/markets.ts\<close>), and
  the views the server builds from accounts (the decoders and builders of
  \<open>web/lib/solana/server-market.ts\<close>).

  Accounts arrive decoded by the coder of the program's interface.  Enumerations and large integers are
  those of the indexer; numbers of fixed width are integers.  The node, the coder, the hash, the clock
  and the locale of \<open>toLocaleString\<close> are parameters of \<open>web_env\<close>.
\<close>

section \<open>Types\<close>

datatype MarketStatus = Status_live | Status_upcoming | Status_settled

datatype TradingState =
    TS_open | TS_locked | TS_batched | TS_resolving | TS_disputed | TS_resolved | TS_refunding | TS_closed

datatype MarketCategory =
    Cat_Sports | Cat_Crypto | Cat_Economics | Cat_Politics | Cat_Technology | Cat_Culture | Cat_Science | Cat_Other

datatype ActivityKind = Kind_trade | Kind_lifecycle | Kind_resolution | Kind_settlement | Kind_liquidity

record MarketActivity =
  ac_signature :: string
  ac_slot :: int
  ac_timestamp :: "int option"
  ac_kind :: ActivityKind
  ac_title :: string
  ac_detail :: string
  ac_account :: "string option"
  ac_yesProbability :: "rat option"

record HybridOracleDetails =
  ho_sourceProgram :: string
  ho_sourceQueue :: string
  ho_sourceId :: string
  ho_comparator :: string
  ho_threshold :: string
  ho_thresholdExponent :: int
  ho_observationAt :: string
  ho_observationWindowSecs :: int
  ho_maxStalenessSecs :: int
  ho_maxStalenessSlots :: string
  ho_maxConfidenceBps :: int
  ho_minSamples :: int
  ho_challengePeriodSecs :: int
  ho_bondAmount :: string
  ho_consumed :: bool

record HybridResolutionReceipt =
  hr_outcome :: string
  hr_observationValue :: string
  hr_observationExponent :: int
  hr_observationAt :: string
  hr_observationSlot :: string
  hr_confidence :: string
  hr_sampleCount :: int
  hr_sourceAccount :: string
  hr_evidenceHash :: string
  hr_finalizedAt :: string

record HybridMarketDetails =
  hd_creator :: string
  hd_liquidityOwner :: string
  hd_treasuryOwner :: string
  hd_collateralMint :: string
  hd_oracleConfig :: string
  hd_resolverId :: string
  hd_metadataPublished :: bool
  hd_rules :: "string option"
  hd_yesLabel :: string
  hd_noLabel :: string
  hd_referenceUrl :: "string option"
  hd_questionHash :: string
  hd_rulesHash :: string
  hd_liquidityParameter :: string
  hd_yesQuantity :: string
  hd_noQuantity :: string
  hd_maxTradeShares :: string
  hd_tradeFeeBps :: int
  hd_treasuryFeeShareBps :: int
  hd_openAt :: string
  hd_resolveNotBefore :: string
  hd_resolutionDeadline :: string
  hd_settlementEvidenceHash :: string
  hd_outcome :: string
  hd_oracle :: HybridOracleDetails
  hd_receipt :: "HybridResolutionReceipt option"

record Market =
  mk_id :: string
  mk_address :: "string option"
  mk_marketId :: "string option"
  mk_fixtureId :: int
  mk_category :: MarketCategory
  mk_resolver :: string
  mk_competition :: string
  mk_question :: string
  mk_shortQuestion :: string
  mk_home :: string
  mk_homeCode :: string
  mk_away :: string
  mk_awayCode :: string
  mk_kickoff :: string
  mk_lockAt :: string
  mk_status :: MarketStatus
  mk_tradingState :: TradingState
  mk_minute :: "int option"
  mk_score :: "(int \<times> int) option"
  mk_yes :: int
  mk_volume :: rat
  mk_liquidity :: rat
  mk_traders :: int
  mk_privateStakeAmount :: "string option"
  mk_featured :: bool
  mk_replay :: bool
  mk_points :: "rat list"
  mk_hybrid :: "HybridMarketDetails option"
  mk_activity :: "MarketActivity list option"

section \<open>The catalogue\<close>

definition argentina_switzerland :: Market where
  "argentina_switzerland =
     \<lparr>mk_id = ''demo-txline-replay'', mk_address = None, mk_marketId = None, mk_fixtureId = 18222446,
      mk_category = Cat_Sports, mk_resolver = ''TxLINE'', mk_competition = ''World Cup Quarter-final'',
      mk_question = ''Will Argentina vs Switzerland finish with over 2.5 goals?'',
      mk_shortQuestion = ''Over 2.5 total goals'', mk_home = ''Argentina'', mk_homeCode = ''ARG'',
      mk_away = ''Switzerland'', mk_awayCode = ''SUI'', mk_kickoff = ''Final score replay'',
      mk_lockAt = ''2026-07-12T01:00:00Z'', mk_status = Status_settled, mk_tradingState = TS_resolved,
      mk_minute = Some 90, mk_score = Some (3, 1), mk_yes = 100, mk_volume = 63, mk_liquidity = double (6237 / 100),
      mk_traders = 4, mk_privateStakeAmount = Some ''100000000'', mk_featured = True, mk_replay = True,
      mk_points = [48, 49, 47, 51, 54, 58, 61, 66, 74, 82, 100, 100], mk_hybrid = None, mk_activity = None\<rparr>"

definition spain_argentina :: Market where
  "spain_argentina =
     \<lparr>mk_id = ''spain-argentina-final-total'', mk_address = None, mk_marketId = None, mk_fixtureId = 18257739,
      mk_category = Cat_Sports, mk_resolver = ''TxLINE'', mk_competition = ''World Cup Final'',
      mk_question = ''Will Spain vs Argentina finish with over 2.5 goals?'',
      mk_shortQuestion = ''Over 2.5 total goals'', mk_home = ''Spain'', mk_homeCode = ''ESP'',
      mk_away = ''Argentina'', mk_awayCode = ''ARG'', mk_kickoff = ''Jul 19, 19:00 UTC'',
      mk_lockAt = ''2026-07-19T19:00:00Z'', mk_status = Status_upcoming, mk_tradingState = TS_open,
      mk_minute = None, mk_score = None, mk_yes = 52, mk_volume = 0, mk_liquidity = 0, mk_traders = 0,
      mk_privateStakeAmount = None, mk_featured = False, mk_replay = False, mk_points = [50, 51, 50, 52, 51, 52],
      mk_hybrid = None, mk_activity = None\<rparr>"

definition france_morocco :: Market where
  "france_morocco =
     \<lparr>mk_id = ''france-morocco-quarter-final'', mk_address = None, mk_marketId = None, mk_fixtureId = 18209181,
      mk_category = Cat_Sports, mk_resolver = ''TxLINE'', mk_competition = ''World Cup Quarter-final'',
      mk_question = ''Did France vs Morocco finish with over 2.5 goals?'',
      mk_shortQuestion = ''Over 2.5 total goals'', mk_home = ''France'', mk_homeCode = ''FRA'',
      mk_away = ''Morocco'', mk_awayCode = ''MAR'', mk_kickoff = ''Final score replay'',
      mk_lockAt = ''2026-07-09T20:00:00Z'', mk_status = Status_settled, mk_tradingState = TS_resolved,
      mk_minute = Some 90, mk_score = Some (2, 0), mk_yes = 0, mk_volume = 0, mk_liquidity = 0, mk_traders = 0,
      mk_privateStakeAmount = None, mk_featured = False, mk_replay = True, mk_points = [46, 44, 41, 37, 30, 18, 0],
      mk_hybrid = None, mk_activity = None\<rparr>"

definition spain_belgium :: Market where
  "spain_belgium =
     \<lparr>mk_id = ''spain-belgium-quarter-final'', mk_address = None, mk_marketId = None, mk_fixtureId = 18218149,
      mk_category = Cat_Sports, mk_resolver = ''TxLINE'', mk_competition = ''World Cup Quarter-final'',
      mk_question = ''Did Spain vs Belgium finish with over 2.5 goals?'',
      mk_shortQuestion = ''Over 2.5 total goals'', mk_home = ''Spain'', mk_homeCode = ''ESP'',
      mk_away = ''Belgium'', mk_awayCode = ''BEL'', mk_kickoff = ''Final score replay'',
      mk_lockAt = ''2026-07-10T19:00:00Z'', mk_status = Status_settled, mk_tradingState = TS_resolved,
      mk_minute = Some 90, mk_score = Some (2, 1), mk_yes = 100, mk_volume = 0, mk_liquidity = 0, mk_traders = 0,
      mk_privateStakeAmount = None, mk_featured = False, mk_replay = True, mk_points = [48, 50, 53, 58, 67, 76, 100],
      mk_hybrid = None, mk_activity = None\<rparr>"

definition norway_england :: Market where
  "norway_england =
     \<lparr>mk_id = ''norway-england-quarter-final'', mk_address = None, mk_marketId = None, mk_fixtureId = 18213979,
      mk_category = Cat_Sports, mk_resolver = ''TxLINE'', mk_competition = ''World Cup Quarter-final'',
      mk_question = ''Did Norway vs England finish with over 2.5 goals?'',
      mk_shortQuestion = ''Over 2.5 total goals'', mk_home = ''Norway'', mk_homeCode = ''NOR'',
      mk_away = ''England'', mk_awayCode = ''ENG'', mk_kickoff = ''Final score replay'',
      mk_lockAt = ''2026-07-11T21:00:00Z'', mk_status = Status_settled, mk_tradingState = TS_resolved,
      mk_minute = Some 90, mk_score = Some (1, 2), mk_yes = 100, mk_volume = 0, mk_liquidity = 0, mk_traders = 0,
      mk_privateStakeAmount = None, mk_featured = False, mk_replay = True, mk_points = [49, 51, 48, 57, 64, 79, 100],
      mk_hybrid = None, mk_activity = None\<rparr>"

definition markets :: "Market list" where
  "markets = [argentina_switzerland, spain_argentina, france_morocco, spain_belgium, norway_england]"

definition getMarket :: "string \<Rightarrow> Market option" where
  "getMarket i = find (\<lambda>market. mk_id market = i) markets"

text \<open>\<open>Date.parse\<close> of another text is \<open>NaN\<close>, which compares as false.\<close>

definition is_before :: "int \<Rightarrow> string \<Rightarrow> bool" where
  "is_before now instant = (case date_parse instant of None \<Rightarrow> False | Some t \<Rightarrow> now < t)"

definition is_reached :: "int \<Rightarrow> string \<Rightarrow> bool" where
  "is_reached now instant = (case date_parse instant of None \<Rightarrow> False | Some t \<Rightarrow> t \<le> now)"

definition canPlaceOrder :: "Market \<Rightarrow> int \<Rightarrow> bool" where
  "canPlaceOrder market now \<longleftrightarrow> mk_tradingState market = TS_open \<and> is_before now (mk_lockAt market)"

fun state_label :: "TradingState \<Rightarrow> string" where
  "state_label TS_open = ''Open''"
| "state_label TS_locked = ''Locked''"
| "state_label TS_batched = ''Batched''"
| "state_label TS_resolving = ''Resolving''"
| "state_label TS_disputed = ''Disputed''"
| "state_label TS_resolved = ''Resolved''"
| "state_label TS_refunding = ''Refunding''"
| "state_label TS_closed = ''Closed''"

definition tradingStateLabel :: "Market \<Rightarrow> int \<Rightarrow> string" where
  "tradingStateLabel market now =
     (if mk_tradingState market = TS_open \<and> is_reached now (mk_lockAt market) then ''Locked''
      else state_label (mk_tradingState market))"

section \<open>Accounts\<close>

record MarketAccount =
  ma_market_id :: IntegerLike
  ma_authority :: pubkey
  ma_fixture_id :: IntegerLike
  ma_market_mode :: EnumLike
  ma_fixture_start_ts :: IntegerLike
  ma_total_goals_threshold :: int
  ma_stake_amount :: IntegerLike
  ma_lock_ts :: IntegerLike
  ma_phase :: EnumLike
  ma_order_count :: int
  ma_outcome :: int
  ma_gross_pool :: IntegerLike
  ma_net_pool :: IntegerLike
  ma_yes_amount :: IntegerLike
  ma_no_amount :: IntegerLike
  ma_score_a :: int
  ma_score_b :: int

record HybridMarketAccount =
  hy_market_id :: IntegerLike
  hy_creator :: pubkey
  hy_liquidity_owner :: pubkey
  hy_category :: EnumLike
  hy_question_hash :: "int list"
  hy_rules_hash :: "int list"
  hy_outcome_labels_hash :: "int list"
  hy_collateral_mint :: pubkey
  hy_treasury_owner :: pubkey
  hy_oracle_config :: pubkey
  hy_liquidity_parameter :: IntegerLike
  hy_max_trade_shares :: IntegerLike
  hy_yes_quantity :: IntegerLike
  hy_no_quantity :: IntegerLike
  hy_trade_fee_bps :: int
  hy_treasury_fee_share_bps :: int
  hy_open_ts :: IntegerLike
  hy_lock_ts :: IntegerLike
  hy_resolve_not_before_ts :: IntegerLike
  hy_resolution_deadline_ts :: IntegerLike
  hy_phase :: EnumLike
  hy_outcome :: int
  hy_trade_count :: IntegerLike
  hy_volume :: IntegerLike
  hy_settlement_evidence_hash :: "int list"

record OracleConfigAccount =
  oc_market :: pubkey
  oc_resolver :: EnumLike
  oc_source_program :: pubkey
  oc_source_queue :: pubkey
  oc_source_id :: "int list"
  oc_comparator :: EnumLike
  oc_threshold :: IntegerLike
  oc_threshold_exponent :: int
  oc_observation_ts :: IntegerLike
  oc_observation_window_secs :: int
  oc_max_staleness_secs :: int
  oc_max_staleness_slots :: IntegerLike
  oc_max_confidence_bps :: int
  oc_min_samples :: int
  oc_challenge_period_secs :: int
  oc_bond_amount :: IntegerLike
  oc_consumed :: bool

record HybridMetadataAccount =
  me_market :: pubkey
  me_creator :: pubkey
  me_question :: string
  me_rules :: string
  me_yes_label :: string
  me_no_label :: string
  me_reference_url :: string

record ResolutionReceiptAccount =
  re_market :: pubkey
  re_outcome :: int
  re_observation_value :: IntegerLike
  re_observation_exponent :: int
  re_observation_ts :: IntegerLike
  re_observation_slot :: IntegerLike
  re_confidence :: IntegerLike
  re_sample_count :: int
  re_source_account :: pubkey
  re_evidence_hash :: "int list"
  re_finalized_at :: IntegerLike

record PositionAccount =
  po_market :: pubkey
  po_owner :: pubkey

record AccountInfo =
  ai_owner :: pubkey
  ai_data :: "byte list"

record HybridSupportAccounts =
  su_oracle :: "AccountInfo option"
  su_metadata :: "AccountInfo option"
  su_receipt :: "AccountInfo option"
  su_vault :: "AccountInfo option"

text \<open>
  The values of an event: a number or an object by its text, an address, \<open>null\<close> or a missing field, and
  the rest; and the transactions of a market, where a transaction without metadata counts as failed.
\<close>

datatype event_value = EV_number IntegerLike | EV_address string | EV_null | EV_other

type_synonym event_data = "(string, event_value) jsmap"

record SignatureInfo =
  sg_signature :: string
  sg_blockTime :: "int option"

record TransactionInfo =
  ti_failed :: bool
  ti_logMessages :: "string list option"
  ti_signatures :: "string list"
  ti_slot :: int
  ti_blockTime :: "int option"

record 'x web_env =
  we_program :: pubkey
  we_toBase58 :: "pubkey \<Rightarrow> string"
  we_publicKey :: "string \<Rightarrow> pubkey option"
  we_sha256 :: "byte list \<Rightarrow> byte list"
  we_derive :: derivation
  we_now :: "('x, int) outside"
  we_localeTime :: "int \<Rightarrow> bool \<Rightarrow> string"
  we_decodeMarket :: "byte list \<Rightarrow> MarketAccount option"
  we_decodeHybrid :: "byte list \<Rightarrow> HybridMarketAccount option"
  we_decodeOracle :: "byte list \<Rightarrow> OracleConfigAccount option"
  we_decodeMetadata :: "byte list \<Rightarrow> HybridMetadataAccount option"
  we_decodeReceipt :: "byte list \<Rightarrow> ResolutionReceiptAccount option"
  we_decodePosition :: "byte list \<Rightarrow> PositionAccount option"
  we_span :: nat
  we_decodeAmount :: "byte list \<Rightarrow> int option"
  we_decodeEvent :: "string \<Rightarrow> (string \<times> event_data) option res"
  we_programAccounts :: "('x, (pubkey \<times> AccountInfo) list) outside"
  we_positionAccounts :: "pubkey \<Rightarrow> ('x, pubkey list) outside"
  we_multipleAccounts :: "pubkey list \<Rightarrow> ('x, AccountInfo option list) outside"
  we_account :: "pubkey \<Rightarrow> ('x, AccountInfo option) outside"
  we_signatures :: "pubkey \<Rightarrow> int \<Rightarrow> ('x, SignatureInfo list) outside"
  we_transactions :: "string list \<Rightarrow> ('x, TransactionInfo option list) outside"

section \<open>Values\<close>

definition integer_of :: "IntegerLike \<Rightarrow> int res" where
  "integer_of v = js_BigInt (like_string v)"

definition safeNumber :: "IntegerLike \<Rightarrow> string \<Rightarrow> int res" where
  "safeNumber v label =
     rbind (integer_of v) (\<lambda>parsed.
       if \<not> safe_int parsed then Inl (Error (label @ '' exceeds the safe integer range'')) else Inr parsed)"

definition tokenNumber :: "IntegerLike \<Rightarrow> rat res" where
  "tokenNumber v = rbind (integer_of v) (\<lambda>i. Inr (double (double (of_int i) / 1000000)))"

text \<open>
  A product above \<open>2 ^ 53\<close> is rounded, but no such time is one of the language's, so that the error is
  the same.
\<close>

definition dateFromSeconds :: "IntegerLike \<Rightarrow> string res" where
  "dateFromSeconds v = rbind (safeNumber v ''timestamp'') (\<lambda>seconds. toISOString (seconds * 1000))"

definition bytesHex :: "int list \<Rightarrow> string" where
  "bytesHex v = bytes_hex (buffer_from v)"

definition enumKey :: "EnumLike \<Rightarrow> string" where
  "enumKey v =
     toLowerCase (filter (\<lambda>c. c \<noteq> CHR ''_'') (case first_key v of Some k \<Rightarrow> k | None \<Rightarrow> []))"

definition privatePoolPhase :: "EnumLike \<Rightarrow> TradingState option" where
  "privatePoolPhase v =
     map_of [(''open'', TS_open), (''batched'', TS_batched), (''resolved'', TS_resolved),
       (''refunding'', TS_refunding), (''closed'', TS_closed)] (enumKey v)"

definition hybridPhase :: "EnumLike \<Rightarrow> TradingState option" where
  "hybridPhase v =
     map_of [(''open'', TS_open), (''locked'', TS_locked), (''resolving'', TS_resolving),
       (''disputed'', TS_disputed), (''resolved'', TS_resolved), (''closed'', TS_closed)] (enumKey v)"

definition categoryName :: "EnumLike \<Rightarrow> MarketCategory option" where
  "categoryName v =
     map_of [(''sports'', Cat_Sports), (''crypto'', Cat_Crypto), (''politics'', Cat_Politics),
       (''technology'', Cat_Technology), (''culture'', Cat_Culture), (''other'', Cat_Other),
       (''economics'', Cat_Economics), (''science'', Cat_Science)] (enumKey v)"

text \<open>The identifier and the label of a resolver.\<close>

definition resolverName :: "EnumLike \<Rightarrow> (string \<times> string) option" where
  "resolverName v =
     map_of [(''txlinestat'', ''txline-stat'', ''TxLINE''), (''pythprice'', ''pyth-price'', ''Pyth''),
       (''switchboardquote'', ''switchboard-quote'', ''Switchboard''), (''storkprice'', ''stork-price'', ''Stork''),
       (''optimistic'', ''optimistic'', ''Bonded''), (''umawormhole'', ''uma-wormhole'', ''UMA''),
       (''chainlinkreport'', ''chainlink-report'', ''Chainlink'')] (enumKey v)"

definition comparatorName :: "EnumLike \<Rightarrow> string option" where
  "comparatorName v =
     map_of [(''greaterthan'', ''greater-than''), (''greaterthanorequal'', ''greater-than-or-equal''),
       (''lessthan'', ''less-than''), (''lessthanorequal'', ''less-than-or-equal''), (''equal'', ''equal'')] (enumKey v)"

definition verifiedQuestion :: "'x web_env \<Rightarrow> string option \<Rightarrow> int list \<Rightarrow> string option" where
  "verifiedQuestion E candidate h =
     (case candidate of
        None \<Rightarrow> None
      | Some q \<Rightarrow> if q = [] then None else if we_sha256 E (utf8 q) = buffer_from h then Some q else None)"

definition verifiedMetadata ::
    "'x web_env \<Rightarrow> HybridMetadataAccount \<Rightarrow> HybridMarketAccount \<Rightarrow> pubkey \<Rightarrow> HybridMetadataAccount option" where
  "verifiedMetadata E account market address =
     (if me_market account \<noteq> address \<or> me_creator account \<noteq> hy_creator market then None
      else if we_sha256 E (utf8 (me_question account)) = buffer_from (hy_question_hash market)
        \<and> we_sha256 E (utf8 (me_rules account)) = buffer_from (hy_rules_hash market)
        \<and> we_sha256 E (utf8 (me_yes_label account @ [LF] @ me_no_label account)) = buffer_from (hy_outcome_labels_hash market)
      then Some account else None)"

definition outcomeName :: "int \<Rightarrow> string option" where
  "outcomeName v = (if 0 \<le> v \<and> v < 4 then Some ([''no'', ''yes'', ''invalid'', ''unset''] ! nat v) else None)"

fun category_text :: "MarketCategory \<Rightarrow> string" where
  "category_text Cat_Sports = ''Sports''"
| "category_text Cat_Crypto = ''Crypto''"
| "category_text Cat_Economics = ''Economics''"
| "category_text Cat_Politics = ''Politics''"
| "category_text Cat_Technology = ''Technology''"
| "category_text Cat_Culture = ''Culture''"
| "category_text Cat_Science = ''Science''"
| "category_text Cat_Other = ''Other''"

fun categoryCode :: "MarketCategory \<Rightarrow> string" where
  "categoryCode Cat_Sports = ''SPT''"
| "categoryCode Cat_Crypto = ''CRY''"
| "categoryCode Cat_Politics = ''POL''"
| "categoryCode Cat_Technology = ''TEC''"
| "categoryCode Cat_Culture = ''CUL''"
| "categoryCode Cat_Other = ''MKT''"
| "categoryCode Cat_Economics = ''ECO''"
| "categoryCode Cat_Science = ''SCI''"

definition decodeAccount :: "'x web_env \<Rightarrow> (byte list \<Rightarrow> 'a option) \<Rightarrow> AccountInfo option \<Rightarrow> 'a option" where
  "decodeAccount E decode info =
     (case info of None \<Rightarrow> None | Some i \<Rightarrow> if ai_owner i \<noteq> we_program E then None else decode (ai_data i))"

definition vaultBalance :: "'x web_env \<Rightarrow> AccountInfo option \<Rightarrow> int" where
  "vaultBalance E info =
     (case info of
        None \<Rightarrow> 0
      | Some i \<Rightarrow> if length (ai_data i) < we_span E then 0
          else case we_decodeAmount E (ai_data i) of None \<Rightarrow> 0 | Some a \<Rightarrow> a)"

section \<open>Views\<close>

text \<open>The clock is read where the code reads it.\<close>

definition shown_state :: "'x web_env \<Rightarrow> TradingState \<Rightarrow> string \<Rightarrow> ('x, TradingState) outside" where
  "shown_state E tradingState lockAt =
     (if tradingState = TS_open
      then io_bind (we_now E) (\<lambda>now. io_return (if is_reached now lockAt then TS_locked else tradingState))
      else io_return tradingState)"

definition shown_status :: "'x web_env \<Rightarrow> bool \<Rightarrow> string \<Rightarrow> ('x, MarketStatus) outside" where
  "shown_status E resolved instant =
     (if resolved then io_return Status_settled
      else io_bind (we_now E) (\<lambda>now. io_return (if is_before now instant then Status_upcoming else Status_live)))"

text \<open>\<open>total_goals_threshold + 0.5\<close>, printed.\<close>

definition half_text :: "int \<Rightarrow> string" where
  "half_text n = (if 0 \<le> n then int_str n @ ''.5'' else CHR ''-'' # int_str (- n - 1) @ ''.5'')"

definition local_time :: "'x web_env \<Rightarrow> int \<Rightarrow> bool \<Rightarrow> string" where
  "local_time E ms zone = (if \<bar>ms\<bar> > MAX_TIME then ''Invalid Date'' else we_localeTime E ms zone)"

definition is_resolved :: "TradingState \<Rightarrow> bool" where
  "is_resolved s \<longleftrightarrow> s = TS_resolved \<or> s = TS_closed"

definition buildPrivateMarket :: "'x web_env \<Rightarrow> string \<Rightarrow> MarketAccount \<Rightarrow> ('x, Market option) outside" where
  "buildPrivateMarket E v account =
     (case privatePoolPhase (ma_phase account) of
        None \<Rightarrow> io_return None
      | Some tradingState \<Rightarrow>
          io_bind (io_lift (safeNumber (ma_fixture_id account) ''fixture ID'')) (\<lambda>fixtureId.
          let template = find (\<lambda>market. mk_fixtureId market = fixtureId) markets;
              from_template = (\<lambda>f other. case template of Some m \<Rightarrow> f m | None \<Rightarrow> other);
              threshold = half_text (ma_total_goals_threshold account);
              resolved = is_resolved tradingState;
              replay = (enumKey (ma_market_mode account) = ''replay'');
              home = from_template mk_home ''Participant one'';
              away = from_template mk_away ''Participant two''
          in
          io_bind (io_lift (dateFromSeconds (ma_lock_ts account))) (\<lambda>lockAt.
          io_bind (shown_state E tradingState lockAt) (\<lambda>effectiveTradingState.
          io_bind (io_lift (integer_of (ma_gross_pool account))) (\<lambda>grossPool.
          io_bind (io_lift (integer_of (ma_yes_amount account))) (\<lambda>yesAmount.
          io_bind (io_lift (integer_of (ma_no_amount account))) (\<lambda>noAmount.
          io_bind (case template of
              Some m \<Rightarrow> io_return (mk_kickoff m)
            | None \<Rightarrow> io_bind (io_lift (safeNumber (ma_fixture_start_ts account) ''fixture start'')) (\<lambda>start.
                io_return (local_time E (start * 1000) False))) (\<lambda>kickoff.
          io_bind (shown_status E resolved lockAt) (\<lambda>status.
          io_bind (io_lift (tokenNumber (Bigint_like (if grossPool > 0 then grossPool else yesAmount + noAmount)))) (\<lambda>volume.
          io_bind (io_lift (tokenNumber (ma_net_pool account))) (\<lambda>liquidity.
            io_return (Some
              \<lparr>mk_id = v, mk_address = Some v, mk_marketId = Some (like_string (ma_market_id account)),
               mk_fixtureId = fixtureId, mk_category = Cat_Sports, mk_resolver = ''TxLINE'',
               mk_competition = from_template mk_competition ''TxLINE covered fixture'',
               mk_question = ''Will '' @ home @ '' vs '' @ away @ '' finish with over '' @ threshold @ '' goals?'',
               mk_shortQuestion = ''Over '' @ threshold @ '' total goals'', mk_home = home,
               mk_homeCode = from_template mk_homeCode ''ONE'', mk_away = away,
               mk_awayCode = from_template mk_awayCode ''TWO'', mk_kickoff = kickoff, mk_lockAt = lockAt,
               mk_status = status, mk_tradingState = effectiveTradingState, mk_minute = None,
               mk_score = (if resolved then Some (ma_score_a account, ma_score_b account) else None),
               mk_yes = (if resolved then ma_outcome account * 100 else 50), mk_volume = volume,
               mk_liquidity = liquidity, mk_traders = ma_order_count account,
               mk_privateStakeAmount = Some (like_string (ma_stake_amount account)), mk_featured = False,
               mk_replay = replay, mk_points = [50, 50], mk_hybrid = None, mk_activity = None\<rparr>))))))))))))"

definition oracle_details :: "'x web_env \<Rightarrow> OracleConfigAccount \<Rightarrow> string \<Rightarrow> string \<Rightarrow> HybridOracleDetails" where
  "oracle_details E oracle comparator observationAt =
     \<lparr>ho_sourceProgram = we_toBase58 E (oc_source_program oracle), ho_sourceQueue = we_toBase58 E (oc_source_queue oracle),
      ho_sourceId = bytesHex (oc_source_id oracle), ho_comparator = comparator,
      ho_threshold = like_string (oc_threshold oracle), ho_thresholdExponent = oc_threshold_exponent oracle,
      ho_observationAt = observationAt, ho_observationWindowSecs = oc_observation_window_secs oracle,
      ho_maxStalenessSecs = oc_max_staleness_secs oracle,
      ho_maxStalenessSlots = like_string (oc_max_staleness_slots oracle),
      ho_maxConfidenceBps = oc_max_confidence_bps oracle, ho_minSamples = oc_min_samples oracle,
      ho_challengePeriodSecs = oc_challenge_period_secs oracle, ho_bondAmount = like_string (oc_bond_amount oracle),
      ho_consumed = oc_consumed oracle\<rparr>"

definition receipt_details ::
    "'x web_env \<Rightarrow> ResolutionReceiptAccount option \<Rightarrow> HybridResolutionReceipt option res" where
  "receipt_details E receipt =
     (case receipt of
        None \<Rightarrow> Inr None
      | Some r \<Rightarrow>
          (case outcomeName (re_outcome r) of
             None \<Rightarrow> Inr None
           | Some outcome \<Rightarrow>
               if outcome = ''unset'' then Inr None
               else
                 rbind (dateFromSeconds (re_observation_ts r)) (\<lambda>observationAt.
                 rbind (dateFromSeconds (re_finalized_at r)) (\<lambda>finalizedAt.
                   Inr (Some
                     \<lparr>hr_outcome = outcome, hr_observationValue = like_string (re_observation_value r),
                      hr_observationExponent = re_observation_exponent r, hr_observationAt = observationAt,
                      hr_observationSlot = like_string (re_observation_slot r),
                      hr_confidence = like_string (re_confidence r), hr_sampleCount = re_sample_count r,
                      hr_sourceAccount = we_toBase58 E (re_source_account r),
                      hr_evidenceHash = bytesHex (re_evidence_hash r), hr_finalizedAt = finalizedAt\<rparr>)))))"

record HybridInput =
  hi_address :: pubkey
  hi_account :: HybridMarketAccount
  hi_support :: HybridSupportAccounts
  hi_traderCount :: int
  hi_questionCandidate :: "string option"

definition upper_ascii :: "char \<Rightarrow> char" where
  "upper_ascii c = (if 97 \<le> char_code c \<and> char_code c \<le> 122 then code_char (char_code c - 32) else c)"

definition hybrid_details ::
    "'x web_env \<Rightarrow> HybridMarketAccount \<Rightarrow> OracleConfigAccount \<Rightarrow> HybridMetadataAccount option
     \<Rightarrow> ResolutionReceiptAccount option \<Rightarrow> string \<Rightarrow> string \<Rightarrow> string \<Rightarrow> int \<Rightarrow> int \<Rightarrow> int \<Rightarrow> HybridMarketDetails res" where
  "hybrid_details E account oracle metadata receipt resolverId comparator outcome liquidityParameter yesQuantity noQuantity =
     rbind (dateFromSeconds (hy_open_ts account)) (\<lambda>openAt.
     rbind (dateFromSeconds (hy_resolve_not_before_ts account)) (\<lambda>resolveNotBefore.
     rbind (dateFromSeconds (hy_resolution_deadline_ts account)) (\<lambda>resolutionDeadline.
     rbind (dateFromSeconds (oc_observation_ts oracle)) (\<lambda>observationAt.
     rbind (receipt_details E receipt) (\<lambda>receiptDetails.
       Inr
         \<lparr>hd_creator = we_toBase58 E (hy_creator account), hd_liquidityOwner = we_toBase58 E (hy_liquidity_owner account),
          hd_treasuryOwner = we_toBase58 E (hy_treasury_owner account),
          hd_collateralMint = we_toBase58 E (hy_collateral_mint account),
          hd_oracleConfig = we_toBase58 E (hy_oracle_config account), hd_resolverId = resolverId,
          hd_metadataPublished = (metadata \<noteq> None),
          hd_rules = map_option me_rules metadata,
          hd_yesLabel = (case metadata of Some m \<Rightarrow> me_yes_label m | None \<Rightarrow> ''YES''),
          hd_noLabel = (case metadata of Some m \<Rightarrow> me_no_label m | None \<Rightarrow> ''NO''),
          hd_referenceUrl = (case metadata of Some m \<Rightarrow> if me_reference_url m = [] then None else Some (me_reference_url m)
            | None \<Rightarrow> None),
          hd_questionHash = bytesHex (hy_question_hash account), hd_rulesHash = bytesHex (hy_rules_hash account),
          hd_liquidityParameter = int_str liquidityParameter, hd_yesQuantity = int_str yesQuantity,
          hd_noQuantity = int_str noQuantity, hd_maxTradeShares = like_string (hy_max_trade_shares account),
          hd_tradeFeeBps = hy_trade_fee_bps account, hd_treasuryFeeShareBps = hy_treasury_fee_share_bps account,
          hd_openAt = openAt, hd_resolveNotBefore = resolveNotBefore, hd_resolutionDeadline = resolutionDeadline,
          hd_settlementEvidenceHash = bytesHex (hy_settlement_evidence_hash account), hd_outcome = outcome,
          hd_oracle = oracle_details E oracle comparator observationAt, hd_receipt = receiptDetails\<rparr>)))))"

definition shown_question ::
    "'x web_env \<Rightarrow> HybridMetadataAccount option \<Rightarrow> string option \<Rightarrow> HybridMarketAccount \<Rightarrow> string" where
  "shown_question E metadata candidate account =
     (case metadata of
        Some m \<Rightarrow> me_question m
      | None \<Rightarrow>
          (case verifiedQuestion E candidate (hy_question_hash account) of
             Some q \<Rightarrow> q
           | None \<Rightarrow> ''Verified market '' @ take 8 (bytesHex (hy_question_hash account))))"

text \<open>The view once the accounts are decoded and identified.\<close>

definition hybrid_view ::
    "'x web_env \<Rightarrow> HybridInput \<Rightarrow> TradingState \<Rightarrow> MarketCategory \<Rightarrow> string \<Rightarrow> OracleConfigAccount
     \<Rightarrow> string \<times> string \<Rightarrow> string \<Rightarrow> ('x, Market) outside" where
  "hybrid_view E input tradingState category outcome oracle resolver comparator =
     (let address = hi_address input; account = hi_account input; support = hi_support input;
          metadata = Option.bind (decodeAccount E (we_decodeMetadata E) (su_metadata support))
            (\<lambda>m. verifiedMetadata E m account address);
          receipt = Option.bind (decodeAccount E (we_decodeReceipt E) (su_receipt support))
            (\<lambda>r. if re_market r = address then Some r else None)
      in
      io_bind (io_lift (integer_of (hy_yes_quantity account))) (\<lambda>yesQuantity.
      io_bind (io_lift (integer_of (hy_no_quantity account))) (\<lambda>noQuantity.
      io_bind (io_lift (integer_of (hy_liquidity_parameter account))) (\<lambda>liquidityParameter.
      io_bind (io_lift (lmsrYesProbability \<lparr>qyes = yesQuantity, qno = noQuantity\<rparr> liquidityParameter)) (\<lambda>probability.
      let question = shown_question E metadata (hi_questionCandidate input) account;
          yes = math_round (double (double (of_int probability) / 10000))
      in
      io_bind (io_lift (dateFromSeconds (hy_lock_ts account))) (\<lambda>lockAt.
      io_bind (shown_state E tradingState lockAt) (\<lambda>effectiveTradingState.
      io_bind (io_lift (hybrid_details E account oracle metadata receipt (fst resolver) comparator outcome
          liquidityParameter yesQuantity noQuantity)) (\<lambda>details.
      io_bind (shown_status E (is_resolved tradingState) (hd_openAt details)) (\<lambda>status.
      io_bind (io_lift (tokenNumber (hy_volume account))) (\<lambda>volume.
      io_bind (io_lift (tokenNumber (Bigint_like (vaultBalance E (su_vault support))))) (\<lambda>liquidity.
        io_return
          \<lparr>mk_id = we_toBase58 E address, mk_address = Some (we_toBase58 E address),
           mk_marketId = Some (like_string (hy_market_id account)), mk_fixtureId = 0, mk_category = category,
           mk_resolver = snd resolver, mk_competition = category_text category @ '' continuous market'',
           mk_question = question, mk_shortQuestion = question, mk_home = category_text category,
           mk_homeCode = categoryCode category, mk_away = snd resolver,
           mk_awayCode = map upper_ascii (take 3 (snd resolver)),
           mk_kickoff = ''Resolves '' @ (case date_parse (hd_resolveNotBefore details) of
             None \<Rightarrow> ''Invalid Date'' | Some t \<Rightarrow> local_time E t True),
           mk_lockAt = lockAt, mk_status = status, mk_tradingState = effectiveTradingState, mk_minute = None,
           mk_score = None, mk_yes = yes, mk_volume = volume, mk_liquidity = liquidity,
           mk_traders = hi_traderCount input, mk_privateStakeAmount = None, mk_featured = False, mk_replay = False,
           mk_points = (if yes = 50 then [50, 50] else [50, of_int yes]), mk_hybrid = Some details,
           mk_activity = None\<rparr>)))))))))))"

definition buildHybridMarket :: "'x web_env \<Rightarrow> HybridInput \<Rightarrow> ('x, Market option) outside" where
  "buildHybridMarket E input =
     (case (hybridPhase (hy_phase (hi_account input)), categoryName (hy_category (hi_account input)),
            outcomeName (hy_outcome (hi_account input))) of
        (Some tradingState, Some category, Some outcome) \<Rightarrow>
          (case decodeAccount E (we_decodeOracle E) (su_oracle (hi_support input)) of
             None \<Rightarrow> io_return None
           | Some oracle \<Rightarrow>
               if oc_market oracle \<noteq> hi_address input then io_return None
               else
                 (case (resolverName (oc_resolver oracle), comparatorName (oc_comparator oracle)) of
                    (Some resolver, Some comparator) \<Rightarrow>
                      io_bind (hybrid_view E input tradingState category outcome oracle resolver comparator)
                        (\<lambda>market. io_return (Some market))
                  | _ \<Rightarrow> io_return None))
      | _ \<Rightarrow> io_return None)"

section \<open>Lemmas\<close>

lemma io_bind_Inr: "io_bind m f s = (Inr v, s') \<longleftrightarrow> (\<exists>x t. m s = (Inr x, t) \<and> f x t = (Inr v, s'))"
  by (auto simp: io_bind_def split: prod.splits sum.splits)

lemma io_lift_Inr: "io_lift r s = (Inr x, t) \<longleftrightarrow> r = Inr x \<and> t = s"
  by (auto simp: io_lift_def)

lemma io_return_Inr: "io_return x s = (Inr y, t) \<longleftrightarrow> y = x \<and> t = s"
  by (auto simp: io_return_def)

lemma dateFromSeconds_InrD:
  assumes "dateFromSeconds v = Inr text"
  shows "\<exists>seconds. integer_of v = Inr seconds \<and> safe_int seconds \<and> date_parse text = Some (seconds * 1000)"
  using assms date_parse_iso
  by (fastforce simp: dateFromSeconds_def safeNumber_def toISOString_def rbind_eq_Inr split: if_splits)

text \<open>A market is shown as open only when the clock was read before the time it locks.\<close>

lemma shown_state_open:
  assumes "shown_state E s lockAt x = (Inr TS_open, y)" "date_parse lockAt = Some t"
  shows "s = TS_open \<and> (\<exists>now. we_now E x = (Inr now, y) \<and> now < t)"
  using assms
  by (auto simp: shown_state_def io_bind_Inr io_return_Inr is_reached_def not_le split: if_splits)

text \<open>The percentage shown is the nearest to the probability in millionths.\<close>

lemma percent_near:
  assumes "0 \<le> p" "p \<le> 1000000"
  shows "\<bar>10000 * math_round (double (double (of_int p) / 10000)) - p\<bar> \<le> 5000"
    "0 \<le> math_round (double (double (of_int p) / 10000))" "math_round (double (double (of_int p) / 10000)) \<le> 100"
proof -
  let ?a = "double (of_int p)" and ?d = "double (double (of_int p) / 10000)" and ?y = "math_round (double (double (of_int p) / 10000))"
  have p: "0 \<le> (of_int p :: rat)" "(of_int p :: rat) \<le> 1000000" using assms by simp_all
  have a: "\<bar>?a - of_int p\<bar> \<le> of_int p / 2 ^ 53" "0 \<le> ?a" using double_near [OF p(1)] by blast+
  have d: "\<bar>?d - ?a / 10000\<bar> \<le> (?a / 10000) / 2 ^ 53" using double_near(1) [of "?a / 10000"] a(2) by simp
  have y: "of_int ?y \<le> ?d + 1 / 2" "?d + 1 / 2 < of_int ?y + 1" unfolding math_round_def by linarith+
  have "\<bar>10000 * of_int ?y - of_int p\<bar> < (5001 :: rat)"
    using a(1) d y p by (simp add: abs_if split: if_splits)
  then have "of_int \<bar>10000 * ?y - p\<bar> < (of_int 5001 :: rat)" by simp
  then show near: "\<bar>10000 * ?y - p\<bar> \<le> 5000" by (simp only: of_int_less_iff)
  show "0 \<le> ?y" "?y \<le> 100" using near assms by linarith+
qed

text \<open>The values a view is made of.\<close>

lemma hybrid_view_parts:
  assumes "hybrid_view E input tradingState category outcome oracle resolver comparator x = (Inr m, y)"
  obtains b yes no p lockAt state details s t metadata where
    "metadata = Option.bind (decodeAccount E (we_decodeMetadata E) (su_metadata (hi_support input)))
       (\<lambda>m. verifiedMetadata E m (hi_account input) (hi_address input))"
    "integer_of (hy_yes_quantity (hi_account input)) = Inr yes"
    "integer_of (hy_no_quantity (hi_account input)) = Inr no"
    "integer_of (hy_liquidity_parameter (hi_account input)) = Inr b"
    "lmsrYesProbability \<lparr>qyes = yes, qno = no\<rparr> b = Inr p"
    "dateFromSeconds (hy_lock_ts (hi_account input)) = Inr lockAt"
    "shown_state E tradingState lockAt s = (Inr state, t)"
    "hybrid_details E (hi_account input) oracle metadata
       (Option.bind (decodeAccount E (we_decodeReceipt E) (su_receipt (hi_support input)))
         (\<lambda>r. if re_market r = hi_address input then Some r else None))
       (fst resolver) comparator outcome b yes no = Inr details"
    "mk_tradingState m = state" "mk_lockAt m = lockAt" "mk_hybrid m = Some details"
    "mk_yes m = math_round (double (double (of_int p) / 10000))"
    "mk_question m = shown_question E metadata (hi_questionCandidate input) (hi_account input)"
  using assms unfolding hybrid_view_def Let_def io_bind_Inr io_lift_Inr io_return_Inr
  apply (elim exE conjE)
  apply hypsubst
  subgoal premises prems by (rule prems(1) [OF refl]) (use prems in \<open>simp_all\<close>)
  done

lemma verifiedMetadata_SomeD:
  assumes "verifiedMetadata E account market address = Some m"
  shows "m = account" "me_market m = address"
    "we_sha256 E (utf8 (me_question m)) = buffer_from (hy_question_hash market)"
    "we_sha256 E (utf8 (me_rules m)) = buffer_from (hy_rules_hash market)"
    "we_sha256 E (utf8 (me_yes_label m @ [LF] @ me_no_label m)) = buffer_from (hy_outcome_labels_hash market)"
  using assms by (auto simp: verifiedMetadata_def split: if_splits)

lemma verifiedQuestion_SomeD:
  "verifiedQuestion E candidate h = Some q \<Longrightarrow> we_sha256 E (utf8 q) = buffer_from h"
  by (auto simp: verifiedQuestion_def split: option.splits if_splits)

lemma shown_question_cases:
  assumes "metadata = Option.bind d (\<lambda>m. verifiedMetadata E m account address)"
  shows "we_sha256 E (utf8 (shown_question E metadata candidate account)) = buffer_from (hy_question_hash account)
    \<or> shown_question E metadata candidate account = ''Verified market '' @ take 8 (bytesHex (hy_question_hash account))"
proof (cases metadata)
  case None
  then show ?thesis by (auto simp: shown_question_def dest: verifiedQuestion_SomeD split: option.split)
next
  case (Some m)
  with assms obtain a where "verifiedMetadata E a account address = Some m" by (cases d) auto
  with Some show ?thesis by (simp add: shown_question_def verifiedMetadata_SomeD)
qed

lemma hybrid_details_parts:
  assumes "hybrid_details E account oracle metadata receipt resolverId comparator outcome b yes no = Inr d"
  shows "hd_rules d = map_option me_rules metadata" "hd_receipt d \<noteq> None \<Longrightarrow> receipt \<noteq> None"
    "hd_outcome d = outcome" "hd_yesQuantity d = int_str yes" "hd_noQuantity d = int_str no"
  using assms by (auto simp: hybrid_details_def receipt_details_def rbind_eq_Inr split: option.splits)

lemma buildHybridMarket_parts:
  assumes "buildHybridMarket E input x = (Inr (Some m), y)"
  obtains tradingState category outcome config resolver comparator where
    "hybridPhase (hy_phase (hi_account input)) = Some tradingState"
    "decodeAccount E (we_decodeOracle E) (su_oracle (hi_support input)) = Some config" "oc_market config = hi_address input"
    "outcomeName (hy_outcome (hi_account input)) = Some outcome"
    "hybrid_view E input tradingState category outcome config resolver comparator x = (Inr m, y)"
  using assms by (auto simp: buildHybridMarket_def io_bind_Inr io_return_Inr split: option.splits if_splits)

section \<open>Properties\<close>


text \<open>
  An amount shown is the account's integer in millionths, with the two roundings of double
  precision: its distance from the exact fraction is at most one part in \<open>2 ^ 51\<close>.
\<close>

theorem shown_amount_is_near:
  assumes "tokenNumber v = Inr t" "integer_of v = Inr i" "0 \<le> i"
  shows "\<bar>t - of_int i / 1000000\<bar> \<le> (of_int i / 1000000) / 2 ^ 51 \<and> 0 \<le> t"
proof -
  let ?a = "double (of_int i)"
  have t: "t = double (?a / 1000000)" using assms(1,2) by (simp add: tokenNumber_def)
  have i: "0 \<le> (of_int i :: rat)" using assms(3) by simp
  have a: "\<bar>?a - of_int i\<bar> \<le> of_int i / 2 ^ 53" "0 \<le> ?a" using double_near [OF i] by blast+
  have d: "\<bar>t - ?a / 1000000\<bar> \<le> (?a / 1000000) / 2 ^ 53" "0 \<le> t"
    using double_near [of "?a / 1000000"] a(2) by (simp_all add: t)
  have "\<bar>t - of_int i / 1000000\<bar> \<le> (of_int i / 1000000) / 2 ^ 51"
    using a d i by (simp add: abs_if split: if_splits)
  with d(2) show ?thesis by blast
qed

subsection \<open>Witnesses\<close>

definition oracle_account :: OracleConfigAccount where
  "oracle_account = \<lparr>oc_market = [9], oc_resolver = [(''pyth_price'', JNull)], oc_source_program = [1], oc_source_queue = [2],
     oc_source_id = [3], oc_comparator = [(''greater_than'', JNull)], oc_threshold = Bigint_like 5, oc_threshold_exponent = 0,
     oc_observation_ts = Bigint_like 2000, oc_observation_window_secs = 60, oc_max_staleness_secs = 60,
     oc_max_staleness_slots = Bigint_like 150, oc_max_confidence_bps = 100, oc_min_samples = 1,
     oc_challenge_period_secs = 0, oc_bond_amount = Bigint_like 0, oc_consumed = False\<rparr>"

definition hybrid_account :: HybridMarketAccount where
  "hybrid_account = \<lparr>hy_market_id = Bigint_like 1, hy_creator = [4], hy_liquidity_owner = [4], hy_category = [(''crypto'', JNull)],
     hy_question_hash = replicate 32 0, hy_rules_hash = replicate 32 0, hy_outcome_labels_hash = replicate 32 0,
     hy_collateral_mint = [5], hy_treasury_owner = [6], hy_oracle_config = [7], hy_liquidity_parameter = Bigint_like 100000000,
     hy_max_trade_shares = Bigint_like 1000000, hy_yes_quantity = Bigint_like 0, hy_no_quantity = Bigint_like 0,
     hy_trade_fee_bps = 100, hy_treasury_fee_share_bps = 5000, hy_open_ts = Bigint_like 1, hy_lock_ts = Bigint_like 1000,
     hy_resolve_not_before_ts = Bigint_like 2000, hy_resolution_deadline_ts = Bigint_like 3000,
     hy_phase = [(''open'', JNull)], hy_outcome = 3, hy_trade_count = Bigint_like 0, hy_volume = Bigint_like 2500000,
     hy_settlement_evidence_hash = replicate 32 0\<rparr>"

definition private_account :: "int \<Rightarrow> MarketAccount" where
  "private_account fixtureId = \<lparr>ma_market_id = Bigint_like 1, ma_authority = [4], ma_fixture_id = Bigint_like fixtureId,
     ma_market_mode = [(''live'', JNull)], ma_fixture_start_ts = Bigint_like 1500, ma_total_goals_threshold = 2,
     ma_stake_amount = Bigint_like 1000000, ma_lock_ts = Bigint_like 1000, ma_phase = [(''open'', JNull)],
     ma_order_count = 0, ma_outcome = 2, ma_gross_pool = Bigint_like 0, ma_net_pool = Bigint_like 0,
     ma_yes_amount = Bigint_like 0, ma_no_amount = Bigint_like 0, ma_score_a = 0, ma_score_b = 0\<rparr>"

text \<open>A node that holds one continuous market, and as many private ones as the rows say.\<close>

definition web_example :: "(pubkey \<times> AccountInfo) list \<Rightarrow> unit web_env" where
  "web_example rows = \<lparr>we_program = [0], we_toBase58 = bytes_hex, we_publicKey = (\<lambda>s. Some [9]),
     we_sha256 = (\<lambda>b. replicate 32 0), we_derive = (\<lambda>seeds p. []), we_now = io_return 5000,
     we_localeTime = (\<lambda>ms zone. ''local''), we_decodeMarket = (\<lambda>d. if d = [1] then Some (private_account (2 ^ 60)) else None),
     we_decodeHybrid = (\<lambda>d. if d = [2] then Some hybrid_account else None),
     we_decodeOracle = (\<lambda>d. if d = [3] then Some oracle_account else None), we_decodeMetadata = (\<lambda>d. None),
     we_decodeReceipt = (\<lambda>d. None), we_decodePosition = (\<lambda>d. None), we_span = 165, we_decodeAmount = (\<lambda>d. None),
     we_decodeEvent = (\<lambda>s. Inr None), we_programAccounts = io_return rows, we_positionAccounts = (\<lambda>k. io_return []),
     we_multipleAccounts = (\<lambda>ks. io_return (map (\<lambda>k. None) ks)), we_account = (\<lambda>k. io_return None),
     we_signatures = (\<lambda>k n. io_return []), we_transactions = (\<lambda>ss. io_return [])\<rparr>"

definition hybrid_input :: "string option \<Rightarrow> HybridInput" where
  "hybrid_input candidate = \<lparr>hi_address = [9], hi_account = hybrid_account, hi_support = \<lparr>su_oracle = Some \<lparr>ai_owner = [0], ai_data = [3]\<rparr>,
       su_metadata = None, su_receipt = None, su_vault = None\<rparr>, hi_traderCount = 0, hi_questionCandidate = candidate\<rparr>"

lemma integer_bigint [simp]: "integer_of (Bigint_like i) = Inr i"
  by (simp add: integer_of_def js_BigInt_int_str)

lemma date_bigint:
  assumes "0 \<le> s" "s \<le> 8640000000000"
  shows "dateFromSeconds (Bigint_like s) = Inr (iso_text (s * 1000))" "date_parse (iso_text (s * 1000)) = Some (s * 1000)"
proof -
  have "safe_int s" "\<not> \<bar>s * 1000\<bar> > MAX_TIME"
    using assms by (simp_all add: safe_int_def MAX_SAFE_INTEGER_def MAX_TIME_def)
  then show "dateFromSeconds (Bigint_like s) = Inr (iso_text (s * 1000))" "date_parse (iso_text (s * 1000)) = Some (s * 1000)"
    by (simp_all add: dateFromSeconds_def safeNumber_def toISOString_def rbind_def date_parse_iso)
qed

lemma example_names:
  "hybridPhase [(''open'', JNull)] = Some TS_open" "categoryName [(''crypto'', JNull)] = Some Cat_Crypto"
  "outcomeName 3 = Some ''unset''" "resolverName [(''pyth_price'', JNull)] = Some (''pyth-price'', ''Pyth'')"
  "comparatorName [(''greater_than'', JNull)] = Some ''greater-than''"
  "privatePoolPhase [(''open'', JNull)] = Some TS_open"
  by code_simp+

lemma example_probability: "lmsrYesProbability \<lparr>qyes = 0, qno = 0\<rparr> 100000000 = Inr 500000"
  by code_simp

lemma example_decode:
  "decodeAccount (web_example rows) (we_decodeOracle (web_example rows)) (su_oracle (hi_support (hybrid_input c))) = Some oracle_account"
  "decodeAccount (web_example rows) (we_decodeMetadata (web_example rows)) (su_metadata (hi_support (hybrid_input c))) = None"
  "decodeAccount (web_example rows) (we_decodeReceipt (web_example rows)) (su_receipt (hi_support (hybrid_input c))) = None"
  "vaultBalance (web_example rows) (su_vault (hi_support (hybrid_input c))) = 0"
  "we_now (web_example rows) = io_return 5000"
  by (simp_all add: decodeAccount_def hybrid_input_def web_example_def vaultBalance_def)

lemma example_input:
  "hi_address (hybrid_input c) = [9]" "hi_account (hybrid_input c) = hybrid_account"
  "hy_phase hybrid_account = [(''open'', JNull)]" "hy_category hybrid_account = [(''crypto'', JNull)]" "hy_outcome hybrid_account = 3"
  "hy_yes_quantity hybrid_account = Bigint_like 0" "hy_no_quantity hybrid_account = Bigint_like 0"
  "hy_liquidity_parameter hybrid_account = Bigint_like 100000000" "hy_volume hybrid_account = Bigint_like 2500000"
  "hy_open_ts hybrid_account = Bigint_like 1" "hy_lock_ts hybrid_account = Bigint_like 1000"
  "hy_resolve_not_before_ts hybrid_account = Bigint_like 2000" "hy_resolution_deadline_ts hybrid_account = Bigint_like 3000"
  "oc_market oracle_account = [9]" "oc_resolver oracle_account = [(''pyth_price'', JNull)]"
  "oc_comparator oracle_account = [(''greater_than'', JNull)]" "oc_observation_ts oracle_account = Bigint_like 2000"
  by (simp_all add: hybrid_input_def hybrid_account_def oracle_account_def)

lemma shown_state_example: "shown_state (web_example rows) TS_open (iso_text 1000000) () = (Inr TS_open, ())"
  using date_bigint(2) [of 1000] by (simp add: shown_state_def example_decode io_bind_def io_return_def is_reached_def)

lemma example_details:
  "\<exists>d. hybrid_details (web_example rows) hybrid_account oracle_account None None i cmp u b y n = Inr d"
  using date_bigint(1) [of 1] date_bigint(1) [of 2000] date_bigint(1) [of 3000]
  by (simp add: hybrid_details_def example_input receipt_details_def rbind_def)

lemma example_status: "\<exists>v. shown_status (web_example rows) b text () = (Inr v, ())"
  by (simp add: shown_status_def example_decode io_bind_def io_return_def)

lemma example_view:
  "\<exists>m. buildHybridMarket (web_example rows) (hybrid_input c) () = (Inr (Some m), ()) \<and> mk_tradingState m = TS_open"
proof -
  obtain d where d: "hybrid_details (web_example rows) hybrid_account oracle_account None None ''pyth-price'' ''greater-than'' ''unset''
      100000000 0 0 = Inr d" using example_details by blast
  obtain v where v: "shown_status (web_example rows) False (hd_openAt d) () = (Inr v, ())" using example_status by blast
  have "\<exists>m. hybrid_view (web_example rows) (hybrid_input c) TS_open Cat_Crypto ''unset'' oracle_account (''pyth-price'', ''Pyth'')
      ''greater-than'' () = (Inr m, ()) \<and> mk_tradingState m = TS_open"
    using date_bigint(1) [of 1000]
    by (simp add: hybrid_view_def example_decode example_input io_bind_def io_lift_def example_probability
        shown_state_example is_resolved_def d v io_return_def tokenNumber_def rbind_def Let_def)
  then show ?thesis
    by (auto simp: buildHybridMarket_def example_decode example_input example_names io_bind_def io_return_def)
qed


lemma shown_amount_is_near_witness:
  "\<exists>t. tokenNumber (Bigint_like 2500001) = Inr t \<and> \<bar>t - 2500001 / 1000000\<bar> \<le> (2500001 / 1000000) / 2 ^ 51"
proof -
  have i: "integer_of (Bigint_like 2500001) = Inr 2500001" by (simp add: integer_of_def js_BigInt_int_str)
  then obtain t where t: "tokenNumber (Bigint_like 2500001) = Inr t" by (simp add: tokenNumber_def)
  from shown_amount_is_near [OF t i] t show ?thesis by simp
qed

end
