(* ===== verification/ServerMarket.thy ===== *)
theory ServerMarket
  imports MarketViews JsArray Economics
begin

text \<open>
  The market lists of the web server (\<open>web/lib/solana/server-market.ts\<close>): all markets of the program
  with their support accounts, one market by its address, and the activity read from the events in
  the transactions of a market.
\<close>

section \<open>Accounts by address\<close>

definition accountBatch ::
    "'x web_env \<Rightarrow> pubkey list \<Rightarrow> AccountInfo option list \<Rightarrow> (string, AccountInfo option) jsmap
     \<Rightarrow> (string, AccountInfo option) jsmap" where
  "accountBatch E batch infos result =
     foldl (\<lambda>result index.
         map_put result (we_toBase58 E (batch ! index)) (if index < length infos then infos ! index else None))
       result [0..<length batch]"

function accountMapFrom ::
    "'x web_env \<Rightarrow> pubkey list \<Rightarrow> nat \<Rightarrow> (string, AccountInfo option) jsmap
     \<Rightarrow> ('x, (string, AccountInfo option) jsmap) outside" where
  "accountMapFrom E unique offset result =
     (if offset < length unique
      then let batch = take 100 (drop offset unique) in
           io_bind (we_multipleAccounts E batch) (\<lambda>infos.
             accountMapFrom E unique (offset + 100) (accountBatch E batch infos result))
      else io_return result)"
  by pat_completeness auto
termination
  by (relation "measure (\<lambda>(E, unique, offset, result). length unique - offset)") auto

declare accountMapFrom.simps [simp del]

definition getAccountMap :: "'x web_env \<Rightarrow> pubkey list \<Rightarrow> ('x, (string, AccountInfo option) jsmap) outside" where
  "getAccountMap E addresses =
     accountMapFrom E (map_values (rows_map (map (\<lambda>address. (we_toBase58 E address, address)) addresses))) 0 []"

definition map_get_or_null :: "(string, 'a option) jsmap \<Rightarrow> string \<Rightarrow> 'a option" where
  "map_get_or_null m k = (case map_get m k of Some v \<Rightarrow> v | None \<Rightarrow> None)"

definition supportFromMap ::
    "'x web_env \<Rightarrow> (string, AccountInfo option) jsmap \<Rightarrow> pubkey \<Rightarrow> pubkey \<Rightarrow> HybridSupportAccounts" where
  "supportFromMap E accountMap address config =
     \<lparr>su_oracle = map_get_or_null accountMap (we_toBase58 E config),
      su_metadata = map_get_or_null accountMap (we_toBase58 E (hybridMetadataPda (we_derive E) address (we_program E))),
      su_receipt = map_get_or_null accountMap (we_toBase58 E (resolutionReceiptPda (we_derive E) address (we_program E))),
      su_vault = map_get_or_null accountMap (we_toBase58 E (hybridVaultPda (we_derive E) address (we_program E)))\<rparr>"

section \<open>All markets\<close>

text \<open>\<open>rows.flatMap\<close> with a decoder that throws on other accounts.\<close>

definition decoded :: "(byte list \<Rightarrow> 'a option) \<Rightarrow> (pubkey \<times> AccountInfo) list \<Rightarrow> (pubkey \<times> 'a) list" where
  "decoded decode rows =
     List.map_filter (\<lambda>(address, account). map_option (\<lambda>a. (address, a)) (decode (ai_data account))) rows"

text \<open>The owners with a position in each market, as a map of sets.\<close>

definition addTrader :: "'x web_env \<Rightarrow> (string, string list) jsmap \<Rightarrow> PositionAccount \<Rightarrow> (string, string list) jsmap" where
  "addTrader E counts position =
     (let key = we_toBase58 E (po_market position);
          owners = (case map_get counts key of Some s \<Rightarrow> s | None \<Rightarrow> []);
          owner = we_toBase58 E (po_owner position)
      in map_put counts key (if owner \<in> set owners then owners else owners @ [owner]))"

fun phaseRank :: "TradingState \<Rightarrow> int" where
  "phaseRank TS_open = 0"
| "phaseRank TS_locked = 1"
| "phaseRank TS_resolving = 2"
| "phaseRank TS_disputed = 3"
| "phaseRank TS_batched = 4"
| "phaseRank TS_refunding = 5"
| "phaseRank TS_resolved = 6"
| "phaseRank TS_closed = 7"

text \<open>Only the sign of the result of a comparison matters.\<close>

definition rat_sign :: "rat \<Rightarrow> int" where
  "rat_sign r = (if 0 < r then 1 else if r < 0 then - 1 else 0)"

definition marketOrder :: "Market \<Rightarrow> Market \<Rightarrow> int" where
  "marketOrder left right =
     (let ranks = phaseRank (mk_tradingState left) - phaseRank (mk_tradingState right) in
      if ranks \<noteq> 0 then ranks else rat_sign (mk_volume right - mk_volume left))"

primrec io_flat :: "('a \<Rightarrow> ('w, 'b option) io) \<Rightarrow> 'a list \<Rightarrow> ('w, 'b list) io" where
  "io_flat f [] = io_return []"
| "io_flat f (x # xs) =
     io_bind (f x) (\<lambda>y. io_bind (io_flat f xs) (\<lambda>ys. io_return (case y of Some v \<Rightarrow> v # ys | None \<Rightarrow> ys)))"

definition publicMarket ::
    "'x web_env \<Rightarrow> (string, AccountInfo option) jsmap \<Rightarrow> (string, string list) jsmap
     \<Rightarrow> pubkey \<times> HybridMarketAccount \<Rightarrow> ('x, Market option) outside" where
  "publicMarket E accountMap traders row =
     (case row of (address, account) \<Rightarrow>
       buildHybridMarket E
         \<lparr>hi_address = address, hi_account = account,
          hi_support = supportFromMap E accountMap address (hy_oracle_config account),
          hi_traderCount = (case map_get traders (we_toBase58 E address) of Some s \<Rightarrow> int (length s) | None \<Rightarrow> 0),
          hi_questionCandidate = None\<rparr>)"

definition privateMarket :: "'x web_env \<Rightarrow> pubkey \<times> MarketAccount \<Rightarrow> ('x, Market option) outside" where
  "privateMarket E row = (case row of (address, account) \<Rightarrow> buildPrivateMarket E (we_toBase58 E address) account)"

definition getOnchainMarkets :: "'x web_env \<Rightarrow> ('x, Market list) outside" where
  "getOnchainMarkets E =
     io_bind (we_programAccounts E) (\<lambda>programRows.
       let decodedPrivate = decoded (we_decodeMarket E) programRows;
           decodedHybrid = decoded (we_decodeHybrid E) programRows;
           decodedPositions = map snd (decoded (we_decodePosition E) programRows);
           rows = rows_map (map (\<lambda>(pubkey, account). (we_toBase58 E pubkey, Some account)) programRows);
           vaults = map (\<lambda>(address, account). hybridVaultPda (we_derive E) address (we_program E)) decodedHybrid
       in
       io_bind (getAccountMap E vaults) (\<lambda>vaultMap.
         let accountMap = foldl (\<lambda>m (address, account). map_put m address account) rows vaultMap;
             traders = foldl (addTrader E) [] decodedPositions
         in
         io_bind (io_flat (publicMarket E accountMap traders) decodedHybrid) (\<lambda>publicMarkets.
         io_bind (io_flat (privateMarket E) decodedPrivate) (\<lambda>privateMarkets.
           io_return (js_sort marketOrder (publicMarkets @ privateMarkets))))))"

section \<open>One market\<close>

definition getHybridSupport :: "'x web_env \<Rightarrow> pubkey \<Rightarrow> pubkey \<Rightarrow> ('x, HybridSupportAccounts) outside" where
  "getHybridSupport E address config =
     io_bind (we_multipleAccounts E
         [config, hybridMetadataPda (we_derive E) address (we_program E),
          resolutionReceiptPda (we_derive E) address (we_program E),
          hybridVaultPda (we_derive E) address (we_program E)]) (\<lambda>infos.
       let info = (\<lambda>i. if i < length infos then infos ! i else None) in
       io_return \<lparr>su_oracle = info 0, su_metadata = info 1, su_receipt = info 2, su_vault = info 3\<rparr>)"

definition hybridTraderCount :: "'x web_env \<Rightarrow> pubkey \<Rightarrow> ('x, int) outside" where
  "hybridTraderCount E address = io_bind (we_positionAccounts E address) (\<lambda>accounts. io_return (int (length accounts)))"

definition decode_or_throw :: "(byte list \<Rightarrow> 'a option) \<Rightarrow> byte list \<Rightarrow> 'a res" where
  "decode_or_throw decode data = (case decode data of Some a \<Rightarrow> Inr a | None \<Rightarrow> Inl (Error ''Invalid account discriminator''))"

definition getOnchainMarket :: "'x web_env \<Rightarrow> string \<Rightarrow> string option \<Rightarrow> ('x, Market option) outside" where
  "getOnchainMarket E v questionCandidate =
     (case we_publicKey E v of
        None \<Rightarrow> io_return None
      | Some address \<Rightarrow>
          io_bind (we_account E address) (\<lambda>info.
            case info of
              None \<Rightarrow> io_return None
            | Some i \<Rightarrow>
                if ai_owner i \<noteq> we_program E then io_return None
                else
                  io_catch
                    (io_bind (io_lift (decode_or_throw (we_decodeMarket E) (ai_data i))) (buildPrivateMarket E v))
                    (\<lambda>_. io_catch
                      (io_bind (io_lift (decode_or_throw (we_decodeHybrid E) (ai_data i))) (\<lambda>account.
                       io_bind (getHybridSupport E address (hy_oracle_config account)) (\<lambda>support.
                       io_bind (hybridTraderCount E address) (\<lambda>traderCount.
                         buildHybridMarket E
                           \<lparr>hi_address = address, hi_account = account, hi_support = support,
                            hi_traderCount = traderCount, hi_questionCandidate = questionCandidate\<rparr>))))
                      (\<lambda>_. io_return None))))"

section \<open>Activity\<close>

text \<open>\<open>name.replace(/_([a-z])/g, ...)\<close>.\<close>

fun camel :: "string \<Rightarrow> string" where
  "camel (c # d # r) =
     (if c = CHR ''_'' \<and> 97 \<le> char_code d \<and> char_code d \<le> 122 then upper_ascii d # camel r else c # camel (d # r))"
| "camel s = s"

definition eventField :: "event_data \<Rightarrow> string \<Rightarrow> event_value" where
  "eventField data name =
     (let found = (\<lambda>k. case map_get data k of Some v \<Rightarrow> v | None \<Rightarrow> EV_null) in
      if found name \<noteq> EV_null then found name else found (camel name))"

definition eventInteger :: "event_data \<Rightarrow> string \<Rightarrow> int res" where
  "eventInteger data name =
     (case eventField data name of
        EV_number v \<Rightarrow> js_BigInt (like_string v)
      | EV_address s \<Rightarrow> js_BigInt s
      | _ \<Rightarrow> Inl (Error (''Missing integer event field '' @ name)))"

definition eventAddress :: "event_data \<Rightarrow> string \<Rightarrow> string option" where
  "eventAddress data name = (case eventField data name of EV_address s \<Rightarrow> Some s | _ \<Rightarrow> None)"

definition eventMatchesMarket :: "'x web_env \<Rightarrow> event_data \<Rightarrow> pubkey \<Rightarrow> bool" where
  "eventMatchesMarket E data market \<longleftrightarrow> eventAddress data ''market'' = Some (we_toBase58 E market)"

definition outcomeLabel :: "int \<Rightarrow> string" where
  "outcomeLabel v = (if v = 1 then ''YES'' else if v = 0 then ''NO'' else ''INVALID'')"

record EventInput =
  ei_name :: string
  ei_data :: event_data
  ei_signature :: string
  ei_slot :: int
  ei_timestamp :: "int option"

definition activity_base :: "EventInput \<Rightarrow> ActivityKind \<Rightarrow> string \<Rightarrow> string \<Rightarrow> MarketActivity" where
  "activity_base input kind title detail =
     \<lparr>ac_signature = ei_signature input, ac_slot = ei_slot input, ac_timestamp = ei_timestamp input, ac_kind = kind,
      ac_title = title, ac_detail = detail, ac_account = None, ac_yesProbability = None\<rparr>"

definition usdc_text :: "int \<Rightarrow> string res" where
  "usdc_text amount = formatUsdc amount 6"

definition trade_activity :: "EventInput \<Rightarrow> MarketActivity res" where
  "trade_activity input =
     (let data = ei_data input in
      rbind (eventInteger data ''direction'') (\<lambda>direction. rbind (eventInteger data ''side'') (\<lambda>side.
      rbind (eventInteger data ''shares'') (\<lambda>shares. rbind (eventInteger data ''total_amount'') (\<lambda>total.
      rbind (eventInteger data ''fee_amount'') (\<lambda>fee.
      rbind (usdc_text shares) (\<lambda>sharesText. rbind (usdc_text total) (\<lambda>totalText. rbind (usdc_text fee) (\<lambda>feeText.
      rbind (eventInteger data ''after_yes_probability'') (\<lambda>probability.
        Inr ((activity_base input Kind_trade
            ((if direction = 0 then ''Bought'' else ''Sold'') @ '' '' @ (if side = 1 then ''YES'' else ''NO''))
            (sharesText @ '' shares for '' @ totalText @ '' USDC, '' @ feeText @ '' fee''))
          \<lparr>ac_account := eventAddress data ''owner'',
           ac_yesProbability := Some (double (double (of_int probability) / 10000))\<rparr>)))))))))))"

definition amount_detail :: "EventInput \<Rightarrow> string \<Rightarrow> string \<Rightarrow> string res" where
  "amount_detail input name rest =
     rbind (eventInteger (ei_data input) name) (\<lambda>amount. rbind (usdc_text amount) (\<lambda>t. Inr (t @ rest)))"

definition activityFromEvent :: "EventInput \<Rightarrow> MarketActivity option res" where
  "activityFromEvent input =
     (let name = ei_name input; data = ei_data input in
      if name = ''HybridTradeExecuted'' then rbind (trade_activity input) (\<lambda>a. Inr (Some a))
      else if name = ''HybridMarketCreated'' then
        rbind (amount_detail input ''initial_subsidy'' '' USDC maker subsidy funded'') (\<lambda>detail.
          Inr (Some ((activity_base input Kind_lifecycle ''Market opened'' detail)
            \<lparr>ac_account := eventAddress data ''creator'', ac_yesProbability := Some 50\<rparr>)))
      else if name = ''HybridMarketLocked'' then
        Inr (Some (activity_base input Kind_lifecycle ''Trading locked'' ''No further trades can execute''))
      else if name = ''OptimisticResolutionProposed'' then
        rbind (eventInteger data ''outcome'') (\<lambda>outcome.
        rbind (amount_detail input ''bond_amount'' '' USDC assertion bond'') (\<lambda>detail.
          Inr (Some ((activity_base input Kind_resolution (outcomeLabel outcome @ '' proposed'') detail)
            \<lparr>ac_account := eventAddress data ''proposer''\<rparr>))))
      else if name = ''OptimisticResolutionChallenged'' then
        rbind (eventInteger data ''outcome'') (\<lambda>outcome.
          Inr (Some ((activity_base input Kind_resolution ''Resolution challenged''
              (outcomeLabel outcome @ '' submitted with a matching bond''))
            \<lparr>ac_account := eventAddress data ''challenger''\<rparr>)))
      else if name = ''HybridMarketResolved'' then
        rbind (eventInteger data ''outcome'') (\<lambda>outcome.
        rbind (amount_detail input ''outstanding_liability'' '' USDC claim liability recorded'') (\<lambda>detail.
          Inr (Some (activity_base input Kind_resolution (outcomeLabel outcome @ '' finalized'') detail))))
      else if name = ''HybridPositionSettled'' then
        rbind (amount_detail input ''amount'' '' USDC paid'') (\<lambda>detail.
          Inr (Some ((activity_base input Kind_settlement ''Position claimed'' detail)
            \<lparr>ac_account := eventAddress data ''owner''\<rparr>)))
      else if name = ''HybridLiquidityWithdrawn'' then
        rbind (amount_detail input ''amount'' '' USDC withdrawn above liability'') (\<lambda>detail.
          Inr (Some ((activity_base input Kind_liquidity ''Maker surplus withdrawn'' detail)
            \<lparr>ac_account := eventAddress data ''liquidity_owner''\<rparr>)))
      else if name = ''HybridMarketClosed'' then
        Inr (Some (activity_base input Kind_lifecycle ''Market closed'' ''Vault and trader liabilities are fully drained''))
      else Inr None)"

text \<open>A line of a log: only an error of the event coder is not caught.\<close>

definition log_payload :: "string \<Rightarrow> string option" where
  "log_payload line =
     (if startsWith line ''Program data: '' then Some (drop 14 line)
      else if startsWith line ''Program log: '' then Some (drop 13 line) else None)"

definition logActivity ::
    "'x web_env \<Rightarrow> pubkey \<Rightarrow> string \<Rightarrow> int \<Rightarrow> int option \<Rightarrow> string \<Rightarrow> MarketActivity option res" where
  "logActivity E market signature slot timestamp line =
     (case log_payload line of
        None \<Rightarrow> Inr None
      | Some payload \<Rightarrow>
          rbind (we_decodeEvent E payload) (\<lambda>decoded.
            case decoded of
              None \<Rightarrow> Inr None
            | Some (name, data) \<Rightarrow>
                if \<not> eventMatchesMarket E data market then Inr None
                else Inr (try_catch
                  (activityFromEvent \<lparr>ei_name = name, ei_data = data, ei_signature = signature, ei_slot = slot,
                     ei_timestamp = timestamp\<rparr>) (\<lambda>_. None))))"

primrec flat_res :: "('a \<Rightarrow> 'b option res) \<Rightarrow> 'a list \<Rightarrow> 'b list res" where
  "flat_res f [] = Inr []"
| "flat_res f (x # xs) =
     rbind (f x) (\<lambda>y. rbind (flat_res f xs) (\<lambda>ys. Inr (case y of Some v \<Rightarrow> v # ys | None \<Rightarrow> ys)))"

definition transactionActivity ::
    "'x web_env \<Rightarrow> pubkey \<Rightarrow> (string, SignatureInfo) jsmap \<Rightarrow> TransactionInfo option \<Rightarrow> MarketActivity list res" where
  "transactionActivity E market signatureMetadata transaction =
     (case transaction of
        None \<Rightarrow> Inr []
      | Some tr \<Rightarrow>
          if ti_failed tr then Inr []
          else
            (case ti_signatures tr of
               [] \<Rightarrow> Inr []
             | signature # _ \<Rightarrow>
                 if signature = [] then Inr []
                 else
                   let info = map_get signatureMetadata signature;
                       timestamp = (case ti_blockTime tr of
                           Some t \<Rightarrow> Some t | None \<Rightarrow> Option.bind info sg_blockTime)
                   in flat_res (logActivity E market signature (ti_slot tr) timestamp)
                        (case ti_logMessages tr of Some logs \<Rightarrow> logs | None \<Rightarrow> [])))"

definition activityOrder :: "MarketActivity \<Rightarrow> MarketActivity \<Rightarrow> int" where
  "activityOrder left right =
     (let time = (\<lambda>a. case ac_timestamp a of Some t \<Rightarrow> t | None \<Rightarrow> 0);
          d = time right - time left
      in if d \<noteq> 0 then d else ac_slot right - ac_slot left)"

definition getOnchainMarketActivity :: "'x web_env \<Rightarrow> string \<Rightarrow> int \<Rightarrow> ('x, MarketActivity list) outside" where
  "getOnchainMarketActivity E v limit =
     (case we_publicKey E v of
        None \<Rightarrow> io_return []
      | Some market \<Rightarrow>
          io_bind (we_signatures E market (min (max limit 1) 200)) (\<lambda>signatures.
            if signatures = [] then io_return []
            else
              io_bind (we_transactions E (map sg_signature signatures)) (\<lambda>transactions.
                let signatureMetadata = rows_map (map (\<lambda>s. (sg_signature s, s)) signatures) in
                io_bind (io_lift (rmap_list (transactionActivity E market signatureMetadata) transactions)) (\<lambda>activity.
                  io_return (js_sort activityOrder (concat activity))))))"

definition historyOrder :: "MarketActivity \<Rightarrow> MarketActivity \<Rightarrow> int" where
  "historyOrder left right =
     (let time = (\<lambda>a. case ac_timestamp a of Some t \<Rightarrow> t | None \<Rightarrow> ac_slot a) in time left - time right)"

definition withMarketActivity :: "Market \<Rightarrow> MarketActivity list \<Rightarrow> Market" where
  "withMarketActivity market activity =
     (let history = List.map_filter ac_yesProbability
            (js_sort historyOrder (filter (\<lambda>item. ac_yesProbability item \<noteq> None) activity))
      in market\<lparr>mk_activity := Some activity, mk_points := (if history = [] then mk_points market else history)\<rparr>)"

definition isDefaultAddress :: "'x web_env \<Rightarrow> string \<Rightarrow> bool" where
  "isDefaultAddress E v \<longleftrightarrow> v = we_toBase58 E (replicate 32 0)"

section \<open>Lemmas\<close>

lemma keeps_True: "keeps (\<lambda>_. True) m"
  by (simp add: keeps_def wp_def split: prod.split sum.split)

lemma fails_True: "fails (\<lambda>_. True) m \<longleftrightarrow> (\<forall>x. \<exists>e y. m x = (Inl e, y))"
proof -
  have "(case m x of (Inl e, s') \<Rightarrow> True | (Inr v, s') \<Rightarrow> False) \<longleftrightarrow> (\<exists>e y. m x = (Inl e, y))" for x
    by (auto split: prod.split sum.split)
  then show ?thesis by (simp add: fails_def wp_def)
qed

lemmas fails_next = fails_after [OF keeps_True]
lemmas fails_next_value = fails_after_value [OF keeps_True]

lemma fails_first: "fails I m \<Longrightarrow> fails I (io_bind m f)"
  unfolding fails_def wp_bind by (blast intro: wp_mono)

lemma fails_flat: "x \<in> set xs \<Longrightarrow> fails (\<lambda>_. True) (f x) \<Longrightarrow> fails (\<lambda>_. True) (io_flat f xs)"
proof (induction xs)
  case (Cons z zs)
  show ?case
  proof (cases "x = z")
    case True
    with Cons.prems show ?thesis by (simp add: fails_first)
  next
    case False
    with Cons have "fails (\<lambda>_. True) (io_flat f zs)" by simp
    then show ?thesis by (simp add: fails_next fails_first)
  qed
qed simp

lemma decoded_in:
  "(address, info) \<in> set rows \<Longrightarrow> decode (ai_data info) = Some a \<Longrightarrow> (address, a) \<in> set (decoded decode rows)"
  by (force simp: decoded_def map_filter_def)

lemma decoded_from:
  "(address, a) \<in> set (decoded decode rows) \<Longrightarrow> \<exists>info. (address, info) \<in> set rows \<and> decode (ai_data info) = Some a"
  by (force simp: decoded_def map_filter_def)

lemma unsafe_fixture_fails:
  assumes "privatePoolPhase (ma_phase account) \<noteq> None" "integer_of (ma_fixture_id account) = Inr i" "\<not> safe_int i"
  shows "fails (\<lambda>_. True) (buildPrivateMarket E v account)"
proof -
  have "\<exists>e. safeNumber (ma_fixture_id account) ''fixture ID'' = Inl e"
    using assms(2,3) by (simp add: safeNumber_def rbind_def)
  with assms(1) show ?thesis
    by (auto simp: buildPrivateMarket_def intro!: fails_lift)
qed

lemma flat_in:
  assumes "io_flat f xs s = (Inr ys, t)" "y \<in> set ys"
  shows "\<exists>x \<in> set xs. \<exists>u v. f x u = (Inr (Some y), v)"
  using assms
proof (induction xs arbitrary: s ys)
  case (Cons x xs)
  then show ?case
    by (force simp: io_bind_Inr io_return_Inr split: option.splits)
qed (simp add: io_return_Inr)

lemma marketOrder_le:
  "marketOrder l r \<le> 0 \<longleftrightarrow> phaseRank (mk_tradingState l) < phaseRank (mk_tradingState r)
    \<or> phaseRank (mk_tradingState l) = phaseRank (mk_tradingState r) \<and> mk_volume r \<le> mk_volume l"
  by (auto simp: marketOrder_def Let_def rat_sign_def)

lemma marketOrder_consistent: "consistent marketOrder"
  unfolding consistent_def marketOrder_le by (auto intro: order_trans)

lemma hybrid_address: "hybrid_view E input st c out config r cmp x = (Inr m, y) \<Longrightarrow> mk_address m = Some (we_toBase58 E (hi_address input))"
  unfolding hybrid_view_def Let_def io_bind_Inr io_return_Inr by (elim exE conjE) simp

lemma private_address: "buildPrivateMarket E v account x = (Inr (Some m), y) \<Longrightarrow> mk_address m = Some v"
  unfolding buildPrivateMarket_def Let_def by (auto simp: io_bind_Inr io_return_Inr split: option.splits)

lemma public_address:
  "publicMarket E accountMap traders (address, account) x = (Inr (Some m), y) \<Longrightarrow> mk_address m = Some (we_toBase58 E address)"
  unfolding publicMarket_def prod.case using hybrid_address by (fastforce elim: buildHybridMarket_parts)

lemma flat_res_in:
  assumes "flat_res f xs = Inr ys" "x \<in> set xs" "f x = Inr (Some y)"
  shows "y \<in> set ys"
  using assms by (induction xs arbitrary: ys) (auto simp: rbind_eq_Inr split: option.splits)

lemma rmap_list_in: "rmap_list f xs = Inr ys \<Longrightarrow> x \<in> set xs \<Longrightarrow> \<exists>y \<in> set ys. f x = Inr y"
  by (induction xs arbitrary: ys) (auto simp: rbind_eq_Inr)

lemma program_data_payload: "log_payload (''Program data: '' @ payload) = Some payload"
  by (simp add: log_payload_def startsWith_def)

lemma logged_event_is_shown:
  assumes "transactionActivity E market metadata (Some tr) = Inr shown" "\<not> ti_failed tr"
    and "ti_signatures tr = signature # rest" "signature \<noteq> []" "ti_logMessages tr = Some logs"
    and "line \<in> set logs" "log_payload line = Some payload"
    and "we_decodeEvent E payload = Inr (Some (name, data))" "eventMatchesMarket E data market"
    and "\<And>timestamp. activityFromEvent \<lparr>ei_name = name, ei_data = data, ei_signature = signature, ei_slot = ti_slot tr,
        ei_timestamp = timestamp\<rparr> = Inr (Some (a timestamp))"
  shows "\<exists>timestamp. a timestamp \<in> set shown"
proof -
  from assms(1-5) obtain timestamp where f: "flat_res (logActivity E market signature (ti_slot tr) timestamp) logs = Inr shown"
    by (auto simp: transactionActivity_def Let_def)
  have "logActivity E market signature (ti_slot tr) timestamp line = Inr (Some (a timestamp))"
    using assms(7-10) by (simp add: logActivity_def rbind_def try_catch_def)
  with flat_res_in [OF f assms(6)] show ?thesis by blast
qed

lemma trade_event:
  "ei_name input = ''HybridTradeExecuted'' \<Longrightarrow> activityFromEvent input = rbind (trade_activity input) (\<lambda>a. Inr (Some a))"
  by (simp only: activityFromEvent_def Let_def simp_thms if_True)

lemma points_show_history:
  assumes "a \<in> set activity" "ac_yesProbability a = Some p"
  shows "p \<in> set (mk_points (withMarketActivity market activity))"
proof -
  let ?h = "List.map_filter ac_yesProbability (js_sort historyOrder (filter (\<lambda>item. ac_yesProbability item \<noteq> None) activity))"
  have "p \<in> set ?h" using assms by (force simp: map_filter_def)
  moreover from this have "?h \<noteq> []" by auto
  ultimately show ?thesis by (simp add: withMarketActivity_def Let_def)
qed

section \<open>Properties\<close>

text \<open>
  Claim C39. One market empties the list.  The program accepts any positive fixture from anyone, but a
  private market whose fixture is above the safe integers makes its view throw, and the list has no
  isolation per market: while that account exists, reading the markets always fails.
\<close>

theorem one_market_empties_the_list:
  assumes "\<And>x rows y. we_programAccounts E x = (Inr rows, y) \<Longrightarrow> (address, info) \<in> set rows"
    and "we_decodeMarket E (ai_data info) = Some account" "privatePoolPhase (ma_phase account) \<noteq> None"
    and "integer_of (ma_fixture_id account) = Inr fixture" "\<not> safe_int fixture"
  shows "\<forall>x. \<exists>e y. getOnchainMarkets E x = (Inl e, y)"
proof -
  have p: "fails (\<lambda>_. True) (io_flat (privateMarket E) (decoded (we_decodeMarket E) rows))"
    if "(address, info) \<in> set rows" for rows
    by (rule fails_flat [OF decoded_in [where decode = "we_decodeMarket E", OF that assms(2)]])
      (simp add: privateMarket_def unsafe_fixture_fails [OF assms(3-5)])
  have "fails (\<lambda>_. True) (getOnchainMarkets E)"
    unfolding getOnchainMarkets_def Let_def
    by (rule fails_next_value, drule assms(1), intro fails_next fails_first p)
  then show ?thesis using fails_True [of "getOnchainMarkets E"] by blast
qed

text \<open>
  The list is in order: markets are listed by phase, open first, and within a phase by falling
  volume, and each one is the view of an account the program owns that decodes as a market.
\<close>

theorem listed_markets_are_ordered:
  assumes "getOnchainMarkets E x = (Inr listed, y)"
  shows "\<exists>rows s t. we_programAccounts E s = (Inr rows, t)
    \<and> sorted_wrt (\<lambda>l r. phaseRank (mk_tradingState l) < phaseRank (mk_tradingState r)
        \<or> phaseRank (mk_tradingState l) = phaseRank (mk_tradingState r) \<and> mk_volume r \<le> mk_volume l) listed
    \<and> (\<forall>m \<in> set listed. \<exists>address info. (address, info) \<in> set rows \<and> mk_address m = Some (we_toBase58 E address)
        \<and> (we_decodeMarket E (ai_data info) \<noteq> None \<or> we_decodeHybrid E (ai_data info) \<noteq> None))"
proof -
  from assms obtain rows s accountMap traders s2 t2 s3 t3 shownPublic shownPrivate where
    r: "we_programAccounts E x = (Inr rows, s)"
    and pu: "io_flat (publicMarket E accountMap traders) (decoded (we_decodeHybrid E) rows) s2 = (Inr shownPublic, t2)"
    and pr: "io_flat (privateMarket E) (decoded (we_decodeMarket E) rows) s3 = (Inr shownPrivate, t3)"
    and l: "listed = js_sort marketOrder (shownPublic @ shownPrivate)"
    unfolding getOnchainMarkets_def Let_def io_bind_Inr io_return_Inr by blast
  have "\<exists>address info. (address, info) \<in> set rows \<and> mk_address m = Some (we_toBase58 E address)
        \<and> (we_decodeMarket E (ai_data info) \<noteq> None \<or> we_decodeHybrid E (ai_data info) \<noteq> None)"
    if "m \<in> set listed" for m
  proof -
    from that l consider "m \<in> set shownPublic" | "m \<in> set shownPrivate" by auto
    then show ?thesis
    proof cases
      case 1
      from flat_in [OF pu 1] obtain address account u v where
        "(address, account) \<in> set (decoded (we_decodeHybrid E) rows)"
        "publicMarket E accountMap traders (address, account) u = (Inr (Some m), v)" by auto
      then show ?thesis using decoded_from public_address by (metis option.distinct(1))
    next
      case 2
      from flat_in [OF pr 2] obtain address account u v where
        "(address, account) \<in> set (decoded (we_decodeMarket E) rows)"
        "privateMarket E (address, account) u = (Inr (Some m), v)" by auto
      then show ?thesis using decoded_from private_address unfolding privateMarket_def prod.case by (metis option.distinct(1))
    qed
  qed
  with r l sorted_js_sort [OF marketOrder_consistent, of "shownPublic @ shownPrivate"] show ?thesis
    unfolding marketOrder_le by blast
qed

text \<open>
  Reading one market is isolated: whatever the account holds, reading a market by its address
  fails only when the read of its account fails; every error after it gives no market.
\<close>

theorem one_market_read_is_isolated:
  assumes "\<And>address. always_returns (we_account E address)"
  shows "always_returns (getOnchainMarket E v questionCandidate)"
  unfolding getOnchainMarket_def
  by (auto intro!: always_returns_bind always_returns_catch always_returns_return assms split: option.split)

text \<open>
  Claim C40. Anyone can write the activity of a market: a log line of a successful transaction that names
  the market in its addresses is shown as a trade whenever its payload decodes to a trade event of
  the market, whichever program wrote the line, and the probability it states becomes a point of the
  market's chart.
\<close>

theorem any_program_can_show_a_trade:
  assumes "we_publicKey E v = Some market" "getOnchainMarketActivity E v limit x = (Inr activity, y)"
    and "\<And>n s t sigs. we_signatures E market n s = (Inr sigs, t) \<Longrightarrow> sigs \<noteq> []"
    and "\<And>ss s t transactions. we_transactions E ss s = (Inr transactions, t) \<Longrightarrow> Some tr \<in> set transactions"
    and "\<not> ti_failed tr" "ti_signatures tr = signature # rest" "signature \<noteq> []" "ti_logMessages tr = Some logs"
    and "''Program data: '' @ payload \<in> set logs"
    and "we_decodeEvent E payload = Inr (Some (''HybridTradeExecuted'', data))" "eventMatchesMarket E data market"
    and "\<And>timestamp. trade_activity \<lparr>ei_name = ''HybridTradeExecuted'', ei_data = data, ei_signature = signature,
        ei_slot = ti_slot tr, ei_timestamp = timestamp\<rparr> = Inr (a timestamp)"
    and "\<And>timestamp. ac_yesProbability (a timestamp) = Some p"
  shows "\<exists>timestamp. a timestamp \<in> set activity \<and> p \<in> set (mk_points (withMarketActivity shown activity))"
proof -
  from assms(2) obtain sigs s where w: "we_signatures E market (min (max limit 1) 200) x = (Inr sigs, s)"
    and rest: "(if sigs = [] then io_return [] else io_bind (we_transactions E (map sg_signature sigs)) (\<lambda>transactions.
        let signatureMetadata = rows_map (map (\<lambda>s. (sg_signature s, s)) sigs) in
        io_bind (io_lift (rmap_list (transactionActivity E market signatureMetadata) transactions)) (\<lambda>activity.
          io_return (js_sort activityOrder (concat activity))))) s = (Inr activity, y)"
    unfolding getOnchainMarketActivity_def assms(1) option.case io_bind_Inr [of "we_signatures E market n" for n] by blast
  from rest obtain transactions t metadata shownActivity where
    d: "we_transactions E (map sg_signature sigs) s = (Inr transactions, t)"
      "rmap_list (transactionActivity E market metadata) transactions = Inr shownActivity"
      "activity = js_sort activityOrder (concat shownActivity)"
    unfolding if_not_P [OF assms(3) [OF w]] Let_def io_bind_Inr io_lift_Inr io_return_Inr by blast
  from rmap_list_in [OF d(2) assms(4) [OF d(1)]]
  obtain one where one: "one \<in> set shownActivity" "transactionActivity E market metadata (Some tr) = Inr one"
    by blast
  have "activityFromEvent \<lparr>ei_name = ''HybridTradeExecuted'', ei_data = data, ei_signature = signature,
        ei_slot = ti_slot tr, ei_timestamp = timestamp\<rparr> = Inr (Some (a timestamp))" for timestamp
    unfolding trade_event [OF EventInput.select_convs(1)] assms(12) by (simp only: rbind_def sum.case)
  from logged_event_is_shown [OF one(2) assms(5-9) program_data_payload assms(10,11) this] obtain timestamp where "a timestamp \<in> set one" by blast
  with one(1) d have "a timestamp \<in> set activity" by auto
  with points_show_history assms(13) show ?thesis by blast
qed

subsection \<open>Witnesses\<close>

lemma one_market_empties_the_list_witness:
  "\<forall>x. \<exists>e y. getOnchainMarkets (web_example [([8], \<lparr>ai_owner = [0], ai_data = [1]\<rparr>)]) x = (Inl e, y)"
proof (rule one_market_empties_the_list)
  let ?E = "web_example [([8], \<lparr>ai_owner = [0], ai_data = [1]\<rparr>)]"
  show "([8], \<lparr>ai_owner = [0], ai_data = [1]\<rparr>) \<in> set rows" if "we_programAccounts ?E x = (Inr rows, y)" for x rows y
    using that by (auto simp: web_example_def io_return_Inr)
  show "we_decodeMarket ?E (ai_data \<lparr>ai_owner = [0], ai_data = [1]\<rparr>) = Some (private_account (2 ^ 60))"
    by (simp add: web_example_def)
  show "privatePoolPhase (ma_phase (private_account (2 ^ 60))) \<noteq> None"
    by (simp add: private_account_def example_names)
  show "integer_of (ma_fixture_id (private_account (2 ^ 60))) = Inr (2 ^ 60)" by (simp add: private_account_def)
  show "\<not> safe_int (2 ^ 60)" by (simp add: safe_int_def MAX_SAFE_INTEGER_def)
qed

text \<open>A continuous market and its oracle account.\<close>

definition listed_rows :: "(pubkey \<times> AccountInfo) list" where
  "listed_rows = [([9], \<lparr>ai_owner = [0], ai_data = [2]\<rparr>), ([7], \<lparr>ai_owner = [0], ai_data = [3]\<rparr>)]"

lemma listed_markets_are_ordered_witness:
  "\<exists>listed y. getOnchainMarkets (web_example listed_rows) () = (Inr listed, y) \<and> length listed = 1
     \<and> (\<forall>m \<in> set listed. \<exists>address info. (address, info) \<in> set listed_rows
         \<and> mk_address m = Some (we_toBase58 (web_example listed_rows) address))"
proof -
  let ?E = "web_example listed_rows"
  have e: "we_programAccounts ?E = io_return listed_rows" "we_toBase58 ?E = bytes_hex" "we_derive ?E = (\<lambda>seeds p. [])"
    "we_multipleAccounts ?E ks = io_return (map (\<lambda>k. None) ks)" for ks
    by (simp_all add: web_example_def)
  have d: "decoded (we_decodeMarket ?E) listed_rows = []" "decoded (we_decodeHybrid ?E) listed_rows = [([9], hybrid_account)]"
    "decoded (we_decodePosition ?E) listed_rows = []"
    by (simp_all add: web_example_def listed_rows_def decoded_def List.map_filter_simps)
  have v: "getAccountMap ?E [[]] () = (Inr [([], None)], ())"
    by (simp add: getAccountMap_def rows_map_def map_put_def map_values_def e accountMapFrom.simps [of _ _ 0]
        accountMapFrom.simps [of _ _ 100] Let_def accountBatch_def io_bind_def io_return_def bytes_hex_def)
  have h: "bytes_hex [7] = ''07''" "bytes_hex [9] = ''09''" "bytes_hex [] = []" by code_simp+
  let ?m = "[(''09'', Some \<lparr>ai_owner = [0], ai_data = [2]\<rparr>), (''07'', Some \<lparr>ai_owner = [0], ai_data = [3]\<rparr>), ([], None)]"
  have s: "supportFromMap ?E ?m [9] [7] = hi_support (hybrid_input None)"
    by (simp add: supportFromMap_def map_get_or_null_def map_get_def e h hybridMetadataPda_def resolutionReceiptPda_def
        hybridVaultPda_def pda_def hybrid_input_def)
  obtain m where m: "buildHybridMarket ?E (hybrid_input None) () = (Inr (Some m), ())"
    using example_view by blast
  have p: "publicMarket ?E ?m [] ([9], hybrid_account) () = (Inr (Some m), ())"
    using m s by (simp add: publicMarket_def hybrid_input_def hybrid_account_def map_get_def)
  have r: "rows_map (map (\<lambda>(pubkey, account). (bytes_hex pubkey, Some account)) listed_rows)
      = [(''09'', Some \<lparr>ai_owner = [0], ai_data = [2]\<rparr>), (''07'', Some \<lparr>ai_owner = [0], ai_data = [3]\<rparr>)]"
    by (simp add: rows_map_def listed_rows_def h map_put_def)
  have "getOnchainMarkets ?E () = (Inr [m], ())"
    unfolding getOnchainMarkets_def Let_def d e(2)
    by (simp add: r e(1,3,4) io_bind_def io_return_def hybridVaultPda_def pda_def v map_put_def d p js_sort_def)
  with listed_markets_are_ordered [OF this] show ?thesis
    by (auto simp: e io_return_Inr)
qed

lemma one_market_read_is_isolated_witness:
  "always_returns (getOnchainMarket (web_example listed_rows) ''k'' None)"
  by (rule one_market_read_is_isolated) (simp add: web_example_def always_returns_return)

text \<open>A transaction of another program, whose log names the market.\<close>

definition forged_event :: event_data where
  "forged_event = [(''market'', EV_address (bytes_hex [9])), (''direction'', EV_number (Bigint_like 0)),
     (''side'', EV_number (Bigint_like 1)), (''shares'', EV_number (Bigint_like 1000000)),
     (''total_amount'', EV_number (Bigint_like 0)), (''fee_amount'', EV_number (Bigint_like 0)),
     (''after_yes_probability'', EV_number (Bigint_like 990000))]"

definition forged_transaction :: TransactionInfo where
  "forged_transaction = \<lparr>ti_failed = False, ti_logMessages = Some [''Program Other invoke [1]'', ''Program data: '' @ ''xyz''],
     ti_signatures = [''s''], ti_slot = 5, ti_blockTime = None\<rparr>"

definition forged_web :: "unit web_env" where
  "forged_web = (web_example [])\<lparr>we_decodeEvent := (\<lambda>s. Inr (Some (''HybridTradeExecuted'', forged_event))),
     we_signatures := (\<lambda>k n. io_return [\<lparr>sg_signature = ''s'', sg_blockTime = Some 7\<rparr>]),
     we_transactions := (\<lambda>ss. io_return [Some forged_transaction])\<rparr>"

definition forged_input :: "int option \<Rightarrow> EventInput" where
  "forged_input timestamp = \<lparr>ei_name = ''HybridTradeExecuted'', ei_data = forged_event, ei_signature = ''s'', ei_slot = 5,
     ei_timestamp = timestamp\<rparr>"

definition forged_activity :: "int option \<Rightarrow> MarketActivity" where
  "forged_activity timestamp = (activity_base (forged_input timestamp) Kind_trade ''Bought YES'' ''1 shares for 0 USDC, 0 fee'')
     \<lparr>ac_account := None, ac_yesProbability := Some (double (double 990000 / 10000))\<rparr>"

lemma forged_fields:
  "eventInteger forged_event ''direction'' = Inr 0" "eventInteger forged_event ''side'' = Inr 1"
  "eventInteger forged_event ''shares'' = Inr 1000000" "eventInteger forged_event ''total_amount'' = Inr 0"
  "eventInteger forged_event ''fee_amount'' = Inr 0" "eventInteger forged_event ''after_yes_probability'' = Inr 990000"
  "eventAddress forged_event ''owner'' = None" "eventAddress forged_event ''market'' = Some (bytes_hex [9])"
  "usdc_text 1000000 = Inr ''1''" "usdc_text 0 = Inr ''0''"
  by code_simp+

lemma forged_trade: "trade_activity (forged_input timestamp) = Inr (forged_activity timestamp)"
  unfolding trade_activity_def Let_def
  by (simp add: forged_input_def forged_activity_def forged_fields rbind_def)

lemma forged_log:
  "log_payload ''Program Other invoke [1]'' = None" "eventMatchesMarket forged_web forged_event [9]"
  "we_publicKey forged_web v = Some [9]" "we_decodeEvent forged_web s = Inr (Some (''HybridTradeExecuted'', forged_event))"
  "we_signatures forged_web k n = io_return [\<lparr>sg_signature = ''s'', sg_blockTime = Some 7\<rparr>]"
  "we_transactions forged_web ss = io_return [Some forged_transaction]"
proof -
  show "log_payload ''Program Other invoke [1]'' = None" by code_simp
  have "we_toBase58 forged_web = bytes_hex" by (simp add: forged_web_def web_example_def)
  then show "eventMatchesMarket forged_web forged_event [9]" by (simp add: eventMatchesMarket_def forged_fields)
qed (simp_all add: forged_web_def web_example_def)

lemma forged_lines:
  "logActivity forged_web [9] ''s'' 5 timestamp ''Program Other invoke [1]'' = Inr None"
  "logActivity forged_web [9] ''s'' 5 timestamp (''Program data: '' @ ''xyz'') = Inr (Some (forged_activity timestamp))"
proof -
  show "logActivity forged_web [9] ''s'' 5 timestamp ''Program Other invoke [1]'' = Inr None"
    unfolding logActivity_def forged_log(1) by simp
  have "activityFromEvent (forged_input timestamp) = Inr (Some (forged_activity timestamp))"
    by (subst trade_event) (simp_all add: forged_trade rbind_def, simp add: forged_input_def)
  then show "logActivity forged_web [9] ''s'' 5 timestamp (''Program data: '' @ ''xyz'') = Inr (Some (forged_activity timestamp))"
    unfolding logActivity_def program_data_payload option.case forged_log(4) forged_input_def
    by (simp add: forged_log(2) rbind_def try_catch_def)
qed

lemma any_program_can_show_a_trade_witness:
  "\<exists>activity y. getOnchainMarketActivity forged_web ''k'' 10 () = (Inr activity, y)
     \<and> (\<exists>timestamp. forged_activity timestamp \<in> set activity)
     \<and> double (double 990000 / 10000) \<in> set (mk_points (withMarketActivity argentina_switzerland activity))"
proof -
  have t: "transactionActivity forged_web [9] metadata (Some forged_transaction)
      = Inr [forged_activity (Option.bind (map_get metadata ''s'') sg_blockTime)]" for metadata
    using forged_lines by (simp add: transactionActivity_def forged_transaction_def Let_def rbind_def)
  have g: "\<exists>activity. getOnchainMarketActivity forged_web ''k'' 10 () = (Inr activity, ())"
    unfolding getOnchainMarketActivity_def forged_log(3) option.case forged_log(5,6) Let_def
    by (simp add: io_bind_def io_return_def io_lift_def t rbind_def)
  then obtain activity where a: "getOnchainMarketActivity forged_web ''k'' 10 () = (Inr activity, ())" by blast
  have "\<exists>timestamp. forged_activity timestamp \<in> set activity
     \<and> double (double 990000 / 10000) \<in> set (mk_points (withMarketActivity argentina_switzerland activity))"
  proof (rule any_program_can_show_a_trade [OF forged_log(3) a])
    show "sigs \<noteq> []" if "we_signatures forged_web [9] n s = (Inr sigs, t)" for n s t sigs
      using that by (simp add: forged_log(5) io_return_Inr)
    show "Some forged_transaction \<in> set transactions" if "we_transactions forged_web ss s = (Inr transactions, t)" for ss s t transactions
      using that by (simp add: forged_log(6) io_return_Inr)
    show "trade_activity \<lparr>ei_name = ''HybridTradeExecuted'', ei_data = forged_event, ei_signature = ''s'',
        ei_slot = ti_slot forged_transaction, ei_timestamp = timestamp\<rparr> = Inr (forged_activity timestamp)" for timestamp
      using forged_trade [of timestamp] by (simp add: forged_input_def forged_transaction_def)
  qed (simp_all add: forged_transaction_def forged_log forged_activity_def, simp add: forged_log(4))
  with a show ?thesis by blast
qed

end
