(* ===== verification/Spec2Isabelle.thy ===== *)
theory Spec2Isabelle
  imports LmsrSolvency Economics Portfolio Commitments Committee Keeper CommitteeFlow Relayer Positions ServerMarket
begin

text \<open>
  A verification development for Nortia, prediction markets on Solana.

  The program.  Nortia has two kinds of market.  In a private market every order is a commitment and a
  proof; its content is cut into shares for a committee of three members, two of which together open
  the batch after the lock.  In a continuous (hybrid) market a market maker with the LMSR cost function
  quotes both outcomes at every time.  The client library (\<open>client/src\<close>) has the arithmetic and the
  cryptography; the services (\<open>services/src\<close>) run next to the on-chain program: a keeper that locks,
  resolves and times out markets from the price and score providers, the committee members with their
  coordinator, a service that makes proofs, a relayer that sends redemptions so that the redeemer
  does not appear as the sender, and an indexer.  The web (\<open>web\<close>) shows markets, keeps a user's private positions in the
  browser and forwards requests to the services.

  How the theories follow the code, in the order of their imports.

  \<^item> The language: \<open>Prelude\<close> (errors, results, numbers, bytes), \<open>JsText\<close>, \<open>JsMap\<close>, \<open>JsArray\<close>, \<open>Json\<close>,
    \<open>JsUrl\<close>, \<open>Base64\<close>, \<open>JsDate\<close> and \<open>JsDouble\<close> give the operations of JavaScript, the browser and
    Node the code uses, with their laws: print and parse of integers, JSON, base 64 and times are
    inverse, a sort with a consistent comparator is sorted and stable.  \<open>Effects\<close> and
    \<open>EffectLogic\<close> give programs that read and change a world and may throw, and the weakest
    preconditions and invariants to reason about them.
  \<^item> \<open>Lmsr\<close> and \<open>LmsrSolvency\<close>: \<open>client/src/lmsr.ts\<close>.  The quotes are computed with the loops of the
    code; the locale \<open>cost_maker\<close> is what a ledger needs of a market maker, and its interpretation on
    the code's quotes gives the solvency of the vault.
  \<^item> \<open>Economics\<close> and \<open>Portfolio\<close>: \<open>client/src/economics.ts\<close> and \<open>client/src/portfolio.ts\<close>, settlement and
    payouts, the text of amounts, positions.
  \<^item> \<open>Commitments\<close>: \<open>client/src/commitments.ts\<close> and \<open>web/lib/crypto.ts\<close>, against the complete binary tree
    as the specification.
  \<^item> \<open>FieldInverse\<close> and \<open>Committee\<close>: \<open>client/src/committee.ts\<close> and the shares of
    \<open>web/components/private-order-panel.tsx\<close>.  The locale \<open>additive_sharing\<close> is the contract of the secret sharing,
    \<open>first_write_store\<close> (in \<open>JsMap\<close>) the contract of a member's store.
  \<^item> \<open>CommitteeCrypto\<close>, \<open>CommitteeServer\<close>, \<open>CommitteeFlow\<close>: \<open>services/src/committee\<close>,
    \<open>web/lib/committee-delivery.ts\<close> and the share route of the web.  The state of a member is a record
    of its orders in memory and of what is on disk; the handler is one function from a request to a
    response and a state, and a delivery is also cut where other requests can run between.
  \<^item> \<open>Oracles\<close>, \<open>Txline\<close>, \<open>Feeds\<close>: the oracle sources and addresses of the client, the score provider and
    the price providers with the settlements they make.
  \<^item> \<open>Lifecycle\<close> and \<open>Keeper\<close>: the planners, the abstract life of a market on chain as a step
    relation, and the keeper's pass and loop.
  \<^item> \<open>Prover\<close> and \<open>Relayer\<close>: \<open>services/src/prover\<close> and \<open>services/src/relayer\<close>; the relayer's handler runs in
    three pieces that interleave with those of other requests.
  \<^item> \<open>Indexer\<close>: \<open>services/src/indexer\<close>.
  \<^item> \<open>Positions\<close>: \<open>web/lib/positions.ts\<close>.
  \<^item> \<open>MarketViews\<close> and \<open>ServerMarket\<close>: \<open>web/lib/markets.ts\<close> and \<open>web/lib/solana/server-market.ts\<close>.

  Names are those of the code; a definition without a counterpart there is a piece of a longer
  function, cut where its text says.  A thrown error is \<open>Inl\<close> with the message of the code.

  What is shown.  Money: the vault of the market maker covers both outcomes after any sequence of
  trades, a round trip earns nothing, and the payouts of a batch with its fee never exceed what was
  deposited.  Privacy and integrity of batches: two honest members open exactly the batch
  that was ordered, whatever two members send a finalised batch is well formed, an accepted share is
  never replaced and survives a restart once acknowledged, and the coordinator sends at most one
  transaction, made from two agreeing aggregates.  Commitments: both implementations of the tree agree with the
  specification, and a path opens only the committed order unless the hash collides.  Oracles and
  lifecycle: every action the keeper plans is one the program accepts in every reachable state, a
  late market is resolved, the accepted update brackets the target time, and the final score is the latest.
  Transport: sealed state, encrypted shares, vaults and backups open to what was put in.  Services:
  the statements sent to the circuits are those the client computes, and the relayer sends only
  checked redemptions in every interleaving.

  What modelling found is stated as theorems too: the score stream depends on chunking when a
  line end is cut in two; overlapping deliveries can lose an acknowledged share; the
  relayer refuses every real market because their addresses are off the curve; its limit of waiting
  redemptions can be exceeded; one market with a large number stops the index and empties the market
  list; unlocking one wallet deletes the positions of the others; and any program can write a
  market's activity.

  Parameters and hypotheses.  Third-party code and the outside are arguments: the Poseidon and SHA
  hashes, AES-GCM and RSA-OAEP, public keys and address derivation, the coders of accounts and events, the
  RPC node, HTTP providers, clocks, random bytes, files, child processes and the locale.  What is
  assumed of them is named in the statement that uses it: that decryption inverts encryption
  (\<open>aes_opens\<close> and the like), that two given inputs do not collide, that an address derived by the program
  is off the curve, that a read of the node answers with a given account.  Witnesses instantiate
  them with concrete functions.

  Bounds and fuel.  The parser of JSON takes the length of its text as fuel, which the round trip shows to
  be enough for every printed value.  The rejection sampling of field elements runs over a stream of
  draws and is shown to return at the first one in range.  Every other loop is a total function with a
  measure.  BigInt values are \<open>int\<close>; values of type number are checked against the safe integers where
  the code does so; prices and amounts that are shown as fractions are doubles, rounded as the language does.

  Limits of the model.  Characters end at code 255.  Object keys inherited from the prototype are no
  variants of an enumeration.  Of \<open>Date.parse\<close> only the format of \<open>toISOString\<close> is read.  A loop over
  accounts that the code starts concurrently runs in order where the pieces do not share state; where
  they do (a member's deliveries, the relayer's queue) the pieces interleave.

  Not modelled, and why: React components and hooks (rendering and browser state; the logic they call is modelled);
  deployment scripts, key generation and the configuration at start-up (one-shot reads of the
  environment, calls of libraries); the API routes that only forward a request; the browser prover
  and the vendored WebAssembly loader; the generated interface description; the on-chain program and the
  circuits, which are Rust and Noir: they appear as the transactions sent and the statements
  proved.
\<close>

end
